(* ===== verification/Prelude.thy ===== *)
theory Prelude
  imports Main "HOL-Library.AList"
begin

text \<open>
  Shared ground of the development: Go's fixed-width integers, slices read as lists, maps read as
  association lists, error values, and the generic lemmas the components use.

  Conventions. Go's \<open>int\<close>, \<open>int64\<close> and \<open>time.Duration\<close> (nanoseconds) are \<open>int\<close>; wherever
  the code computes with a value that can leave the 64-bit or the 32-bit range the wrap-around is
  written out with \<open>wrap64\<close> or \<open>wrap32\<close>. Instants (\<open>time.Time\<close>) are nanoseconds as \<open>int\<close>, and
  an instant that the code tests with \<open>IsZero\<close> is an \<open>int option\<close> whose \<open>None\<close> is the zero time.
\<close>

named_theorems heap_simps \<open>reading and writing worker structs through their pointers\<close>
named_theorems frame_simps \<open>parts of the pool state an operation leaves alone\<close>

section \<open>Fixed-width integers\<close>

definition wrap32 :: "int \<Rightarrow> int" where
  "wrap32 x = (x + 2147483648) mod 4294967296 - 2147483648"

definition wrap64 :: "int \<Rightarrow> int" where
  "wrap64 x = (x + 9223372036854775808) mod 18446744073709551616 - 9223372036854775808"

lemma wrap32_id [simp]: "- 2147483648 \<le> x \<Longrightarrow> x < 2147483648 \<Longrightarrow> wrap32 x = x"
  by (simp add: wrap32_def)

lemma wrap64_id [simp]:
  "- 9223372036854775808 \<le> x \<Longrightarrow> x < 9223372036854775808 \<Longrightarrow> wrap64 x = x"
  by (simp add: wrap64_def)

lemma wrap32_range: "- 2147483648 \<le> wrap32 x \<and> wrap32 x < 2147483648"
  by (simp add: wrap32_def)

lemma wrap64_range: "- 9223372036854775808 \<le> wrap64 x \<and> wrap64 x < 9223372036854775808"
  by (simp add: wrap64_def)

text \<open>Nanoseconds per second and per millisecond (\<open>time.Second\<close>, \<open>time.Millisecond\<close>).\<close>

definition Second :: int where
  "Second = 1000000000"

definition Millisecond :: int where
  "Millisecond = 1000000"

section \<open>Error values\<close>

text \<open>
  The error values the code creates, wraps and compares. The sentinel errors of package \<open>io\<close> are
  constructors of their own because the code compares one of them by identity; everything else
  is a message, wrapped by \<open>fmt.Errorf("...: %w", err)\<close> as a prefix in front of an inner error.
\<close>

datatype error =
    EOF
  | UnexpectedEOF
  | ShortWrite
  | Canceled
  | DeadlineExceeded
  | Msg string
  | Wrap string error

fun Error :: "error \<Rightarrow> string" where
  "Error EOF = ''EOF''"
| "Error UnexpectedEOF = ''unexpected EOF''"
| "Error ShortWrite = ''short write''"
| "Error Canceled = ''context canceled''"
| "Error DeadlineExceeded = ''context deadline exceeded''"
| "Error (Msg m) = m"
| "Error (Wrap m e) = m @ '': '' @ Error e"

section \<open>Slices\<close>

text \<open>
  \<open>append(xs[:i], xs[i+1:]...)\<close> at the first index that satisfies a test, and the overwriting of
  the first such element: the two ways the pool edits its slice of workers.
\<close>

fun remove_first :: "('a \<Rightarrow> bool) \<Rightarrow> 'a list \<Rightarrow> 'a list" where
  "remove_first P [] = []"
| "remove_first P (x # xs) = (if P x then xs else x # remove_first P xs)"

fun replace_first :: "('a \<Rightarrow> bool) \<Rightarrow> 'a \<Rightarrow> 'a list \<Rightarrow> 'a list" where
  "replace_first P y [] = []"
| "replace_first P y (x # xs) = (if P x then y # xs else x # replace_first P y xs)"

lemma remove_first_none [simp]: "\<not> (\<exists>x \<in> set xs. P x) \<Longrightarrow> remove_first P xs = xs"
  by (induction xs) auto

lemma remove_first_subset: "set (remove_first P xs) \<subseteq> set xs"
  by (induction xs) auto

lemma remove_first_distinct: "distinct xs \<Longrightarrow> distinct (remove_first P xs)"
  by (induction xs) (use remove_first_subset in fastforce)+

lemma remove_first_keeps: "x \<in> set xs \<Longrightarrow> \<not> P x \<Longrightarrow> x \<in> set (remove_first P xs)"
  by (induction xs) auto

lemma length_remove_first:
  "length (remove_first P xs) = (if \<exists>x \<in> set xs. P x then length xs - 1 else length xs)"
proof (induction xs)
  case (Cons x xs)
  then show ?case by (cases xs) auto
qed simp

lemma remove_first_unique:
  "distinct (map f xs) \<Longrightarrow> remove_first (\<lambda>x. f x = k) xs = filter (\<lambda>x. f x \<noteq> k) xs"
proof (induction xs)
  case (Cons x xs)
  show ?case
  proof (cases "f x = k")
    case True
    with Cons.prems have "\<forall>y \<in> set xs. f y \<noteq> k"
      by (metis distinct.simps(2) imageI list.set_map list.simps(9))
    then have "filter (\<lambda>y. f y \<noteq> k) xs = xs" by (simp add: filter_id_conv)
    with True show ?thesis by simp
  qed (use Cons in simp)
qed simp

lemma map_remove_first_distinct:
  "distinct (map f xs) \<Longrightarrow> distinct (map f (remove_first P xs))"
proof (induction xs)
  case (Cons x xs)
  then show ?case using remove_first_subset [of P xs] by auto
qed simp

lemma length_replace_first [simp]: "length (replace_first P y xs) = length xs"
  by (induction xs) auto

lemma set_replace_first: "set (replace_first P y xs) \<subseteq> insert y (set xs)"
  by (induction xs) auto

lemma replace_first_member: "\<exists>x \<in> set xs. P x \<Longrightarrow> y \<in> set (replace_first P y xs)"
  by (induction xs) auto

lemma map_replace_first_same:
  "(\<And>x. x \<in> set xs \<Longrightarrow> P x \<Longrightarrow> f x = f y) \<Longrightarrow> map f (replace_first P y xs) = map f xs"
  by (induction xs) auto

lemma filter_remove_first_length:
  "length (filter Q (remove_first P xs)) \<le> length (filter Q xs)"
  by (induction xs) auto

lemma length_filter_mono:
  "(\<And>x. x \<in> set xs \<Longrightarrow> P x \<Longrightarrow> Q x) \<Longrightarrow> length (filter P xs) \<le> length (filter Q xs)"
  by (induction xs) (auto simp: le_SucI)

section \<open>Go maps\<close>

text \<open>
  A Go map is an association list with distinct keys (iteration order is unspecified in Go and no
  property depends on it); \<open>len\<close> is its length and the loop \<open>for k := range m { delete(m, k) }\<close>
  deletes its keys one after another.
\<close>

type_synonym ('k, 'v) gomap = "('k \<times> 'v) list"

fun delete_keys :: "'k list \<Rightarrow> ('k, 'v) gomap \<Rightarrow> ('k, 'v) gomap" where
  "delete_keys [] m = m"
| "delete_keys (k # ks) m = delete_keys ks (AList.delete k m)"

definition clear_map :: "('k, 'v) gomap \<Rightarrow> ('k, 'v) gomap" where
  "clear_map m = delete_keys (map fst m) m"

lemma delete_keys_filter: "delete_keys ks m = filter (\<lambda>p. fst p \<notin> set ks) m"
  by (induction ks arbitrary: m)
     (auto simp: AList.delete_eq filter_filter intro!: filter_cong)

lemma clear_map_empty [simp]: "clear_map m = []"
  by (auto simp: clear_map_def delete_keys_filter filter_empty_conv)

section \<open>Frame relations\<close>

text \<open>
  What an operation of the pool may change is stated as a relation between the state before and
  after it. The contract of such a relation is that it is closed under doing nothing and under
  composition; then it holds of running an operation for every element of a list, and of running it
  a number of times. The relations of the pool (\<open>tidy\<close>, \<open>tidyq\<close>, \<open>flow\<close>) interpret it.
\<close>

locale frame_relation =
  fixes frame :: "'s \<Rightarrow> 's \<Rightarrow> bool"
  assumes unchanged: "frame s s"
    and composed: "frame s s1 \<Longrightarrow> frame s1 s2 \<Longrightarrow> frame s s2"
begin

lemma fold_op:
  assumes "\<And>a s. frame s (f a s)"
  shows "frame s (fold f as s)"
  by (induction as arbitrary: s) (auto intro: unchanged composed assms)

lemma iterate:
  assumes "\<And>s. frame s (f s)"
  shows "frame s ((f ^^ n) s)"
  by (induction n) (auto intro: unchanged composed assms)

end

end
