(* ===== verification/GoText.thy ===== *)
theory GoText
  imports Prelude
begin

text \<open>
  The functions of \<open>strings\<close>, \<open>strconv\<close> and \<open>fmt\<close> the code calls, on byte strings (case mapping and
  white space for the ASCII range, which decides every comparison the code makes), and the round
  trip between \<open>strconv.Itoa\<close> and \<open>strconv.Atoi\<close>.
\<close>

section \<open>Case, prefixes, substrings\<close>

definition lower_char :: "char \<Rightarrow> char" where
  "lower_char c = (let n = (of_char c :: nat) in if 65 \<le> n \<and> n \<le> 90 then char_of (n + 32) else c)"

definition upper_char :: "char \<Rightarrow> char" where
  "upper_char c = (let n = (of_char c :: nat) in if 97 \<le> n \<and> n \<le> 122 then char_of (n - 32) else c)"

definition to_lower :: "string \<Rightarrow> string" where
  "to_lower s = map lower_char s"

definition to_upper :: "string \<Rightarrow> string" where
  "to_upper s = map upper_char s"

definition has_prefix :: "string \<Rightarrow> string \<Rightarrow> bool" where
  "has_prefix s p \<longleftrightarrow> take (length p) s = p"

definition trim_prefix :: "string \<Rightarrow> string \<Rightarrow> string" where
  "trim_prefix s p = (if has_prefix s p then drop (length p) s else s)"

fun contains :: "string \<Rightarrow> string \<Rightarrow> bool" where
  "contains [] p = (p = [])"
| "contains (c # cs) p = (has_prefix (c # cs) p \<or> contains cs p)"

lemma has_prefix_append [simp]: "has_prefix (p @ s) p"
  by (simp add: has_prefix_def)

lemma contains_iff: "contains s p \<longleftrightarrow> (\<exists>a b. s = a @ p @ b)"
proof (induction s)
  case (Cons c cs)
  have pre: "has_prefix (c # cs) p \<longleftrightarrow> (\<exists>b. c # cs = p @ b)"
    by (metis append_eq_conv_conj append_take_drop_id has_prefix_def)
  show ?case
  proof
    assume "contains (c # cs) p"
    then show "\<exists>a b. c # cs = a @ p @ b"
      using pre Cons.IH by (metis append_Cons append_Nil contains.simps(2))
  next
    assume "\<exists>a b. c # cs = a @ p @ b"
    then obtain a b where ab: "c # cs = a @ p @ b" by blast
    show "contains (c # cs) p"
    proof (cases a)
      case Nil
      with ab pre have "has_prefix (c # cs) p" by auto
      then show ?thesis unfolding contains.simps by (rule disjI1)
    next
      case (Cons a' as)
      with ab Cons.IH show ?thesis by auto
    qed
  qed
qed auto

lemma contains_append: "contains (a @ p @ b) p"
  by (auto simp: contains_iff)

lemma contains_mono: "contains s p \<Longrightarrow> contains (a @ s @ b) p"
  by (metis append.assoc contains_iff)

lemma contains_append_right: "contains s p \<Longrightarrow> contains (a @ s) p"
  using contains_mono [of s p a "[]"] by simp

definition is_space :: "char \<Rightarrow> bool" where
  "is_space c \<longleftrightarrow> (let n = (of_char c :: nat) in n = 32 \<or> (9 \<le> n \<and> n \<le> 13))"

definition trim_space :: "string \<Rightarrow> string" where
  "trim_space s = rev (dropWhile is_space (rev (dropWhile is_space s)))"

text \<open>\<open>strings.Cut(s, sep)\<close> for a one-byte separator: before, after and whether it was found.\<close>

fun cut :: "string \<Rightarrow> char \<Rightarrow> string \<times> string \<times> bool" where
  "cut [] sep = ([], [], False)"
| "cut (c # cs) sep =
     (if c = sep then ([], cs, True)
      else case cut cs sep of (a, b, ok) \<Rightarrow> (c # a, b, ok))"

lemma cut_found: "cut s sep = (a, b, True) \<Longrightarrow> s = a @ sep # b \<and> sep \<notin> set a"
  by (induction s arbitrary: a) (auto split: if_splits prod.splits)

lemma cut_first: "sep \<notin> set a \<Longrightarrow> cut (a @ sep # b) sep = (a, b, True)"
  by (induction a) auto

section \<open>Decimal numbers\<close>

definition digit :: "nat \<Rightarrow> char" where
  "digit d = char_of (48 + d)"

fun digits_of :: "nat \<Rightarrow> string" where
  "digits_of n = (if n < 10 then [digit n] else digits_of (n div 10) @ [digit (n mod 10)])"

declare digits_of.simps [simp del]

definition itoa :: "int \<Rightarrow> string" where
  "itoa n = (if n < 0 then CHR ''-'' # digits_of (nat (- n)) else digits_of (nat n))"

text \<open>\<open>%03d\<close> on a worker id.\<close>

definition pad3 :: "int \<Rightarrow> string" where
  "pad3 n =
     (if n < 0 then CHR ''-'' # replicate (2 - length (digits_of (nat (- n)))) (CHR ''0'') @ digits_of (nat (- n))
      else replicate (3 - length (digits_of (nat n))) (CHR ''0'') @ digits_of (nat n))"

definition digit_value :: "char \<Rightarrow> nat option" where
  "digit_value c = (let n = (of_char c :: nat) in if 48 \<le> n \<and> n \<le> 57 then Some (n - 48) else None)"

fun parse_digits :: "nat \<Rightarrow> string \<Rightarrow> nat option" where
  "parse_digits acc [] = Some acc"
| "parse_digits acc (c # cs) =
     (case digit_value c of None \<Rightarrow> None | Some d \<Rightarrow> parse_digits (10 * acc + d) cs)"

text \<open>
  \<open>strconv.Atoi\<close>: an optional sign, at least one decimal digit, and a value in the 64-bit range;
  \<open>None\<close> stands for the error result.
\<close>

definition atoi_digits :: "string \<Rightarrow> nat option" where
  "atoi_digits s = (if s = [] then None else parse_digits 0 s)"

definition atoi :: "string \<Rightarrow> int option" where
  "atoi s =
     (let neg = (s \<noteq> [] \<and> hd s = CHR ''-'');
          ds = (if s \<noteq> [] \<and> (hd s = CHR ''-'' \<or> hd s = CHR ''+'') then tl s else s)
      in case atoi_digits ds of
           None \<Rightarrow> None
         | Some n \<Rightarrow>
             if neg then (if int n \<le> 9223372036854775808 then Some (- int n) else None)
             else (if int n < 9223372036854775808 then Some (int n) else None))"

lemma digit_value_digit [simp]: "d < 10 \<Longrightarrow> digit_value (digit d) = Some d"
  by (simp add: digit_value_def digit_def Let_def)

lemma parse_digits_append:
  "parse_digits acc (xs @ ys) = Option.bind (parse_digits acc xs) (\<lambda>a. parse_digits a ys)"
  by (induction xs arbitrary: acc) (auto split: option.splits)

lemma parse_digits_of: "parse_digits 0 (digits_of n) = Some n"
proof (induction n rule: digits_of.induct)
  case (1 n)
  show ?case
  proof (cases "n < 10")
    case True
    then show ?thesis by (simp add: digits_of.simps [of n])
  next
    case False
    with 1 have "parse_digits 0 (digits_of (n div 10)) = Some (n div 10)" by simp
    with False show ?thesis by (simp add: digits_of.simps [of n] parse_digits_append)
  qed
qed

lemma digits_of_nonempty [simp]: "digits_of n \<noteq> []"
  by (subst digits_of.simps) simp

lemma digits_of_digits: "c \<in> set (digits_of n) \<Longrightarrow> \<exists>d < 10. c = digit d"
proof (induction n rule: digits_of.induct)
  case (1 n)
  have "\<exists>d < 10. digit (n mod 10) = digit d" by (rule exI [of _ "n mod 10"]) simp
  moreover have "c \<in> set (if n < 10 then [digit n] else digits_of (n div 10) @ [digit (n mod 10)])"
    using "1.prems" digits_of.simps [of n] by simp
  ultimately show ?case using "1.IH" by (cases "n < 10") auto
qed

lemma digit_neq_sign: "d < 10 \<Longrightarrow> digit d \<noteq> CHR ''-'' \<and> digit d \<noteq> CHR ''+''"
  by (auto simp: digit_def dest: arg_cong [where f = "of_char :: char \<Rightarrow> nat"])

lemma hd_digits_of: "hd (digits_of n) \<noteq> CHR ''-'' \<and> hd (digits_of n) \<noteq> CHR ''+''"
  by (metis digit_neq_sign digits_of_digits digits_of_nonempty hd_in_set)

lemma atoi_itoa:
  "- 9223372036854775808 \<le> n \<Longrightarrow> n < 9223372036854775808 \<Longrightarrow> atoi (itoa n) = Some n"
  using hd_digits_of [of "nat n"]
  by (auto simp: atoi_def itoa_def atoi_digits_def parse_digits_of Let_def)

lemma atoi_range:
  "atoi s = Some n \<Longrightarrow> - 9223372036854775808 \<le> n \<and> n < 9223372036854775808"
  by (auto simp: atoi_def Let_def split: option.splits if_splits)


lemma trim_space_none: "\<forall>c \<in> set s. \<not> is_space c \<Longrightarrow> trim_space s = s"
proof -
  assume s: "\<forall>c \<in> set s. \<not> is_space c"
  then have "dropWhile is_space s = s" "dropWhile is_space (rev s) = rev s"
    by (auto simp: dropWhile_eq_self_iff hd_rev)
  then show ?thesis by (simp add: trim_space_def)
qed

lemma digit_no_space: "d < 10 \<Longrightarrow> \<not> is_space (digit d)"
  by (auto simp: is_space_def digit_def Let_def)

lemma trim_space_itoa [simp]: "trim_space (itoa n) = itoa n"
proof (rule trim_space_none, rule ballI)
  fix c assume "c \<in> set (itoa n)"
  then consider "c = CHR ''-''" | d where "d < 10" "c = digit d"
    using digits_of_digits by (auto simp: itoa_def split: if_splits)
  then show "\<not> is_space c"
    by cases (auto simp: digit_no_space, simp add: is_space_def Let_def)
qed

lemma lower_upper_char: "lower_char (upper_char c) = lower_char (lower_char c)"
  by (auto simp: lower_char_def upper_char_def Let_def)

end
