(* ===== verification/RuntimeConfig.thy ===== *)
theory RuntimeConfig
  imports GoText
begin

text \<open>
  \<open>runtime_config.go\<close>: the settings that can change while the engine runs. Every method of the
  source holds the struct's lock for its whole body, so each one is a function of the struct.

  The values of an update come out of a JSON decoder or of the command line. A float64 is its exact
  value \<open>m * 2^e\<close>; converting one that does not fit \<open>int\<close> is implementation-defined in Go, so the
  conversion of such a value is the parameter \<open>oob\<close>, a function of the truncated value.
\<close>

record RuntimeConfig =
  rc_MinWorkers :: int
  rc_MaxWorkers :: int
  rc_BackpressureEnabled :: bool
  rc_BackpressureMaxQueue :: int
  rc_KeepWarm :: bool

definition NewRuntimeConfig :: "int \<Rightarrow> int \<Rightarrow> bool \<Rightarrow> int \<Rightarrow> bool \<Rightarrow> RuntimeConfig" where
  "NewRuntimeConfig min0 max0 backpressure maxQueue keepWarm =
     (let mx = (if max0 \<le> 0 then min0 else max0);
          mn = (if min0 \<le> 0 then 1 else min0)
      in \<lparr>rc_MinWorkers = mn, rc_MaxWorkers = mx, rc_BackpressureEnabled = backpressure,
          rc_BackpressureMaxQueue = maxQueue, rc_KeepWarm = keepWarm\<rparr>)"

definition GetMinWorkers :: "RuntimeConfig \<Rightarrow> int" where
  "GetMinWorkers r = rc_MinWorkers r"

definition GetMaxWorkers :: "RuntimeConfig \<Rightarrow> int" where
  "GetMaxWorkers r = rc_MaxWorkers r"

definition GetBackpressureEnabled :: "RuntimeConfig \<Rightarrow> bool" where
  "GetBackpressureEnabled r = rc_BackpressureEnabled r"

definition GetBackpressureMaxQueue :: "RuntimeConfig \<Rightarrow> int" where
  "GetBackpressureMaxQueue r = rc_BackpressureMaxQueue r"

definition GetKeepWarm :: "RuntimeConfig \<Rightarrow> bool" where
  "GetKeepWarm r = rc_KeepWarm r"

definition Snapshot :: "RuntimeConfig \<Rightarrow> int \<times> int \<times> bool \<times> int \<times> bool" where
  "Snapshot r = (rc_MinWorkers r, rc_MaxWorkers r, rc_BackpressureEnabled r,
                 rc_BackpressureMaxQueue r, rc_KeepWarm r)"

section \<open>Values of an update\<close>

datatype goval = GInt int | GFloat int int | GString string | GBool bool | GOther

definition errInvalidConfig :: error where
  "errInvalidConfig = Msg ''invalid config value''"

definition truncate_float :: "int \<Rightarrow> int \<Rightarrow> int" where
  "truncate_float m e = (if 0 \<le> e then m * 2 ^ nat e else sgn m * (\<bar>m\<bar> div 2 ^ nat (- e)))"

definition float_to_int :: "(int \<Rightarrow> int) \<Rightarrow> int \<Rightarrow> int \<Rightarrow> int" where
  "float_to_int oob m e =
     (let t = truncate_float m e
      in if - 9223372036854775808 \<le> t \<and> t < 9223372036854775808 then t else oob t)"

fun toInt :: "(int \<Rightarrow> int) \<Rightarrow> goval \<Rightarrow> error + int" where
  "toInt oob (GInt x) = Inr x"
| "toInt oob (GFloat m e) = Inr (float_to_int oob m e)"
| "toInt oob (GString s) = (case atoi s of Some n \<Rightarrow> Inr n | None \<Rightarrow> Inl (Msg ''strconv.Atoi''))"
| "toInt oob v = Inl errInvalidConfig"

fun toBool :: "goval \<Rightarrow> bool" where
  "toBool (GBool b) = b"
| "toBool (GString s) = (s = ''true'' \<or> s = ''1'')"
| "toBool v = False"

section \<open>Update\<close>

text \<open>
  \<open>Update\<close> writes the fields one after another and returns at the first bad value, with what it has
  written so far in place. \<open>and_then\<close> is that early return: an error together with the struct as it
  is at that point.
\<close>

definition and_then ::
  "('s \<Rightarrow> error option \<times> 's) \<Rightarrow> ('s \<Rightarrow> error option \<times> 's) \<Rightarrow> 's \<Rightarrow> error option \<times> 's" where
  "and_then f g s = (case f s of (Some e, s') \<Rightarrow> (Some e, s') | (None, s') \<Rightarrow> g s')"

definition update_int ::
  "(int \<Rightarrow> int) \<Rightarrow> goval option \<Rightarrow> int \<Rightarrow> (int \<Rightarrow> RuntimeConfig \<Rightarrow> RuntimeConfig) \<Rightarrow>
   RuntimeConfig \<Rightarrow> error option \<times> RuntimeConfig" where
  "update_int oob v lo set_field r =
     (case v of
        None \<Rightarrow> (None, r)
      | Some x \<Rightarrow> (case toInt oob x of
                    Inl e \<Rightarrow> (Some errInvalidConfig, r)
                  | Inr n \<Rightarrow> if n < lo then (Some errInvalidConfig, r) else (None, set_field n r)))"

definition update_bool ::
  "goval option \<Rightarrow> (bool \<Rightarrow> RuntimeConfig \<Rightarrow> RuntimeConfig) \<Rightarrow>
   RuntimeConfig \<Rightarrow> error option \<times> RuntimeConfig" where
  "update_bool v set_field r = (None, case v of None \<Rightarrow> r | Some x \<Rightarrow> set_field (toBool x) r)"

definition raise_max :: "RuntimeConfig \<Rightarrow> error option \<times> RuntimeConfig" where
  "raise_max r =
     (None, if rc_MinWorkers r > rc_MaxWorkers r then r\<lparr>rc_MaxWorkers := rc_MinWorkers r\<rparr> else r)"

definition Update ::
  "(int \<Rightarrow> int) \<Rightarrow> (string \<rightharpoonup> goval) \<Rightarrow> RuntimeConfig \<Rightarrow> error option \<times> RuntimeConfig" where
  "Update oob updates =
     and_then (update_int oob (updates ''min_workers'') 1 (\<lambda>n r. r\<lparr>rc_MinWorkers := n\<rparr>))
    (and_then (update_int oob (updates ''max_workers'') 1 (\<lambda>n r. r\<lparr>rc_MaxWorkers := n\<rparr>))
    (and_then (update_bool (updates ''backpressure_enabled'') (\<lambda>b r. r\<lparr>rc_BackpressureEnabled := b\<rparr>))
    (and_then (update_int oob (updates ''backpressure_max_queue'') 0 (\<lambda>n r. r\<lparr>rc_BackpressureMaxQueue := n\<rparr>))
    (and_then (update_bool (updates ''keep_warm'') (\<lambda>b r. r\<lparr>rc_KeepWarm := b\<rparr>))
     raise_max))))"

section \<open>Lemmas\<close>

definition rc_ok :: "RuntimeConfig \<Rightarrow> bool" where
  "rc_ok r \<longleftrightarrow> 1 \<le> rc_MinWorkers r \<and> rc_MinWorkers r \<le> rc_MaxWorkers r"

text \<open>A whole-number float is converted to its value.\<close>

lemma toInt_whole:
  "- 9223372036854775808 \<le> n \<Longrightarrow> n < 9223372036854775808 \<Longrightarrow> toInt oob (GFloat n 0) = Inr n"
  by (simp add: float_to_int_def truncate_float_def)

text \<open>What the value given for one integer key means to \<open>Update\<close>.\<close>

definition good_int :: "(int \<Rightarrow> int) \<Rightarrow> int \<Rightarrow> goval option \<Rightarrow> bool" where
  "good_int oob lo v \<longleftrightarrow> (case v of None \<Rightarrow> True | Some x \<Rightarrow>
      (case toInt oob x of Inl e \<Rightarrow> False | Inr n \<Rightarrow> lo \<le> n))"

lemma fst_and_then [simp]:
  "fst (and_then f g s) = None \<longleftrightarrow> fst (f s) = None \<and> fst (g (snd (f s))) = None"
  by (simp add: and_then_def split: prod.splits option.splits)

lemma snd_and_then [simp]: "fst (f s) = None \<Longrightarrow> snd (and_then f g s) = snd (g (snd (f s)))"
  by (auto simp: and_then_def split: prod.splits option.splits)

lemma fst_update_int [simp]: "fst (update_int oob v lo f r) = None \<longleftrightarrow> good_int oob lo v"
  by (auto simp: update_int_def good_int_def split: option.splits sum.splits)

definition new_int :: "(int \<Rightarrow> int) \<Rightarrow> goval option \<Rightarrow> int \<Rightarrow> int" where
  "new_int oob v old = (case v of None \<Rightarrow> old | Some x \<Rightarrow> projr (toInt oob x))"

definition new_bool :: "goval option \<Rightarrow> bool \<Rightarrow> bool" where
  "new_bool v old = (case v of None \<Rightarrow> old | Some x \<Rightarrow> toBool x)"

lemma new_int_bound: "good_int oob lo v \<Longrightarrow> lo \<le> old \<Longrightarrow> lo \<le> new_int oob v old"
  by (auto simp: good_int_def new_int_def split: option.splits sum.splits)

lemma snd_update_int:
  "good_int oob lo v \<Longrightarrow> snd (update_int oob v lo f r) =
     (case v of None \<Rightarrow> r | Some x \<Rightarrow> f (projr (toInt oob x)) r)"
  by (auto simp: update_int_def good_int_def split: option.splits sum.splits)

lemma update_bool_simps [simp]:
  "fst (update_bool v f r) = None"
  "snd (update_bool v f r) = (case v of None \<Rightarrow> r | Some x \<Rightarrow> f (toBool x) r)"
  by (simp_all add: update_bool_def)

lemma raise_max_simps [simp]:
  "fst (raise_max r) = None"
  "snd (raise_max r) = r\<lparr>rc_MaxWorkers := max (rc_MinWorkers r) (rc_MaxWorkers r)\<rparr>"
  by (simp_all add: raise_max_def max_def)

lemma Update_error_iff:
  "fst (Update oob u r) = None \<longleftrightarrow>
     good_int oob 1 (u ''min_workers'') \<and> good_int oob 1 (u ''max_workers'') \<and>
     good_int oob 0 (u ''backpressure_max_queue'')"
  by (auto simp: Update_def)

lemma written_fields:
  "(case v of None \<Rightarrow> r | Some x \<Rightarrow> r\<lparr>rc_MinWorkers := projr (toInt oob x)\<rparr>) =
     r\<lparr>rc_MinWorkers := new_int oob v (rc_MinWorkers r)\<rparr>"
  "(case v of None \<Rightarrow> r | Some x \<Rightarrow> r\<lparr>rc_MaxWorkers := projr (toInt oob x)\<rparr>) =
     r\<lparr>rc_MaxWorkers := new_int oob v (rc_MaxWorkers r)\<rparr>"
  "(case v of None \<Rightarrow> r | Some x \<Rightarrow> r\<lparr>rc_BackpressureMaxQueue := projr (toInt oob x)\<rparr>) =
     r\<lparr>rc_BackpressureMaxQueue := new_int oob v (rc_BackpressureMaxQueue r)\<rparr>"
  "(case v of None \<Rightarrow> r | Some x \<Rightarrow> r\<lparr>rc_BackpressureEnabled := toBool x\<rparr>) =
     r\<lparr>rc_BackpressureEnabled := new_bool v (rc_BackpressureEnabled r)\<rparr>"
  "(case v of None \<Rightarrow> r | Some x \<Rightarrow> r\<lparr>rc_KeepWarm := toBool x\<rparr>) =
     r\<lparr>rc_KeepWarm := new_bool v (rc_KeepWarm r)\<rparr>"
  by (cases v; simp add: new_int_def new_bool_def)+

text \<open>The struct after an update without error, field by field.\<close>

lemma Update_result:
  assumes "fst (Update oob u r) = None"
  shows "snd (Update oob u r) =
    (let mn = new_int oob (u ''min_workers'') (rc_MinWorkers r) in
     \<lparr>rc_MinWorkers = mn,
      rc_MaxWorkers = max mn (new_int oob (u ''max_workers'') (rc_MaxWorkers r)),
      rc_BackpressureEnabled = new_bool (u ''backpressure_enabled'') (rc_BackpressureEnabled r),
      rc_BackpressureMaxQueue = new_int oob (u ''backpressure_max_queue'') (rc_BackpressureMaxQueue r),
      rc_KeepWarm = new_bool (u ''keep_warm'') (rc_KeepWarm r)\<rparr>)"
proof -
  from assms have g: "good_int oob 1 (u ''min_workers'')" "good_int oob 1 (u ''max_workers'')"
      "good_int oob 0 (u ''backpressure_max_queue'')"
    by (simp_all add: Update_error_iff)
  show ?thesis
    by (simp add: Update_def g snd_update_int written_fields Let_def)
qed

text \<open>Every failing step fails with the same error.\<close>

definition only_invalid :: "('s \<Rightarrow> error option \<times> 's) \<Rightarrow> bool" where
  "only_invalid f \<longleftrightarrow> (\<forall>s. fst (f s) \<in> {None, Some errInvalidConfig})"

lemma only_invalid_and_then: "only_invalid f \<Longrightarrow> only_invalid g \<Longrightarrow> only_invalid (and_then f g)"
  by (auto simp: only_invalid_def and_then_def split: prod.split option.split)
     (metis fst_conv option.distinct(1) option.inject)

lemma only_invalid_update_int: "only_invalid (update_int oob v lo f)"
  by (auto simp: only_invalid_def update_int_def split: option.splits sum.splits)

lemma Update_error_value: "only_invalid (Update oob u)"
  unfolding Update_def
  by (intro only_invalid_and_then only_invalid_update_int) (simp_all add: only_invalid_def)

end
