(* ===== verification/GoChan.thy ===== *)
theory GoChan
  imports Prelude
begin

text \<open>
  Buffered Go channels. A channel is its buffer and its capacity; \<open>try_send\<close> and \<open>try_recv\<close> are the
  \<open>select\<close> statements with a \<open>default\<close> branch, which is how the pool uses its queue of available
  workers, its two semaphores and the exit channel of a worker. The locale \<open>bounded_fifo\<close> is what
  the clients rely on; it is interpreted below on this model of channels.
\<close>

section \<open>Channels\<close>

record 'a chan =
  buf :: "'a list"
  cap :: nat

definition make_chan :: "nat \<Rightarrow> 'a chan" where
  "make_chan n = \<lparr>buf = [], cap = n\<rparr>"

definition try_send :: "'a \<Rightarrow> 'a chan \<Rightarrow> 'a chan option" where
  "try_send x c = (if length (buf c) < cap c then Some (c\<lparr>buf := buf c @ [x]\<rparr>) else None)"

definition try_recv :: "'a chan \<Rightarrow> ('a \<times> 'a chan) option" where
  "try_recv c = (case buf c of [] \<Rightarrow> None | x # xs \<Rightarrow> Some (x, c\<lparr>buf := xs\<rparr>))"

section \<open>The interface its clients rely on\<close>

locale bounded_fifo =
  fixes items :: "'c \<Rightarrow> 'a list"
    and capacity :: "'c \<Rightarrow> nat"
    and send :: "'a \<Rightarrow> 'c \<Rightarrow> 'c option"
    and recv :: "'c \<Rightarrow> ('a \<times> 'c) option"
  assumes send_room: "length (items c) < capacity c \<Longrightarrow>
      \<exists>c'. send x c = Some c' \<and> items c' = items c @ [x] \<and> capacity c' = capacity c"
    and send_full: "capacity c \<le> length (items c) \<Longrightarrow> send x c = None"
    and recv_empty: "items c = [] \<Longrightarrow> recv c = None"
    and recv_head: "items c = x # xs \<Longrightarrow>
      \<exists>c'. recv c = Some (x, c') \<and> items c' = xs \<and> capacity c' = capacity c"
begin

lemma send_None_iff: "send x c = None \<longleftrightarrow> capacity c \<le> length (items c)"
  by (metis leI option.distinct(1) send_full send_room)

lemma sendD:
  assumes "send x c = Some c'"
  shows "items c' = items c @ [x]" and "capacity c' = capacity c"
    and "length (items c) < capacity c"
proof -
  show room: "length (items c) < capacity c"
    using assms send_full [of c x] by (cases "capacity c \<le> length (items c)") auto
  show "items c' = items c @ [x]" and "capacity c' = capacity c"
    using send_room [OF room, of x] assms by auto
qed

lemma recvD:
  assumes "recv c = Some (x, c')"
  shows "items c = x # items c'" and "capacity c' = capacity c"
proof -
  have "items c \<noteq> []" using assms recv_empty [of c] by auto
  then obtain y ys where "items c = y # ys" by (cases "items c") auto
  with recv_head [of c y ys] assms
  show "items c = x # items c'" and "capacity c' = capacity c" by auto
qed

lemma send_bounded: "send x c = Some c' \<Longrightarrow> length (items c') \<le> capacity c'"
  using sendD [of x c c'] by simp

lemma recv_bounded:
  "recv c = Some (x, c') \<Longrightarrow> length (items c) \<le> capacity c \<Longrightarrow> length (items c') < capacity c'"
  using recvD [of c x c'] by simp

text \<open>A value sent into an empty channel is the next one received.\<close>

lemma send_then_recv:
  assumes "items c = []" and "send x c = Some c'"
  shows "\<exists>c''. recv c' = Some (x, c'') \<and> items c'' = []"
  using recv_head [of c' x "[]"] sendD(1) [OF assms(2)] assms(1) by auto

end

interpretation gochan: bounded_fifo buf cap try_send try_recv
  by unfold_locales (auto simp: try_send_def try_recv_def)

lemma recv_Some_iff: "try_recv c = Some (x, c') \<longleftrightarrow> buf c = x # buf c' \<and> c' = c\<lparr>buf := buf c'\<rparr>"
  by (cases c) (auto simp: try_recv_def split: list.splits)

lemma recv_None_iff: "try_recv c = None \<longleftrightarrow> buf c = []"
  by (auto simp: try_recv_def split: list.splits)

lemma buf_make_chan [simp]: "buf (make_chan n) = []" and cap_make_chan [simp]: "cap (make_chan n) = n"
  by (simp_all add: make_chan_def)

section \<open>Semaphores\<close>

text \<open>
  A semaphore is a channel of empty structs: acquiring sends a token, releasing takes one back. An
  acquisition also returns when the pool's context is done, without a token, and a release on an
  empty channel does nothing; \<open>None\<close> says that the acquiring goroutine blocks.
\<close>

definition sem_acquire :: "bool \<Rightarrow> unit chan \<Rightarrow> unit chan option" where
  "sem_acquire ctxDone c =
     (case try_send () c of Some c' \<Rightarrow> Some c' | None \<Rightarrow> if ctxDone then Some c else None)"

definition sem_release :: "unit chan \<Rightarrow> unit chan" where
  "sem_release c = (case try_recv c of Some (u, c') \<Rightarrow> c' | None \<Rightarrow> c)"

lemma sem_acquire_cap: "sem_acquire d c = Some c' \<Longrightarrow> cap c' = cap c"
  by (auto simp: sem_acquire_def gochan.sendD(2) split: option.splits if_splits)

lemma sem_release_cap [simp]: "cap (sem_release c) = cap c"
  by (auto simp: sem_release_def recv_Some_iff split: option.splits) (metis chan.select_convs(2) chan.surjective chan.update_convs(1))

lemma sem_acquire_bounded:
  "sem_acquire d c = Some c' \<Longrightarrow> length (buf c) \<le> cap c \<Longrightarrow> length (buf c') \<le> cap c'"
  by (auto simp: sem_acquire_def gochan.send_bounded split: option.splits if_splits)

lemma sem_release_acquire:
  "length (buf c) < cap c \<Longrightarrow> \<exists>c'. sem_acquire d c = Some c' \<and> length (buf (sem_release c')) = length (buf c)"
  by (auto simp: sem_acquire_def sem_release_def try_send_def try_recv_def split: list.splits)
     (metis append_Cons length_Cons length_append_singleton nat.inject)

end
