(* ===== verification/WorkerPool.thy ===== *)
theory WorkerPool
  imports RuntimeConfig GoChan
begin

text \<open>
  The state of the worker pool (\<open>worker.go\<close>: \<open>Worker\<close>, \<open>WorkerPool\<close>, \<open>WorkerPoolConfig\<close>,
  \<open>NewWorkerPool\<close>).

  Workers are shared through pointers: the slice of workers, the queue of available workers and the
  goroutines hold the same structs. A pointer is an \<open>addr\<close> and the structs live in \<open>p_heap\<close>, so
  that two slots with the same worker id can be different structs. The operating system's part of
  the state is \<open>p_os\<close>: the clock, which processes are alive (that is, accept signal 0), and which
  of them exit within the waits after SIGTERM and after SIGKILL. Goroutines that were started and
  have not run yet are \<open>p_tasks\<close>; goroutines blocked on sending a worker into a full queue are
  \<open>p_parked\<close>. Mutexes are not part of the state: an operation is one step, see the root theory.
\<close>

section \<open>Workers\<close>

datatype WorkerState =
    WorkerStateIdle
  | WorkerStateBusy
  | WorkerStateDead
  | WorkerStateStarting
  | WorkerStateRespawning

type_synonym addr = nat

text \<open>\<open>*exec.Cmd\<close>: nil, without a process, or with the process it started.\<close>

datatype command = NilCmd | CmdNoProcess | CmdProcess nat

text \<open>A connection or listener field: nil, open or closed.\<close>

datatype handle = NilHandle | OpenHandle | ClosedHandle

fun close_handle :: "handle \<Rightarrow> handle" where
  "close_handle NilHandle = NilHandle"
| "close_handle h = ClosedHandle"

record Worker =
  w_ID :: int
  w_Pid :: int
  w_cmd :: command
  w_sockPath :: string
  w_listener :: handle
  w_conn :: handle
  w_state :: WorkerState
  w_requestCount :: int
  w_startTime :: int
  w_lastActiveTime :: int
  w_respawnStartedAt :: "int option"
  w_exitCh :: "unit chan"
  w_waitOnce :: bool
  w_reaping :: bool
  w_pooled :: bool

section \<open>The pool\<close>

record WorkerPoolConfig =
  pc_NumWorkers :: int
  pc_MinWorkers :: int
  pc_MaxWorkers :: int
  pc_MaxRequests :: int
  pc_WorkerTimeout :: int
  pc_PHPBinary :: string
  pc_WorkerScript :: string
  pc_SocketDir :: string
  pc_ScaleDownIdleSecs :: int
  pc_AggressiveScaleDownSecs :: int
  pc_WarmupStaggerMs :: int
  pc_FastWarmup :: bool
  pc_BackpressureEnabled :: bool
  pc_BackpressureMaxQueue :: int
  pc_QueueTimeoutEnabled :: bool
  pc_QueueTimeoutMs :: int
  pc_KeepWarm :: bool
  pc_Runtime :: "RuntimeConfig option"
  pc_SpawnTimeout :: int
  pc_HandshakeTimeout :: int
  pc_MaxParallelSpawns :: int
  pc_EnsureMinDebounce :: int
  pc_RespawnBackoff :: int
  pc_RespawnTimeout :: int

text \<open>The fields of \<open>WorkerPool\<close> that are set once by \<open>NewWorkerPool\<close>.\<close>

record PoolSettings =
  ps_sockDir :: string
  ps_phpBinary :: string
  ps_workerScript :: string
  ps_maxRequests :: int
  ps_workerTimeout :: int
  ps_initialWorkers :: int
  ps_minWorkers :: int
  ps_maxWorkers :: int
  ps_scaleDownIdleSecs :: int
  ps_aggressiveScaleDownSecs :: int
  ps_warmupStaggerMs :: int
  ps_fastWarmup :: bool
  ps_backpressureEnabled :: bool
  ps_backpressureMaxQueue :: int
  ps_queueTimeoutEnabled :: bool
  ps_queueTimeoutMs :: int
  ps_spawnTimeout :: int
  ps_handshakeTimeout :: int
  ps_ensureMinDebounce :: int
  ps_respawnBackoff :: int
  ps_respawnTimeout :: int

text \<open>Goroutines the pool starts, and who is blocked on the queue of available workers.\<close>

datatype task =
    GoAddWorker
  | GoSpawnWorker int
  | GoRespawn addr
  | GoProcessExit addr
  | GoFastWarmup
  | GoScalerLoop
  | GoHealthMonitor

datatype sender = FromRequest | FromRespawn | FromAddWorker | FromScaler

record OS =
  os_now :: int
  os_alive :: "nat \<Rightarrow> bool"
  os_obeysTerm :: "nat \<Rightarrow> bool"
  os_obeysKill :: "nat \<Rightarrow> bool"

record pool =
  p_settings :: PoolSettings
  p_workers :: "addr list"
  p_available :: "addr option chan"
  p_runtime :: RuntimeConfig
  p_running :: bool
  p_ctxDone :: bool
  p_totalRequests :: int
  p_activeWorkers :: int
  p_nextWorkerID :: int
  p_lastBusyTime :: int
  p_lastStableLog :: "int option"
  p_queuedRequests :: int
  p_bootTime :: "int option"
  p_busyWorkers :: int
  p_lastScaleUp :: "int option"
  p_spawnInFlight :: int
  p_spawnSemaphore :: "unit chan"
  p_ensureMinLast :: "int option"
  p_lastRespawnAt :: "int \<Rightarrow> int option"
  p_slotLocks :: "int \<Rightarrow> bool option"
  p_spawnTimeoutsTotal :: int
  p_spawnHandshakeFails :: int
  p_spawnBindErrorsTotal :: int
  p_stuckRespawningTotal :: int
  p_availableQueueDroppedTotal :: int
  p_respawnSemaphore :: "unit chan"
  p_consecutiveSpawnFailures :: int
  p_spawnCircuitOpenUntil :: "int option"
  p_heap :: "addr \<Rightarrow> Worker"
  p_nextAddr :: addr
  p_tasks :: "task list"
  p_parked :: "(addr \<times> sender) list"
  p_panicked :: bool
  p_os :: OS

definition defaultRespawnTimeout :: int where
  "defaultRespawnTimeout = 120 * Second"

text \<open>
  What the model's heap holds at an address where no struct has been allocated: never read by the
  code; its id is no worker's id.
\<close>

definition unallocated :: Worker where
  "unallocated =
     \<lparr>w_ID = - 1, w_Pid = 0, w_cmd = NilCmd, w_sockPath = '''', w_listener = NilHandle,
      w_conn = NilHandle, w_state = WorkerStateIdle, w_requestCount = 0, w_startTime = 0,
      w_lastActiveTime = 0, w_respawnStartedAt = None, w_exitCh = make_chan 0,
      w_waitOnce = False, w_reaping = False, w_pooled = False\<rparr>"

text \<open>
  \<open>NewWorkerPool\<close>. Making a channel of negative size panics. The temporary directory that stands in
  for an empty socket directory is the operating system's (\<open>tempDir\<close>).
\<close>

definition pos_or :: "int \<Rightarrow> int \<Rightarrow> int" where
  "pos_or d n = (if n \<le> 0 then d else n)"

definition NewWorkerPool :: "string \<Rightarrow> OS \<Rightarrow> WorkerPoolConfig \<Rightarrow> pool" where
  "NewWorkerPool tempDir os c =
     (let sockDir = (if pc_SocketDir c = '''' then tempDir @ ''/narya'' else pc_SocketDir c);
          maxWorkers = pos_or (pc_NumWorkers c) (pc_MaxWorkers c);
          minWorkers = pos_or (pc_NumWorkers c) (pc_MinWorkers c);
          runtime = (case pc_Runtime c of
              Some r \<Rightarrow> r
            | None \<Rightarrow> NewRuntimeConfig minWorkers maxWorkers (pc_BackpressureEnabled c)
                        (pc_BackpressureMaxQueue c) (pc_KeepWarm c))
      in \<lparr>p_settings =
            \<lparr>ps_sockDir = sockDir, ps_phpBinary = pc_PHPBinary c, ps_workerScript = pc_WorkerScript c,
             ps_maxRequests = pc_MaxRequests c, ps_workerTimeout = pc_WorkerTimeout c,
             ps_initialWorkers = pc_NumWorkers c, ps_minWorkers = minWorkers, ps_maxWorkers = maxWorkers,
             ps_scaleDownIdleSecs = pc_ScaleDownIdleSecs c,
             ps_aggressiveScaleDownSecs = pc_AggressiveScaleDownSecs c,
             ps_warmupStaggerMs = pc_WarmupStaggerMs c, ps_fastWarmup = pc_FastWarmup c,
             ps_backpressureEnabled = pc_BackpressureEnabled c,
             ps_backpressureMaxQueue = pc_BackpressureMaxQueue c,
             ps_queueTimeoutEnabled = pc_QueueTimeoutEnabled c,
             ps_queueTimeoutMs = pc_QueueTimeoutMs c,
             ps_spawnTimeout = pos_or (120 * Second) (pc_SpawnTimeout c),
             ps_handshakeTimeout = pos_or (15 * Second) (pc_HandshakeTimeout c),
             ps_ensureMinDebounce = pos_or (500 * Millisecond) (pc_EnsureMinDebounce c),
             ps_respawnBackoff = pos_or (400 * Millisecond) (pc_RespawnBackoff c),
             ps_respawnTimeout = pos_or defaultRespawnTimeout (pc_RespawnTimeout c)\<rparr>,
          p_workers = [], p_available = make_chan (nat maxWorkers), p_runtime = runtime,
          p_running = False, p_ctxDone = False, p_totalRequests = 0, p_activeWorkers = 0,
          p_nextWorkerID = 0, p_lastBusyTime = os_now os, p_lastStableLog = None,
          p_queuedRequests = 0, p_bootTime = None, p_busyWorkers = 0, p_lastScaleUp = None,
          p_spawnInFlight = 0, p_spawnSemaphore = make_chan (nat (pos_or 4 (pc_MaxParallelSpawns c))),
          p_ensureMinLast = None, p_lastRespawnAt = (\<lambda>_. None), p_slotLocks = (\<lambda>_. None),
          p_spawnTimeoutsTotal = 0, p_spawnHandshakeFails = 0, p_spawnBindErrorsTotal = 0,
          p_stuckRespawningTotal = 0, p_availableQueueDroppedTotal = 0,
          p_respawnSemaphore = make_chan (nat maxWorkers), p_consecutiveSpawnFailures = 0,
          p_spawnCircuitOpenUntil = None, p_heap = (\<lambda>_. unallocated), p_nextAddr = 0,
          p_tasks = [], p_parked = [], p_panicked = (maxWorkers < 0), p_os = os\<rparr>)"

section \<open>Reading and writing structs\<close>

definition upd_worker :: "addr \<Rightarrow> (Worker \<Rightarrow> Worker) \<Rightarrow> pool \<Rightarrow> pool" where
  "upd_worker a f s = s\<lparr>p_heap := (p_heap s)(a := f (p_heap s a))\<rparr>"

abbreviation worker :: "pool \<Rightarrow> addr \<Rightarrow> Worker" where
  "worker s a \<equiv> p_heap s a"

abbreviation state_of :: "pool \<Rightarrow> addr \<Rightarrow> WorkerState" where
  "state_of s a \<equiv> w_state (p_heap s a)"

definition set_state :: "WorkerState \<Rightarrow> addr \<Rightarrow> pool \<Rightarrow> pool" where
  "set_state st a = upd_worker a (\<lambda>w. w\<lparr>w_state := st\<rparr>)"

definition go :: "task \<Rightarrow> pool \<Rightarrow> pool" where
  "go t s = s\<lparr>p_tasks := p_tasks s @ [t]\<rparr>"

definition now :: "pool \<Rightarrow> int" where
  "now s = os_now (p_os s)"

text \<open>\<open>time.Since\<close>; since the zero time it is the largest duration.\<close>

definition since :: "pool \<Rightarrow> int option \<Rightarrow> int" where
  "since s t = (case t of None \<Rightarrow> 9223372036854775807 | Some t0 \<Rightarrow> now s - t0)"

lemma worker_upd [heap_simps, simp]:
  "p_heap (upd_worker a f s) b = (if b = a then f (p_heap s a) else p_heap s b)"
  by (simp add: upd_worker_def)

lemma worker_set_state [heap_simps, simp]:
  "p_heap (set_state st a s) b = (if b = a then (p_heap s a)\<lparr>w_state := st\<rparr> else p_heap s b)"
  by (simp add: set_state_def)

text \<open>Writing a struct changes nothing but the heap.\<close>

lemma upd_worker_frame [frame_simps, simp]:
  "p_settings (upd_worker a f s) = p_settings s" "p_workers (upd_worker a f s) = p_workers s"
  "p_available (upd_worker a f s) = p_available s" "p_runtime (upd_worker a f s) = p_runtime s"
  "p_ctxDone (upd_worker a f s) = p_ctxDone s" "p_activeWorkers (upd_worker a f s) = p_activeWorkers s"
  "p_tasks (upd_worker a f s) = p_tasks s" "p_parked (upd_worker a f s) = p_parked s"
  "p_os (upd_worker a f s) = p_os s" "p_lastRespawnAt (upd_worker a f s) = p_lastRespawnAt s"
  "p_busyWorkers (upd_worker a f s) = p_busyWorkers s"
  "p_queuedRequests (upd_worker a f s) = p_queuedRequests s"
  "p_totalRequests (upd_worker a f s) = p_totalRequests s"
  "p_spawnInFlight (upd_worker a f s) = p_spawnInFlight s"
  "p_nextAddr (upd_worker a f s) = p_nextAddr s"
  "p_spawnCircuitOpenUntil (upd_worker a f s) = p_spawnCircuitOpenUntil s"
  "p_consecutiveSpawnFailures (upd_worker a f s) = p_consecutiveSpawnFailures s"
  "p_availableQueueDroppedTotal (upd_worker a f s) = p_availableQueueDroppedTotal s"
  "p_stuckRespawningTotal (upd_worker a f s) = p_stuckRespawningTotal s"
  by (simp_all add: upd_worker_def)

lemma set_state_frame [frame_simps, simp]:
  "p_settings (set_state st a s) = p_settings s" "p_workers (set_state st a s) = p_workers s"
  "p_available (set_state st a s) = p_available s" "p_runtime (set_state st a s) = p_runtime s"
  "p_ctxDone (set_state st a s) = p_ctxDone s" "p_activeWorkers (set_state st a s) = p_activeWorkers s"
  "p_tasks (set_state st a s) = p_tasks s" "p_parked (set_state st a s) = p_parked s"
  "p_os (set_state st a s) = p_os s" "p_lastRespawnAt (set_state st a s) = p_lastRespawnAt s"
  "p_busyWorkers (set_state st a s) = p_busyWorkers s"
  "p_queuedRequests (set_state st a s) = p_queuedRequests s"
  "p_totalRequests (set_state st a s) = p_totalRequests s"
  "p_spawnInFlight (set_state st a s) = p_spawnInFlight s"
  "p_nextAddr (set_state st a s) = p_nextAddr s"
  "p_spawnCircuitOpenUntil (set_state st a s) = p_spawnCircuitOpenUntil s"
  "p_consecutiveSpawnFailures (set_state st a s) = p_consecutiveSpawnFailures s"
  "p_availableQueueDroppedTotal (set_state st a s) = p_availableQueueDroppedTotal s"
  "p_stuckRespawningTotal (set_state st a s) = p_stuckRespawningTotal s"
  by (simp_all add: set_state_def)

lemma go_frame [frame_simps, simp]:
  "p_settings (go t s) = p_settings s" "p_workers (go t s) = p_workers s"
  "p_available (go t s) = p_available s" "p_runtime (go t s) = p_runtime s"
  "p_ctxDone (go t s) = p_ctxDone s" "p_activeWorkers (go t s) = p_activeWorkers s"
  "p_heap (go t s) = p_heap s" "p_parked (go t s) = p_parked s" "p_os (go t s) = p_os s"
  "p_lastRespawnAt (go t s) = p_lastRespawnAt s" "p_busyWorkers (go t s) = p_busyWorkers s"
  "p_queuedRequests (go t s) = p_queuedRequests s" "p_totalRequests (go t s) = p_totalRequests s"
  "p_spawnInFlight (go t s) = p_spawnInFlight s" "p_nextAddr (go t s) = p_nextAddr s"
  "p_spawnCircuitOpenUntil (go t s) = p_spawnCircuitOpenUntil s"
  "p_consecutiveSpawnFailures (go t s) = p_consecutiveSpawnFailures s"
  "p_availableQueueDroppedTotal (go t s) = p_availableQueueDroppedTotal s"
  "p_stuckRespawningTotal (go t s) = p_stuckRespawningTotal s"
  "p_tasks (go t s) = p_tasks s @ [t]"
  by (simp_all add: go_def)

end
