(* ===== verification/Process.thy ===== *)
theory Process
  imports WorkerPool
begin

text \<open>
  The operating-system side of a worker (\<open>worker.go\<close>: \<open>startReaper\<close>, \<open>terminateWorker\<close>, \<open>isWorkerDead\<close>,
  \<open>markRespawning\<close>, \<open>markDead\<close>; \<open>worker_reconcile.go\<close>: \<open>isProcessDead\<close>).

  A process that has died is not alive; the reaper goroutine of its worker, waiting in
  \<open>cmd.Wait\<close>, then runs once: the part under the worker's lock and the send on \<open>exitCh\<close> is \<open>reap\<close>, and
  the call of \<open>onWorkerProcessExit\<close> that follows is left as the goroutine \<open>GoProcessExit\<close>.
\<close>

section \<open>Liveness of the process\<close>

definition signal0 :: "pool \<Rightarrow> nat \<Rightarrow> bool" where
  "signal0 s pid = os_alive (p_os s) pid"

definition isProcessDead :: "addr \<Rightarrow> pool \<Rightarrow> bool" where
  "isProcessDead a s =
     (case w_cmd (worker s a) of
        CmdProcess pid \<Rightarrow> \<not> signal0 s pid
      | _ \<Rightarrow> True)"

definition isWorkerDead :: "addr \<Rightarrow> pool \<Rightarrow> bool \<times> pool" where
  "isWorkerDead a s =
     (if state_of s a = WorkerStateDead then (True, s)
      else case try_recv (w_exitCh (worker s a)) of
        Some (u, c) \<Rightarrow> (True, set_state WorkerStateDead a (upd_worker a (\<lambda>w. w\<lparr>w_exitCh := c\<rparr>) s))
      | None \<Rightarrow>
          (case w_cmd (worker s a) of
             CmdProcess pid \<Rightarrow>
               if signal0 s pid then (False, s) else (True, set_state WorkerStateDead a s)
           | _ \<Rightarrow> (True, set_state WorkerStateDead a s)))"

section \<open>The reaper\<close>

definition reap :: "addr \<Rightarrow> pool \<Rightarrow> pool" where
  "reap a s =
     (let s1 = upd_worker a (\<lambda>w. w\<lparr>
            w_state := (if w_state w \<noteq> WorkerStateRespawning then WorkerStateDead else w_state w),
            w_conn := close_handle (w_conn w),
            w_listener := close_handle (w_listener w),
            w_exitCh := (case try_send () (w_exitCh w) of Some c \<Rightarrow> c | None \<Rightarrow> w_exitCh w),
            w_reaping := False\<rparr>) s
      in if w_pooled (worker s a) then go (GoProcessExit a) s1 else s1)"

text \<open>\<open>waitOnce\<close> starts the reaper goroutine at most once.\<close>

definition startReaper :: "addr \<Rightarrow> pool \<Rightarrow> pool" where
  "startReaper a =
     upd_worker a (\<lambda>w. if w_waitOnce w then w else w\<lparr>w_waitOnce := True, w_reaping := True\<rparr>)"

section \<open>Termination\<close>

definition kill_process :: "(OS \<Rightarrow> nat \<Rightarrow> bool) \<Rightarrow> nat \<Rightarrow> pool \<Rightarrow> pool" where
  "kill_process obeys pid s =
     s\<lparr>p_os := (p_os s)\<lparr>os_alive := (os_alive (p_os s))(pid := os_alive (p_os s) pid \<and> \<not> obeys (p_os s) pid)\<rparr>\<rparr>"

text \<open>
  One of the waits on \<open>exitCh\<close>: if the process is gone and its reaper has not run, it runs now and
  sends; then the value is taken. \<open>False\<close> is the timeout.
\<close>

definition reap_exited :: "addr \<Rightarrow> pool \<Rightarrow> pool" where
  "reap_exited a s = (if isProcessDead a s \<and> w_reaping (worker s a) then reap a s else s)"

definition wait_exit :: "addr \<Rightarrow> pool \<Rightarrow> bool \<times> pool" where
  "wait_exit a s =
     (let s1 = reap_exited a s
      in case try_recv (w_exitCh (worker s1 a)) of
           Some (u, c) \<Rightarrow> (True, upd_worker a (\<lambda>w. w\<lparr>w_exitCh := c\<rparr>) s1)
         | None \<Rightarrow> (False, s1))"

definition terminateWorker :: "addr \<Rightarrow> pool \<Rightarrow> pool" where
  "terminateWorker a s =
     (let s1 = upd_worker a (\<lambda>w. w\<lparr>w_conn := close_handle (w_conn w),
                                  w_listener := close_handle (w_listener w)\<rparr>) s
      in case w_cmd (worker s1 a) of
           CmdProcess pid \<Rightarrow>
             (case wait_exit a (kill_process os_obeysTerm pid s1) of
                (True, s2) \<Rightarrow> s2
              | (False, s2) \<Rightarrow> snd (wait_exit a (kill_process os_obeysKill pid s2)))
         | _ \<Rightarrow> s1)"

definition destroyWorker :: "addr \<Rightarrow> pool \<Rightarrow> pool" where
  "destroyWorker a s = terminateWorker a s"

section \<open>Marks\<close>

definition markRespawning :: "addr \<Rightarrow> pool \<Rightarrow> bool \<times> pool" where
  "markRespawning a s =
     (if state_of s a = WorkerStateRespawning then (False, s)
      else (True, upd_worker a (\<lambda>w. w\<lparr>w_state := WorkerStateRespawning, w_respawnStartedAt := Some (now s)\<rparr>) s))"

definition markDead :: "addr \<Rightarrow> pool \<Rightarrow> pool" where
  "markDead a s = set_state WorkerStateDead a s"

section \<open>Lemmas\<close>

text \<open>
  What an operation on one worker's process leaves alone: everything of the pool but that struct,
  the set of living processes and the list of started goroutines, which only grows.
\<close>

definition only_worker :: "addr \<Rightarrow> pool \<Rightarrow> pool \<Rightarrow> bool" where
  "only_worker a s s' \<longleftrightarrow>
     (\<exists>w ts al. s' = s\<lparr>p_heap := (p_heap s)(a := w), p_tasks := p_tasks s @ ts,
                       p_os := (p_os s)\<lparr>os_alive := al\<rparr>\<rparr> \<and>
        set ts \<subseteq> {GoProcessExit a} \<and>
        (\<forall>pid. al pid \<longrightarrow> os_alive (p_os s) pid) \<and>
        (\<forall>pid. w_cmd (worker s a) \<noteq> CmdProcess pid \<longrightarrow> al pid = os_alive (p_os s) pid) \<and>
        w_ID w = w_ID (worker s a) \<and> w_cmd w = w_cmd (worker s a))"

lemma only_worker_refl [simp]: "only_worker a s s"
  unfolding only_worker_def
  by (intro exI [of _ "p_heap s a"] exI [of _ "[]"] exI [of _ "os_alive (p_os s)"]) simp

lemma only_worker_trans:
  assumes "only_worker a s s1" and "only_worker a s1 s2"
  shows "only_worker a s s2"
proof -
  from assms(1) obtain w ts al where 1: "s1 = s\<lparr>p_heap := (p_heap s)(a := w),
      p_tasks := p_tasks s @ ts, p_os := (p_os s)\<lparr>os_alive := al\<rparr>\<rparr>" "set ts \<subseteq> {GoProcessExit a}"
    "\<forall>pid. al pid \<longrightarrow> os_alive (p_os s) pid"
    "\<forall>pid. w_cmd (worker s a) \<noteq> CmdProcess pid \<longrightarrow> al pid = os_alive (p_os s) pid"
    "w_ID w = w_ID (worker s a)" "w_cmd w = w_cmd (worker s a)"
    unfolding only_worker_def by blast
  from assms(2) obtain w' ts' al' where 2: "s2 = s1\<lparr>p_heap := (p_heap s1)(a := w'),
      p_tasks := p_tasks s1 @ ts', p_os := (p_os s1)\<lparr>os_alive := al'\<rparr>\<rparr>" "set ts' \<subseteq> {GoProcessExit a}"
    "\<forall>pid. al' pid \<longrightarrow> os_alive (p_os s1) pid"
    "\<forall>pid. w_cmd (worker s1 a) \<noteq> CmdProcess pid \<longrightarrow> al' pid = os_alive (p_os s1) pid"
    "w_ID w' = w_ID (worker s1 a)" "w_cmd w' = w_cmd (worker s1 a)"
    unfolding only_worker_def by blast
  show ?thesis
    unfolding only_worker_def
    by (rule exI [of _ w'], rule exI [of _ "ts @ ts'"], rule exI [of _ al']) (use 1 2 in simp)
qed

lemma only_worker_upd:
  "(\<And>w. w_ID (f w) = w_ID w \<and> w_cmd (f w) = w_cmd w) \<Longrightarrow> only_worker a s (upd_worker a f s)"
  unfolding only_worker_def upd_worker_def
  by (intro exI [of _ "f (p_heap s a)"] exI [of _ "[]"] exI [of _ "os_alive (p_os s)"]) simp

lemma only_worker_set_state [simp]: "only_worker a s (set_state st a s)"
  by (simp add: set_state_def only_worker_upd)

lemma only_worker_upd2:
  "only_worker a s s1 \<Longrightarrow> (\<And>w. w_ID (f w) = w_ID w \<and> w_cmd (f w) = w_cmd w) \<Longrightarrow> only_worker a s (upd_worker a f s1)"
  using only_worker_trans [OF _ only_worker_upd] by blast

lemma only_worker_set_state2: "only_worker a s s1 \<Longrightarrow> only_worker a s (set_state st a s1)"
  using only_worker_trans [OF _ only_worker_set_state] by blast

lemma only_worker_go:
  assumes "only_worker a s s1"
  shows "only_worker a s (go (GoProcessExit a) s1)"
proof (rule only_worker_trans [OF assms])
  show "only_worker a s1 (go (GoProcessExit a) s1)"
    unfolding only_worker_def go_def
    by (intro exI [of _ "p_heap s1 a"] exI [of _ "[GoProcessExit a]"] exI [of _ "os_alive (p_os s1)"]) simp
qed

lemma only_worker_kill:
  "w_cmd (worker s a) = CmdProcess pid \<Longrightarrow> only_worker a s (kill_process obeys pid s)"
  unfolding only_worker_def kill_process_def
  by (intro exI [of _ "p_heap s a"] exI [of _ "[]"]
        exI [of _ "(os_alive (p_os s))(pid := os_alive (p_os s) pid \<and> \<not> obeys (p_os s) pid)"]) simp

lemma only_worker_reap: "only_worker a s (reap a s)"
  by (auto simp: reap_def Let_def intro!: only_worker_go only_worker_upd)

lemma only_worker_reap_exited: "only_worker a s (reap_exited a s)"
  by (simp add: reap_exited_def only_worker_reap)

lemma only_worker_wait: "only_worker a s (snd (wait_exit a s))"
proof -
  have "only_worker a s (upd_worker a (\<lambda>w. w\<lparr>w_exitCh := c\<rparr>) (reap_exited a s))" for c
    by (rule only_worker_upd2 [OF only_worker_reap_exited]) simp
  then show ?thesis by (simp add: wait_exit_def Let_def only_worker_reap_exited split: option.split)
qed

lemma only_worker_terminate: "only_worker a s (terminateWorker a s)"
proof -
  let ?s1 = "upd_worker a (\<lambda>w. w\<lparr>w_conn := close_handle (w_conn w),
                                  w_listener := close_handle (w_listener w)\<rparr>) s"
  have 1: "only_worker a s ?s1" by (rule only_worker_upd) simp
  have 2: "only_worker a s (snd (wait_exit a (kill_process f pid s')))"
    if "only_worker a s s'" and "w_cmd (worker s' a) = CmdProcess pid" for f pid s'
    by (rule only_worker_trans [OF only_worker_trans [OF that(1) only_worker_kill [OF that(2)]] only_worker_wait])
  have cmd: "only_worker a s s' \<Longrightarrow> w_cmd (worker s' a) = w_cmd (worker s a)" for s'
    by (auto simp: only_worker_def)
  show ?thesis
  proof (cases "w_cmd (worker ?s1 a)")
    case (CmdProcess pid)
    obtain ok s2 where w: "wait_exit a (kill_process os_obeysTerm pid ?s1) = (ok, s2)" by fastforce
    with 2 [OF 1 CmdProcess, of os_obeysTerm] have s2: "only_worker a s s2" by simp
    with cmd [OF s2] CmdProcess have "only_worker a s (snd (wait_exit a (kill_process os_obeysKill pid s2)))"
      by (intro 2) simp_all
    with CmdProcess w s2 show ?thesis by (cases ok) (simp_all add: terminateWorker_def)
  qed (use 1 in \<open>simp_all add: terminateWorker_def\<close>)
qed

lemma only_worker_isWorkerDead: "only_worker a s (snd (isWorkerDead a s))"
proof -
  have "only_worker a s (set_state st a (upd_worker a (\<lambda>w. w\<lparr>w_exitCh := c\<rparr>) s))" for st c
    by (rule only_worker_set_state2, rule only_worker_upd) simp
  then show ?thesis by (simp add: isWorkerDead_def split: option.split command.split)
qed

lemma only_worker_mark: "only_worker a s (snd (markRespawning a s))"
  by (auto simp: markRespawning_def intro: only_worker_upd)

text \<open>What the clients read off \<open>only_worker\<close>.\<close>

lemma only_worker_frame:
  assumes "only_worker a s s'"
  shows "p_settings s' = p_settings s" "p_workers s' = p_workers s"
    "p_available s' = p_available s" "p_runtime s' = p_runtime s" "p_running s' = p_running s"
    "p_ctxDone s' = p_ctxDone s"
    "p_activeWorkers s' = p_activeWorkers s" "p_parked s' = p_parked s"
    "p_lastRespawnAt s' = p_lastRespawnAt s" "p_busyWorkers s' = p_busyWorkers s"
    "p_queuedRequests s' = p_queuedRequests s" "p_totalRequests s' = p_totalRequests s"
    "p_spawnInFlight s' = p_spawnInFlight s" "p_nextAddr s' = p_nextAddr s"
    "p_bootTime s' = p_bootTime s" "p_slotLocks s' = p_slotLocks s"
    "p_spawnSemaphore s' = p_spawnSemaphore s" "p_respawnSemaphore s' = p_respawnSemaphore s"
    "p_spawnCircuitOpenUntil s' = p_spawnCircuitOpenUntil s"
    "p_consecutiveSpawnFailures s' = p_consecutiveSpawnFailures s"
    "p_availableQueueDroppedTotal s' = p_availableQueueDroppedTotal s"
    "p_stuckRespawningTotal s' = p_stuckRespawningTotal s"
    "p_nextWorkerID s' = p_nextWorkerID s" "p_panicked s' = p_panicked s" "now s' = now s"
    "w_ID (worker s' b) = w_ID (worker s b)"
    "b \<noteq> a \<Longrightarrow> worker s' b = worker s b"
  using assms by (auto simp: only_worker_def now_def)

lemma only_worker_cmd: "only_worker a s s' \<Longrightarrow> w_cmd (worker s' b) = w_cmd (worker s b)"
  by (auto simp: only_worker_def)

lemma only_worker_other_alive:
  "only_worker a s s' \<Longrightarrow> w_cmd (worker s a) \<noteq> CmdProcess pid \<Longrightarrow>
   os_alive (p_os s') pid = os_alive (p_os s) pid"
  by (auto simp: only_worker_def)

lemma only_worker_alive: "only_worker a s s' \<Longrightarrow> os_alive (p_os s') pid \<Longrightarrow> os_alive (p_os s) pid"
  by (auto simp: only_worker_def)

lemma only_worker_tasks:
  "only_worker a s s' \<Longrightarrow> \<exists>ts. p_tasks s' = p_tasks s @ ts \<and> set ts \<subseteq> {GoProcessExit a}"
  by (auto simp: only_worker_def)

lemmas terminateWorker_frame [simp] = only_worker_frame [OF only_worker_terminate]
lemmas isWorkerDead_frame [simp] = only_worker_frame [OF only_worker_isWorkerDead]
lemmas markRespawning_frame [simp] = only_worker_frame [OF only_worker_mark]
lemmas reap_frame = only_worker_frame [OF only_worker_reap]

lemma isWorkerDead_True: "fst (isWorkerDead a s) \<Longrightarrow> state_of (snd (isWorkerDead a s)) a = WorkerStateDead"
  by (simp add: isWorkerDead_def split: option.splits command.splits if_splits)

lemma isWorkerDead_False:
  "\<not> fst (isWorkerDead a s) \<Longrightarrow>
   snd (isWorkerDead a s) = s \<and> \<not> isProcessDead a s \<and> state_of s a \<noteq> WorkerStateDead"
  by (auto simp: isWorkerDead_def isProcessDead_def split: option.splits command.splits if_splits)

text \<open>
  After \<open>terminateWorker\<close> the process is gone unless it ignores both signals, and its connection and
  its listener are closed.
\<close>

lemma kill_alive:
  "os_alive (p_os (kill_process obeys pid s)) q \<longleftrightarrow>
     os_alive (p_os s) q \<and> \<not> (q = pid \<and> obeys (p_os s) pid)"
  by (auto simp: kill_process_def)

lemma kill_frame [simp]:
  "p_heap (kill_process obeys pid s) = p_heap s"
  "os_obeysTerm (p_os (kill_process obeys pid s)) = os_obeysTerm (p_os s)"
  "os_obeysKill (p_os (kill_process obeys pid s)) = os_obeysKill (p_os s)"
  by (simp_all add: kill_process_def)

lemma reap_os [simp]: "p_os (reap a s) = p_os s" and reap_cmd [simp]: "w_cmd (worker (reap a s) b) = w_cmd (worker s b)"
  by (simp_all add: reap_def Let_def)

lemma reap_exited_simps [simp]:
  "p_os (reap_exited a s) = p_os s" "w_cmd (worker (reap_exited a s) b) = w_cmd (worker s b)"
  by (simp_all add: reap_exited_def)

lemma wait_exit_os [simp]: "p_os (snd (wait_exit a s)) = p_os s"
  and wait_exit_cmd [simp]: "w_cmd (worker (snd (wait_exit a s)) b) = w_cmd (worker s b)"
  by (simp_all add: wait_exit_def Let_def split: option.split)

lemma terminate_cases:
  obtains (no_process) "\<And>pid. w_cmd (worker s a) \<noteq> CmdProcess pid"
      "terminateWorker a s = upd_worker a (\<lambda>w. w\<lparr>w_conn := close_handle (w_conn w),
         w_listener := close_handle (w_listener w)\<rparr>) s"
  | (process) pid s1 s2 where "w_cmd (worker s a) = CmdProcess pid"
      "s1 = upd_worker a (\<lambda>w. w\<lparr>w_conn := close_handle (w_conn w),
         w_listener := close_handle (w_listener w)\<rparr>) s"
      "s2 = snd (wait_exit a (kill_process os_obeysTerm pid s1))"
      "terminateWorker a s = (if fst (wait_exit a (kill_process os_obeysTerm pid s1)) then s2
         else snd (wait_exit a (kill_process os_obeysKill pid s2)))"
proof (cases "w_cmd (worker s a)")
  case (CmdProcess pid)
  then show ?thesis
    by (intro process) (auto simp: terminateWorker_def Let_def split: prod.split bool.split)
qed (use no_process in \<open>auto simp: terminateWorker_def\<close>)

lemma terminateWorker_cmd [simp]: "w_cmd (worker (terminateWorker a s) b) = w_cmd (worker s b)"
  by (cases rule: terminate_cases [of s a]) auto

lemma wait_exit_handles [simp]:
  "w_conn (worker (snd (wait_exit a s)) a) \<in> {w_conn (worker s a), close_handle (w_conn (worker s a))}"
  "w_listener (worker (snd (wait_exit a s)) a) \<in> {w_listener (worker s a), close_handle (w_listener (worker s a))}"
  by (simp_all add: wait_exit_def reap_exited_def reap_def Let_def split: option.split)

lemma close_handle_idem [simp]: "close_handle (close_handle h) = close_handle h"
  by (cases h) simp_all

lemma terminateWorker_closed:
  "w_conn (worker (terminateWorker a s) a) = close_handle (w_conn (worker s a))"
  "w_listener (worker (terminateWorker a s) a) = close_handle (w_listener (worker s a))"
proof -
  have h: "w_conn (worker (snd (wait_exit a s')) a) = close_handle c"
    if "w_conn (worker s' a) = close_handle c" for s' c
    using wait_exit_handles(1) [of a s'] that by auto
  have l: "w_listener (worker (snd (wait_exit a s')) a) = close_handle c"
    if "w_listener (worker s' a) = close_handle c" for s' c
    using wait_exit_handles(2) [of a s'] that by auto
  show "w_conn (worker (terminateWorker a s) a) = close_handle (w_conn (worker s a))"
    by (cases rule: terminate_cases [of s a]) (auto intro!: h)
  show "w_listener (worker (terminateWorker a s) a) = close_handle (w_listener (worker s a))"
    by (cases rule: terminate_cases [of s a]) (auto intro!: l)
qed

lemma wait_exit_alive:
  assumes "w_cmd (worker s a) = CmdProcess pid" and "fst (wait_exit a s)"
    and "buf (w_exitCh (worker s a)) = []"
  shows "\<not> os_alive (p_os s) pid"
  using assms
  by (auto simp: wait_exit_def reap_exited_def isProcessDead_def signal0_def Let_def try_recv_def split: if_splits option.splits list.splits)

lemma terminateWorker_kills:
  assumes cmd: "w_cmd (worker s a) = CmdProcess pid" and "buf (w_exitCh (worker s a)) = []"
    and obeys: "os_obeysTerm (p_os s) pid \<or> os_obeysKill (p_os s) pid"
  shows "\<not> os_alive (p_os (terminateWorker a s)) pid"
proof (cases rule: terminate_cases [of s a])
  case (process pid' s1 s2)
  with cmd have [simp]: "pid' = pid" by simp
  show ?thesis
  proof (cases "fst (wait_exit a (kill_process os_obeysTerm pid s1))")
    case True
    have "\<not> os_alive (p_os (kill_process os_obeysTerm pid s1)) pid"
      by (rule wait_exit_alive [OF _ True]) (simp_all add: process(2) cmd assms(2))
    with True process show ?thesis by simp
  next
    case False
    with process obeys show ?thesis by (auto simp: kill_alive)
  qed
next
  case no_process
  with cmd show ?thesis by blast
qed

end
