(* ===== verification/Reconcile.thy ===== *)
theory Reconcile
  imports Process
begin

text \<open>
  \<open>worker_reconcile.go\<close> (with \<open>countReadyWorkers\<close> and \<open>removeWorkerFromSlice\<close> of \<open>worker.go\<close> and
  \<open>countDeadWorkers\<close> and \<open>evictDeadWorker\<close> of \<open>worker_resilience.go\<close>): counting the workers of the
  slice by state, pruning dead slots, evicting one worker, and the reconciliation of workers that
  are stuck in a respawn.
\<close>

section \<open>Counts\<close>

definition count_if :: "(WorkerState \<Rightarrow> bool) \<Rightarrow> pool \<Rightarrow> int" where
  "count_if P s = int (length (filter (\<lambda>a. P (state_of s a)) (p_workers s)))"

definition countReadyWorkers :: "pool \<Rightarrow> int" where
  "countReadyWorkers s = count_if (\<lambda>st. st = WorkerStateIdle \<or> st = WorkerStateBusy) s"

definition countWorkersInState :: "WorkerState list \<Rightarrow> pool \<Rightarrow> int" where
  "countWorkersInState states s = count_if (\<lambda>st. st \<in> set states) s"

definition countLivingWorkersLocked :: "pool \<Rightarrow> int" where
  "countLivingWorkersLocked s = count_if (\<lambda>st. st \<noteq> WorkerStateDead) s"

definition livingWorkerCount :: "pool \<Rightarrow> int" where
  "livingWorkerCount s = countLivingWorkersLocked s"

definition countDeadWorkers :: "pool \<Rightarrow> int" where
  "countDeadWorkers s = count_if (\<lambda>st. st = WorkerStateDead) s"

definition countOccupyingSlots :: "pool \<Rightarrow> int" where
  "countOccupyingSlots s = count_if (\<lambda>st. st \<noteq> WorkerStateDead) s + p_spawnInFlight s"

definition countAvailableQueued :: "pool \<Rightarrow> int" where
  "countAvailableQueued s = int (length (buf (p_available s)))"

definition syncActiveWorkersCount :: "pool \<Rightarrow> pool" where
  "syncActiveWorkersCount s =
     s\<lparr>p_activeWorkers := wrap32 (countReadyWorkers s + countWorkersInState [WorkerStateStarting] s)\<rparr>"

section \<open>Removing slots\<close>

definition removeWorkerFromSliceIfPresent :: "int \<Rightarrow> pool \<Rightarrow> bool \<times> pool" where
  "removeWorkerFromSliceIfPresent i s =
     (if \<exists>a \<in> set (p_workers s). w_ID (worker s a) = i
      then (True, s\<lparr>p_workers := remove_first (\<lambda>a. w_ID (worker s a) = i) (p_workers s)\<rparr>)
      else (False, s))"

definition removeWorkerFromSlice :: "int \<Rightarrow> pool \<Rightarrow> pool" where
  "removeWorkerFromSlice i s =
     s\<lparr>p_workers := remove_first (\<lambda>a. w_ID (worker s a) = i) (p_workers s)\<rparr>"

text \<open>The loop over the slots, with the slots kept so far and the number of those dropped.\<close>

fun prune_loop :: "pool \<Rightarrow> addr list \<Rightarrow> addr list \<Rightarrow> int \<Rightarrow> addr list \<times> int" where
  "prune_loop s [] kept pruned = (kept, pruned)"
| "prune_loop s (w # ws) kept pruned =
     (if state_of s w = WorkerStateDead then prune_loop s ws kept (pruned + 1)
      else prune_loop s ws (kept @ [w]) pruned)"

definition pruneDeadWorkersLocked :: "pool \<Rightarrow> int \<times> pool" where
  "pruneDeadWorkersLocked s =
     (case prune_loop s (p_workers s) [] 0 of (kept, pruned) \<Rightarrow> (pruned, s\<lparr>p_workers := kept\<rparr>))"

lemma prune_loop_filter:
  "prune_loop s ws kept pruned =
     (kept @ filter (\<lambda>a. state_of s a \<noteq> WorkerStateDead) ws,
      pruned + int (length (filter (\<lambda>a. state_of s a = WorkerStateDead) ws)))"
  by (induction ws arbitrary: kept pruned) simp_all

lemma pruneDeadWorkersLocked_filter:
  "pruneDeadWorkersLocked s =
     (int (length (filter (\<lambda>a. state_of s a = WorkerStateDead) (p_workers s))),
      s\<lparr>p_workers := filter (\<lambda>a. state_of s a \<noteq> WorkerStateDead) (p_workers s)\<rparr>)"
  by (simp add: pruneDeadWorkersLocked_def prune_loop_filter)

definition pruneDeadWorkers :: "pool \<Rightarrow> int \<times> pool" where
  "pruneDeadWorkers s =
     (case pruneDeadWorkersLocked s of
        (pruned, s1) \<Rightarrow> (pruned, if pruned > 0 then syncActiveWorkersCount s1 else s1))"

definition forceEvictWorker :: "addr \<Rightarrow> pool \<Rightarrow> pool" where
  "forceEvictWorker a s =
     (case removeWorkerFromSliceIfPresent (w_ID (worker s a)) s of
        (False, s1) \<Rightarrow> s1
      | (True, s1) \<Rightarrow>
          let s2 = terminateWorker a s1
          in if p_activeWorkers s2 > 0
             then s2\<lparr>p_activeWorkers := wrap32 (p_activeWorkers s2 - 1)\<rparr> else s2)"

definition evictDeadWorker :: "addr \<Rightarrow> pool \<Rightarrow> pool" where
  "evictDeadWorker a s = forceEvictWorker a s"

section \<open>Workers stuck in a respawn\<close>

definition respawn_stuck :: "addr \<Rightarrow> pool \<Rightarrow> bool" where
  "respawn_stuck a s \<longleftrightarrow>
     isProcessDead a s \<or>
     (w_respawnStartedAt (worker s a) \<noteq> None \<and>
      since s (w_respawnStartedAt (worker s a)) > ps_respawnTimeout (p_settings s))"

definition reconcile_worker :: "addr \<Rightarrow> pool \<Rightarrow> pool" where
  "reconcile_worker a s =
     (if state_of s a = WorkerStateRespawning then
        (if respawn_stuck a s
         then forceEvictWorker a (s\<lparr>p_stuckRespawningTotal := wrap64 (p_stuckRespawningTotal s + 1)\<rparr>)
         else s)
      else if state_of s a = WorkerStateDead then forceEvictWorker a s
      else s)"

definition reconcileStuckWorkers :: "pool \<Rightarrow> pool" where
  "reconcileStuckWorkers s = syncActiveWorkersCount (fold reconcile_worker (p_workers s) s)"

section \<open>Lemmas: counts\<close>

lemmas count_defs = countReadyWorkers_def countWorkersInState_def countLivingWorkersLocked_def
  livingWorkerCount_def countDeadWorkers_def countOccupyingSlots_def count_if_def

lemma count_nonneg [simp]: "0 \<le> count_if P s"
  by (simp add: count_if_def)

lemma count_le_length: "count_if P s \<le> int (length (p_workers s))"
  by (simp add: count_if_def)

lemma count_split: "count_if P s + count_if (\<lambda>st. \<not> P st) s = int (length (p_workers s))"
  unfolding count_if_def by (simp flip: of_nat_add add: sum_length_filter_compl)

lemma count_mono: "(\<And>st. P st \<Longrightarrow> Q st) \<Longrightarrow> count_if P s \<le> count_if Q s"
  by (simp add: count_if_def length_filter_mono)

lemma ready_le_living: "countReadyWorkers s \<le> livingWorkerCount s"
  by (auto simp: countReadyWorkers_def livingWorkerCount_def countLivingWorkersLocked_def intro: count_mono)

lemma living_plus_dead: "livingWorkerCount s + countDeadWorkers s = int (length (p_workers s))"
  using count_split [of "\<lambda>st. st \<noteq> WorkerStateDead" s]
  by (simp add: livingWorkerCount_def countLivingWorkersLocked_def countDeadWorkers_def)

text \<open>
  After a synchronisation the counter is the number of idle, busy and starting workers of the
  slice, and so at most the number of living ones.
\<close>

lemma ready_starting: "countReadyWorkers s + countWorkersInState [WorkerStateStarting] s =
    count_if (\<lambda>st. st \<in> {WorkerStateIdle, WorkerStateBusy, WorkerStateStarting}) s"
proof -
  have "length (filter (\<lambda>a. state_of s a = WorkerStateIdle \<or> state_of s a = WorkerStateBusy) xs) +
      length (filter (\<lambda>a. state_of s a = WorkerStateStarting) xs) =
      length (filter (\<lambda>a. state_of s a \<in> {WorkerStateIdle, WorkerStateBusy, WorkerStateStarting}) xs)" for xs
    by (induction xs) auto
  then show ?thesis by (simp add: count_defs flip: of_nat_add)
qed

lemma sync_active:
  "length (p_workers s) < 2147483648 \<Longrightarrow>
   p_activeWorkers (syncActiveWorkersCount s) =
     count_if (\<lambda>st. st \<in> {WorkerStateIdle, WorkerStateBusy, WorkerStateStarting}) s"
  unfolding syncActiveWorkersCount_def ready_starting
  using count_le_length [of "\<lambda>st. st \<in> {WorkerStateIdle, WorkerStateBusy, WorkerStateStarting}" s]
    count_nonneg [of "\<lambda>st. st \<in> {WorkerStateIdle, WorkerStateBusy, WorkerStateStarting}" s]
  by (simp del: count_nonneg insert_iff)

section \<open>Lemmas: what housekeeping may change\<close>

text \<open>
  The contract of every operation that cleans up the slice of workers: it never adds a slot, never
  touches the queue of available workers, the request counters or the configuration, never changes
  a worker's id, never revives a process, and only appends goroutines.
\<close>

definition starts_only :: "task set \<Rightarrow> pool \<Rightarrow> pool \<Rightarrow> bool" where
  "starts_only T s s' \<longleftrightarrow> (\<exists>ts. p_tasks s' = p_tasks s @ ts \<and> set ts \<subseteq> T)"

lemma starts_only_refl [simp]: "p_tasks s' = p_tasks s \<Longrightarrow> starts_only T s s'"
  by (simp add: starts_only_def)

lemma starts_only_trans: "starts_only T s s1 \<Longrightarrow> starts_only T s1 s2 \<Longrightarrow> starts_only T s s2"
  unfolding starts_only_def by (metis append_assoc set_append Un_least)

lemma starts_only_mono: "starts_only T s s' \<Longrightarrow> T \<subseteq> T' \<Longrightarrow> starts_only T' s s'"
  unfolding starts_only_def by blast

lemma starts_only_go [simp]: "t \<in> T \<Longrightarrow> starts_only T s (go t s)"
  by (simp add: starts_only_def)

lemma starts_only_cong: "p_tasks s = p_tasks r \<Longrightarrow> p_tasks s' = p_tasks r' \<Longrightarrow> starts_only T s s' = starts_only T r r'"
  by (simp add: starts_only_def)

lemma starts_only_member: "starts_only T s s' \<Longrightarrow> t \<in> set (p_tasks s') \<Longrightarrow> t \<in> set (p_tasks s) \<or> t \<in> T"
  by (auto simp: starts_only_def)

definition tidy :: "pool \<Rightarrow> pool \<Rightarrow> bool" where
  "tidy s s' \<longleftrightarrow>
     p_settings s' = p_settings s \<and> p_available s' = p_available s \<and> p_runtime s' = p_runtime s \<and>
     p_running s' = p_running s \<and> p_ctxDone s' = p_ctxDone s \<and> p_parked s' = p_parked s \<and>
     p_busyWorkers s' = p_busyWorkers s \<and> p_queuedRequests s' = p_queuedRequests s \<and>
     p_totalRequests s' = p_totalRequests s \<and> p_spawnInFlight s' = p_spawnInFlight s \<and>
     p_nextAddr s' = p_nextAddr s \<and> p_nextWorkerID s' = p_nextWorkerID s \<and>
     p_bootTime s' = p_bootTime s \<and> p_slotLocks s' = p_slotLocks s \<and>
     p_spawnSemaphore s' = p_spawnSemaphore s \<and> p_respawnSemaphore s' = p_respawnSemaphore s \<and>
     now s' = now s \<and>
     set (p_workers s') \<subseteq> set (p_workers s) \<and> length (p_workers s') \<le> length (p_workers s) \<and>
     (distinct (p_workers s) \<longrightarrow> distinct (p_workers s')) \<and>
     (\<forall>b. w_ID (worker s' b) = w_ID (worker s b)) \<and>
     (\<forall>pid. os_alive (p_os s') pid \<longrightarrow> os_alive (p_os s) pid) \<and>
     starts_only (range GoRespawn \<union> range GoProcessExit) s s'"

lemma tidy_refl [simp, intro]: "tidy s s"
  by (simp add: tidy_def)

lemma tidy_trans: "tidy s s1 \<Longrightarrow> tidy s1 s2 \<Longrightarrow> tidy s s2"
  unfolding tidy_def by (elim conjE, intro conjI) (auto intro: starts_only_trans)

interpretation tidy_rel: frame_relation tidy
  by unfold_locales (auto intro: tidy_trans)

lemma tidy_only_worker: "only_worker a s s' \<Longrightarrow> tidy s s'"
proof -
  assume o: "only_worker a s s'"
  then have "starts_only (range GoRespawn \<union> range GoProcessExit) s s'"
    using only_worker_tasks [OF o] by (auto simp: starts_only_def)
  then show ?thesis
    unfolding tidy_def using only_worker_alive [OF o] by (simp add: only_worker_frame [OF o])
qed

lemma tidy_active: "tidy s s1 \<Longrightarrow> tidy s (s1\<lparr>p_activeWorkers := n\<rparr>)"
  by (simp add: tidy_def now_def starts_only_def)

lemma tidy_sync [intro]: "tidy s (syncActiveWorkersCount s)"
  unfolding syncActiveWorkersCount_def by (rule tidy_active) simp

lemma tidy_removeIfPresent: "tidy s (snd (removeWorkerFromSliceIfPresent i s))"
  using remove_first_subset [of "\<lambda>a. w_ID (worker s a) = i" "p_workers s"]
  by (auto simp: removeWorkerFromSliceIfPresent_def tidy_def now_def length_remove_first
      intro: remove_first_distinct)

lemma tidy_pruneLocked: "tidy s (snd (pruneDeadWorkersLocked s))"
  by (auto simp: pruneDeadWorkersLocked_filter tidy_def now_def)

lemma tidy_prune [intro]: "tidy s (snd (pruneDeadWorkers s))"
  using tidy_pruneLocked [of s]
  by (auto simp: pruneDeadWorkers_def split: prod.split intro: tidy_trans)

lemma tidy_evict [intro]: "tidy s (forceEvictWorker a s)"
proof (cases "removeWorkerFromSliceIfPresent (w_ID (worker s a)) s")
  case (Pair present s1)
  then have 1: "tidy s s1" using tidy_removeIfPresent [of s "w_ID (worker s a)"] by simp
  have 2: "tidy s (terminateWorker a s1)"
    by (rule tidy_trans [OF 1 tidy_only_worker [OF only_worker_terminate]])
  with 1 Pair show ?thesis
    by (auto simp: forceEvictWorker_def Let_def split: bool.split intro: tidy_active)
qed

lemma tidy_reconcile_worker: "tidy s (reconcile_worker a s)"
proof -
  have "tidy s (s\<lparr>p_stuckRespawningTotal := n\<rparr>)" for n by (simp add: tidy_def now_def)
  then show ?thesis by (auto simp: reconcile_worker_def intro: tidy_trans [OF _ tidy_evict])
qed

lemma tidy_reconcile [intro]: "tidy s (reconcileStuckWorkers s)"
  unfolding reconcileStuckWorkers_def
  by (rule tidy_trans [OF tidy_rel.fold_op tidy_sync]) (rule tidy_reconcile_worker)

section \<open>Lemmas: locality\<close>

text \<open>
  An operation on one worker leaves the structs of the others alone, changes no worker's command,
  and kills no process but that worker's.
\<close>

definition local_op :: "addr \<Rightarrow> pool \<Rightarrow> pool \<Rightarrow> bool" where
  "local_op a s s' \<longleftrightarrow>
     (\<forall>b. b \<noteq> a \<longrightarrow> worker s' b = worker s b) \<and>
     (\<forall>b. w_cmd (worker s' b) = w_cmd (worker s b)) \<and>
     (\<forall>pid. w_cmd (worker s a) \<noteq> CmdProcess pid \<longrightarrow> os_alive (p_os s') pid = os_alive (p_os s) pid)"

lemma local_only_worker: "only_worker a s s' \<Longrightarrow> local_op a s s'"
  by (auto simp: local_op_def only_worker_frame only_worker_cmd only_worker_other_alive)

lemma local_refl [simp]: "local_op a s s"
  by (simp add: local_op_def)

lemma local_trans: "local_op a s s1 \<Longrightarrow> local_op a s1 s2 \<Longrightarrow> local_op a s s2"
  by (simp add: local_op_def)

lemma local_evict: "local_op a s (forceEvictWorker a s)"
proof (cases "removeWorkerFromSliceIfPresent (w_ID (worker s a)) s")
  case (Pair present s1)
  then have 1: "local_op a s s1"
    by (auto simp: removeWorkerFromSliceIfPresent_def local_op_def split: if_splits)
  have "local_op a s (terminateWorker a s1)"
    by (rule local_trans [OF 1 local_only_worker [OF only_worker_terminate]])
  with 1 Pair show ?thesis
    by (auto simp: forceEvictWorker_def Let_def local_op_def split: bool.split)
qed

text \<open>A worker that can be handed out: idle, and its process, if it has one, alive.\<close>

definition serviceable :: "pool \<Rightarrow> addr \<Rightarrow> bool" where
  "serviceable s a \<longleftrightarrow>
     state_of s a = WorkerStateIdle \<and> (w_cmd (worker s a) = NilCmd \<or> \<not> isProcessDead a s)"

text \<open>No two workers of a set share a process.\<close>

definition own_process :: "pool \<Rightarrow> addr set \<Rightarrow> bool" where
  "own_process s A \<longleftrightarrow>
     (\<forall>a \<in> A. \<forall>b \<in> A. \<forall>pid. w_cmd (worker s a) = CmdProcess pid \<longrightarrow> w_cmd (worker s b) = CmdProcess pid \<longrightarrow> a = b)"

lemma local_own_process: "local_op a s s' \<Longrightarrow> own_process s' A = own_process s A"
  by (simp add: local_op_def own_process_def)

lemma local_serviceable:
  assumes "local_op a s s'" and "own_process s A" and "a \<in> A" "b \<in> A" and "b \<noteq> a"
  shows "serviceable s' b = serviceable s b"
proof -
  have "os_alive (p_os s') pid = os_alive (p_os s) pid" if "w_cmd (worker s b) = CmdProcess pid" for pid
    using assms that unfolding local_op_def own_process_def by metis
  then show ?thesis
    using assms(1,5)
    by (auto simp: local_op_def serviceable_def isProcessDead_def signal0_def split: command.splits)
qed

section \<open>Lemmas: operations on the queue\<close>

text \<open>The contract of the operations that also take workers out of the queue or put them into it.\<close>

definition tidyq :: "pool \<Rightarrow> pool \<Rightarrow> bool" where
  "tidyq s s' \<longleftrightarrow>
     tidy (s\<lparr>p_available := p_available s'\<rparr>) s' \<and> cap (p_available s') = cap (p_available s)"

lemma tidy_available_cong: "tidy s s' \<Longrightarrow> tidy (s\<lparr>p_available := c\<rparr>) (s'\<lparr>p_available := c\<rparr>)"
  by (simp add: tidy_def now_def starts_only_def)

lemma tidyq_tidy: "tidy s s' \<Longrightarrow> tidyq s s'"
proof -
  assume t: "tidy s s'"
  then have "p_available s' = p_available s" by (simp add: tidy_def)
  with t show ?thesis by (simp add: tidyq_def)
qed

lemma tidyq_refl [simp]: "tidyq s s"
  by (simp add: tidyq_tidy)

lemma tidyq_trans:
  assumes "tidyq s s1" and "tidyq s1 s2"
  shows "tidyq s s2"
proof -
  from assms(1) have "tidy (s\<lparr>p_available := p_available s1\<rparr>) s1" by (simp add: tidyq_def)
  from tidy_available_cong [OF this, of "p_available s2"]
  have "tidy (s\<lparr>p_available := p_available s2\<rparr>) (s1\<lparr>p_available := p_available s2\<rparr>)" by simp
  with assms show ?thesis unfolding tidyq_def by (metis tidy_trans)
qed

lemma tidyq_available: "cap c = cap (p_available s) \<Longrightarrow> tidyq s (s\<lparr>p_available := c\<rparr>)"
  by (simp add: tidyq_def)

interpretation tidyq_rel: frame_relation tidyq
  by unfold_locales (auto intro: tidyq_trans)

lemma tidyq_frame:
  assumes "tidyq s s'"
  shows "p_settings s' = p_settings s" "p_runtime s' = p_runtime s" "p_ctxDone s' = p_ctxDone s"
    "p_running s' = p_running s" "p_parked s' = p_parked s" "p_busyWorkers s' = p_busyWorkers s"
    "p_queuedRequests s' = p_queuedRequests s" "p_totalRequests s' = p_totalRequests s"
    "p_spawnInFlight s' = p_spawnInFlight s" "p_nextAddr s' = p_nextAddr s" "now s' = now s"
    "p_nextWorkerID s' = p_nextWorkerID s" "p_bootTime s' = p_bootTime s" "p_slotLocks s' = p_slotLocks s"
    "p_spawnSemaphore s' = p_spawnSemaphore s" "p_respawnSemaphore s' = p_respawnSemaphore s"
    "cap (p_available s') = cap (p_available s)" "w_ID (worker s' b) = w_ID (worker s b)"
  using assms by (auto simp: tidyq_def tidy_def now_def)

lemma tidyq_workers:
  assumes "tidyq s s'"
  shows "set (p_workers s') \<subseteq> set (p_workers s)" "length (p_workers s') \<le> length (p_workers s)"
    "distinct (p_workers s) \<Longrightarrow> distinct (p_workers s')"
  using assms by (auto simp: tidyq_def tidy_def)

end
