(* ===== verification/Resilience.thy ===== *)
theory Resilience
  imports Reconcile
begin

text \<open>
  \<open>worker_resilience.go\<close>: the circuit that pauses spawning after repeated failures. One operation
  reads the clock once here (\<open>spawnCircuitOpen\<close> reads it twice in a row in the source).
\<close>

definition spawnCircuitFailureThreshold :: int where
  "spawnCircuitFailureThreshold = 8"

definition spawnCircuitOpenDuration :: int where
  "spawnCircuitOpenDuration = 30 * Second"

definition noteSpawnSuccess :: "pool \<Rightarrow> pool" where
  "noteSpawnSuccess s = s\<lparr>p_consecutiveSpawnFailures := 0\<rparr>"

definition noteSpawnFailure :: "pool \<Rightarrow> pool" where
  "noteSpawnFailure s =
     (let n = wrap32 (p_consecutiveSpawnFailures s + 1);
          s1 = s\<lparr>p_consecutiveSpawnFailures := n\<rparr>
      in if n \<ge> spawnCircuitFailureThreshold
         then s1\<lparr>p_spawnCircuitOpenUntil := Some (now s + spawnCircuitOpenDuration)\<rparr> else s1)"

definition spawnCircuitOpen :: "pool \<Rightarrow> bool \<times> pool" where
  "spawnCircuitOpen s =
     (case p_spawnCircuitOpenUntil s of
        None \<Rightarrow> (False, s)
      | Some openUntil \<Rightarrow>
          if now s < openUntil then (True, s)
          else if now s > openUntil
               then (False, s\<lparr>p_spawnCircuitOpenUntil := None, p_consecutiveSpawnFailures := 0\<rparr>)
               else (False, s))"

section \<open>Lemmas\<close>

lemma tidy_circuit [intro]: "tidy s (snd (spawnCircuitOpen s))"
  and tidy_success [intro]: "tidy s (noteSpawnSuccess s)"
  and tidy_failure [intro]: "tidy s (noteSpawnFailure s)"
  by (auto simp: spawnCircuitOpen_def noteSpawnSuccess_def noteSpawnFailure_def Let_def tidy_def now_def
      split: option.split)

lemma circuit_workers [simp]:
  "p_workers (snd (spawnCircuitOpen s)) = p_workers s" "p_heap (snd (spawnCircuitOpen s)) = p_heap s"
  "p_activeWorkers (snd (spawnCircuitOpen s)) = p_activeWorkers s"
  "p_runtime (snd (spawnCircuitOpen s)) = p_runtime s" "p_tasks (snd (spawnCircuitOpen s)) = p_tasks s"
  "p_spawnInFlight (snd (spawnCircuitOpen s)) = p_spawnInFlight s"
  "p_nextWorkerID (snd (spawnCircuitOpen s)) = p_nextWorkerID s"
  "p_available (snd (spawnCircuitOpen s)) = p_available s"
  "p_ensureMinLast (snd (spawnCircuitOpen s)) = p_ensureMinLast s"
  by (auto simp: spawnCircuitOpen_def split: option.split)

text \<open>Repeated failures: the counter, and the instant the circuit opens until.\<close>

lemma failures_count:
  assumes "0 \<le> p_consecutiveSpawnFailures s" "p_consecutiveSpawnFailures s + int n < 2147483648"
  shows "p_consecutiveSpawnFailures ((noteSpawnFailure ^^ n) s) = p_consecutiveSpawnFailures s + int n"
  using assms
proof (induction n)
  case (Suc n)
  then show ?case by (auto simp: noteSpawnFailure_def Let_def)
qed simp

lemma failures_now [simp]: "now ((noteSpawnFailure ^^ n) s) = now s"
  by (induction n) (auto simp: noteSpawnFailure_def Let_def now_def)

lemma failures_open:
  assumes "p_consecutiveSpawnFailures s = 0" and "p_spawnCircuitOpenUntil s = None" and "n < 2147483648"
  shows "p_spawnCircuitOpenUntil ((noteSpawnFailure ^^ n) s) =
           (if n < 8 then None else Some (now s + spawnCircuitOpenDuration))"
  using assms(3)
proof (induction n)
  case (Suc n)
  then have "p_consecutiveSpawnFailures ((noteSpawnFailure ^^ n) s) = int n"
    using failures_count [of s n] assms(1) by simp
  with Suc show ?case
    by (auto simp: noteSpawnFailure_def [of "(noteSpawnFailure ^^ n) s"] Let_def
        spawnCircuitFailureThreshold_def)
qed (simp add: assms)

end
