(* ===== verification/Respawn.thy ===== *)
theory Respawn
  imports Resilience
begin

text \<open>
  \<open>worker.go\<close>: the backoff between respawns of one worker id, and \<open>scheduleRespawn\<close>, which marks a
  worker and starts the goroutine that replaces it. The \<open>reason\<close> strings only reach the log.
\<close>

definition canRespawnNow :: "int \<Rightarrow> pool \<Rightarrow> bool" where
  "canRespawnNow i s =
     (case p_lastRespawnAt s i of
        Some t0 \<Rightarrow> \<not> (now s - t0 < ps_respawnBackoff (p_settings s))
      | None \<Rightarrow> True)"

definition noteRespawnAttempt :: "int \<Rightarrow> pool \<Rightarrow> pool" where
  "noteRespawnAttempt i s = s\<lparr>p_lastRespawnAt := (p_lastRespawnAt s)(i \<mapsto> now s)\<rparr>"

definition scheduleRespawn :: "addr \<Rightarrow> pool \<Rightarrow> pool" where
  "scheduleRespawn a s =
     (if \<not> canRespawnNow (w_ID (worker s a)) s then s
      else case markRespawning a s of
        (False, s1) \<Rightarrow> s1
      | (True, s1) \<Rightarrow> go (GoRespawn a) (noteRespawnAttempt (w_ID (worker s1 a)) s1))"

definition acquireRespawnSlot :: "pool \<Rightarrow> pool option" where
  "acquireRespawnSlot s =
     map_option (\<lambda>c. s\<lparr>p_respawnSemaphore := c\<rparr>) (sem_acquire (p_ctxDone s) (p_respawnSemaphore s))"

definition releaseRespawnSlot :: "pool \<Rightarrow> pool" where
  "releaseRespawnSlot s = s\<lparr>p_respawnSemaphore := sem_release (p_respawnSemaphore s)\<rparr>"

section \<open>Lemmas\<close>

lemma markRespawning_simps:
  "state_of s a = WorkerStateRespawning \<Longrightarrow> markRespawning a s = (False, s)"
  "state_of s a \<noteq> WorkerStateRespawning \<Longrightarrow> markRespawning a s =
     (True, upd_worker a (\<lambda>w. w\<lparr>w_state := WorkerStateRespawning, w_respawnStartedAt := Some (now s)\<rparr>) s)"
  by (simp_all add: markRespawning_def)

text \<open>
  The two ways \<open>scheduleRespawn\<close> can go: it declines and changes nothing, or it marks the worker and
  starts one goroutine.
\<close>

definition respawn_accepted :: "addr \<Rightarrow> pool \<Rightarrow> bool" where
  "respawn_accepted a s \<longleftrightarrow>
     canRespawnNow (w_ID (worker s a)) s \<and> state_of s a \<noteq> WorkerStateRespawning"

lemma scheduleRespawn_declined: "\<not> respawn_accepted a s \<Longrightarrow> scheduleRespawn a s = s"
  by (auto simp: scheduleRespawn_def respawn_accepted_def markRespawning_def)

lemma scheduleRespawn_accepted:
  "respawn_accepted a s \<Longrightarrow> scheduleRespawn a s =
     go (GoRespawn a) (noteRespawnAttempt (w_ID (worker s a))
       (upd_worker a (\<lambda>w. w\<lparr>w_state := WorkerStateRespawning, w_respawnStartedAt := Some (now s)\<rparr>) s))"
  by (auto simp: scheduleRespawn_def respawn_accepted_def markRespawning_def)

lemma scheduleRespawn_workers [simp]:
  "p_workers (scheduleRespawn a s) = p_workers s" "p_available (scheduleRespawn a s) = p_available s"
  "p_os (scheduleRespawn a s) = p_os s" "p_runtime (scheduleRespawn a s) = p_runtime s"
  "p_ctxDone (scheduleRespawn a s) = p_ctxDone s"
  "p_busyWorkers (scheduleRespawn a s) = p_busyWorkers s"
  "p_activeWorkers (scheduleRespawn a s) = p_activeWorkers s"
  by (cases "respawn_accepted a s";
      simp add: scheduleRespawn_accepted scheduleRespawn_declined noteRespawnAttempt_def)+

lemma scheduleRespawn_tasks:
  "p_tasks (scheduleRespawn a s) = p_tasks s @ (if respawn_accepted a s then [GoRespawn a] else [])"
  by (cases "respawn_accepted a s")
     (simp_all add: scheduleRespawn_accepted scheduleRespawn_declined noteRespawnAttempt_def)

lemma scheduleRespawn_heap:
  "worker (scheduleRespawn a s) b =
     (if b = a \<and> respawn_accepted a s
      then (worker s a)\<lparr>w_state := WorkerStateRespawning, w_respawnStartedAt := Some (now s)\<rparr>
      else worker s b)"
  by (cases "respawn_accepted a s")
     (simp_all add: scheduleRespawn_accepted scheduleRespawn_declined noteRespawnAttempt_def)

lemma tidy_schedule [intro]: "tidy s (scheduleRespawn a s)"
proof (cases "respawn_accepted a s")
  case True
  then show ?thesis
    by (auto simp: scheduleRespawn_accepted tidy_def starts_only_def noteRespawnAttempt_def now_def go_def upd_worker_def)
qed (simp add: scheduleRespawn_declined)

end
