(* ===== verification/Available.thy ===== *)
theory Available
  imports Respawn
begin

text \<open>
  \<open>worker_available.go\<close>: the queue of available workers. \<open>compactAvailableQueue\<close> drains the queue,
  evicts dead entries, respawns stale ones, and puts at most \<open>max_workers\<close> idle workers back;
  \<open>releaseWorkerToAvailable\<close> returns one worker to the queue, blocking when it is full.
\<close>

section \<open>Pushing\<close>

definition tryPushAvailable :: "addr \<Rightarrow> pool \<Rightarrow> bool \<times> pool" where
  "tryPushAvailable a s =
     (case try_send (Some a) (p_available s) of
        Some c \<Rightarrow> (True, s\<lparr>p_available := c\<rparr>)
      | None \<Rightarrow> (False, s))"

definition drop_worker :: "addr \<Rightarrow> pool \<Rightarrow> pool" where
  "drop_worker a s =
     (let s1 = s\<lparr>p_availableQueueDroppedTotal := wrap64 (p_availableQueueDroppedTotal s + 1)\<rparr>;
          s2 = destroyWorker a s1
      in snd (removeWorkerFromSliceIfPresent (w_ID (worker s2 a)) s2))"

section \<open>compactAvailableQueue\<close>

text \<open>What the drain loop does with one worker it has received; \<open>True\<close> keeps it as valid.\<close>

definition drain_one :: "addr \<Rightarrow> pool \<Rightarrow> bool \<times> pool" where
  "drain_one a s =
     (let st = state_of s a; has_cmd = (w_cmd (worker s a) \<noteq> NilCmd) in
      if st = WorkerStateIdle \<and> (\<not> has_cmd \<or> \<not> isProcessDead a s) then (True, s)
      else if st = WorkerStateDead \<or> (has_cmd \<and> isProcessDead a s) then (False, forceEvictWorker a s)
      else
        let s1 = (if st \<noteq> WorkerStateRespawning then set_state WorkerStateDead a s else s)
        in (False, scheduleRespawn a s1))"

lemma tidy_drain_one: "tidy s (snd (drain_one a s))"
proof -
  have "tidy s (scheduleRespawn a (set_state WorkerStateDead a s))"
    by (rule tidy_trans [OF tidy_only_worker [OF only_worker_set_state] tidy_schedule])
  then show ?thesis by (auto simp: drain_one_def Let_def)
qed

lemma drain_one_available [simp]: "p_available (snd (drain_one a s)) = p_available s"
  using tidy_drain_one [of s a] by (simp add: tidy_def)

function drain_loop :: "addr list \<Rightarrow> int \<Rightarrow> pool \<Rightarrow> addr list \<times> int \<times> pool" where
  "drain_loop valid drained s =
     (case try_recv (p_available s) of
        None \<Rightarrow> (valid, drained, s)
      | Some (None, c) \<Rightarrow> drain_loop valid (drained + 1) (s\<lparr>p_available := c\<rparr>)
      | Some (Some a, c) \<Rightarrow>
          (case drain_one a (s\<lparr>p_available := c\<rparr>) of
             (keep, s1) \<Rightarrow> drain_loop (if keep then valid @ [a] else valid) (drained + 1) s1))"
  by pat_completeness auto
termination
proof (relation "measure (\<lambda>(valid, drained, s). length (buf (p_available s)))", goal_cases)
  case (3 valid drained s x w c a keep s1)
  then have "p_available s1 = c"
    using drain_one_available [of a "s\<lparr>p_available := c\<rparr>"] by (metis pool.select_convs(3) pool.surjective pool.update_convs(3) snd_conv)
  with 3 show ?case by (auto simp: recv_Some_iff)
qed (auto simp: recv_Some_iff)

declare drain_loop.simps [simp del]

definition requeue :: "addr \<Rightarrow> pool \<Rightarrow> pool" where
  "requeue a s = (case tryPushAvailable a s of (True, s1) \<Rightarrow> s1 | (False, s1) \<Rightarrow> drop_worker a s1)"

text \<open>
  The number of drained entries is the result. With a negative \<open>max_workers\<close> the slice expression
  \<open>valid[max:]\<close> panics.
\<close>

definition compactAvailableQueue :: "pool \<Rightarrow> int \<times> pool" where
  "compactAvailableQueue s =
     (let mx = GetMaxWorkers (p_runtime s);
          (valid, drained, s1) = drain_loop [] 0 s
      in if drained = 0 then (0, s1)
         else if int (length valid) > mx \<and> mx < 0 then (drained, s1\<lparr>p_panicked := True\<rparr>)
         else
           let s2 = (if int (length valid) > mx then fold drop_worker (drop (nat mx) valid) s1 else s1);
               kept = (if int (length valid) > mx then take (nat mx) valid else valid)
           in (drained, syncActiveWorkersCount (fold requeue kept s2)))"

section \<open>releaseWorkerToAvailable\<close>

text \<open>
  The three ways it can end: the worker is in the queue, it is not, or the goroutine is blocked on
  the full queue. The final \<open>select\<close> is reached with a full queue only, so its send is not ready
  there; it completes later, or the context ends.
\<close>

datatype push_result = Pushed | NotPushed | Blocked

definition release_select :: "addr \<Rightarrow> pool \<Rightarrow> push_result \<times> pool" where
  "release_select a s =
     (case tryPushAvailable a s of
        (True, s1) \<Rightarrow> (Pushed, s1)
      | (False, s1) \<Rightarrow>
          if p_ctxDone s1
          then let s2 = destroyWorker a s1
               in (NotPushed, snd (removeWorkerFromSliceIfPresent (w_ID (worker s2 a)) s2))
          else (Blocked, s1))"

definition release_full :: "addr \<Rightarrow> pool \<Rightarrow> push_result \<times> pool" where
  "release_full a s =
     (let mx = GetMaxWorkers (p_runtime s) in
      if countReadyWorkers s \<ge> mx \<and> countAvailableQueued s \<ge> mx
      then (NotPushed, syncActiveWorkersCount (drop_worker a s))
      else release_select a s)"

definition releaseWorkerToAvailable :: "addr option \<Rightarrow> pool \<Rightarrow> push_result \<times> pool" where
  "releaseWorkerToAvailable w s =
     (case w of
        None \<Rightarrow> (NotPushed, s)
      | Some a \<Rightarrow>
          if state_of s a = WorkerStateDead \<or> state_of s a = WorkerStateRespawning then (NotPushed, s)
          else
            let s1 = set_state WorkerStateIdle a s in
            if w_cmd (worker s1 a) \<noteq> NilCmd \<and> isProcessDead a s1 then (NotPushed, scheduleRespawn a s1)
            else (case tryPushAvailable a s1 of
                    (True, s2) \<Rightarrow> (Pushed, s2)
                  | (False, s2) \<Rightarrow>
                      (case compactAvailableQueue s2 of
                         (drained, s3) \<Rightarrow>
                           if drained > 0
                           then (case tryPushAvailable a s3 of
                                   (True, s4) \<Rightarrow> (Pushed, s4)
                                 | (False, s4) \<Rightarrow> release_full a s4)
                           else release_full a s3)))"

section \<open>Lemmas: frames\<close>

lemma tryPush_simps:
  "length (buf (p_available s)) < cap (p_available s) \<Longrightarrow>
     tryPushAvailable a s = (True, s\<lparr>p_available := (p_available s)\<lparr>buf := buf (p_available s) @ [Some a]\<rparr>\<rparr>)"
  "cap (p_available s) \<le> length (buf (p_available s)) \<Longrightarrow> tryPushAvailable a s = (False, s)"
  by (simp_all add: tryPushAvailable_def try_send_def)

lemma tidyq_tryPush: "tidyq s (snd (tryPushAvailable a s))"
  by (auto simp: tryPushAvailable_def gochan.sendD(2) split: option.splits intro: tidyq_available)

lemma tidy_destroy_remove: "tidy s (snd (removeWorkerFromSliceIfPresent i (destroyWorker a s)))"
  unfolding destroyWorker_def
  by (rule tidy_trans [OF tidy_only_worker [OF only_worker_terminate] tidy_removeIfPresent])

lemma tidy_drop: "tidy s (drop_worker a s)"
proof -
  have "tidy s (s\<lparr>p_availableQueueDroppedTotal := n\<rparr>)" for n by (simp add: tidy_def now_def)
  then show ?thesis
    unfolding drop_worker_def Let_def by (rule tidy_trans [OF _ tidy_destroy_remove])
qed

text \<open>The drain loop by the contents of the queue.\<close>

definition set_queue :: "addr option list \<Rightarrow> pool \<Rightarrow> pool" where
  "set_queue q s = s\<lparr>p_available := (p_available s)\<lparr>buf := q\<rparr>\<rparr>"

lemma recv_queue: "buf (p_available s) = w # q \<Longrightarrow> try_recv (p_available s) = Some (w, (p_available s)\<lparr>buf := q\<rparr>)"
  by (simp add: try_recv_def)

lemma drain_loop_nil: "buf (p_available s) = [] \<Longrightarrow> drain_loop valid drained s = (valid, drained, s)"
  by (subst drain_loop.simps) (simp add: try_recv_def)

lemma drain_loop_None:
  "buf (p_available s) = None # q \<Longrightarrow>
   drain_loop valid drained s = drain_loop valid (drained + 1) (set_queue q s)"
  by (subst drain_loop.simps) (simp add: recv_queue set_queue_def)

lemma drain_loop_Some:
  "buf (p_available s) = Some a # q \<Longrightarrow>
   drain_loop valid drained s =
     drain_loop (if fst (drain_one a (set_queue q s)) then valid @ [a] else valid) (drained + 1)
       (snd (drain_one a (set_queue q s)))"
  by (subst drain_loop.simps) (simp add: recv_queue set_queue_def split: prod.split)

lemma tidyq_set_queue [simp]: "tidyq s (set_queue q s)"
  by (simp add: set_queue_def tidyq_available)

lemma set_queue_simps [simp]:
  "buf (p_available (set_queue q s)) = q" "p_heap (set_queue q s) = p_heap s"
  "p_workers (set_queue q s) = p_workers s" "p_os (set_queue q s) = p_os s"
  "p_runtime (set_queue q s) = p_runtime s" "cap (p_available (set_queue q s)) = cap (p_available s)"
  by (simp_all add: set_queue_def)

lemma tidyq_drain_loop:
  "drain_loop valid drained s = (v, d, s') \<Longrightarrow> tidyq s s' \<and> buf (p_available s') = []"
proof (induction "buf (p_available s)" arbitrary: valid drained s)
  case Nil
  then show ?case by (simp add: drain_loop_nil)
next
  case (Cons w q)
  have q: "buf (p_available s) = w # q" using Cons.hyps(2) by simp
  show ?case
  proof (cases w)
    case None
    with Cons.hyps(1) [of "set_queue q s"] Cons.prems drain_loop_None [of s q] q
    show ?thesis by (auto intro: tidyq_trans [OF tidyq_set_queue])
  next
    case (Some a)
    let ?s1 = "snd (drain_one a (set_queue q s))"
    have "tidyq s ?s1"
      by (rule tidyq_trans [OF tidyq_set_queue tidyq_tidy [OF tidy_drain_one]])
    with Cons.hyps(1) [of ?s1] Cons.prems drain_loop_Some [of s a q] q Some
    show ?thesis by (auto intro: tidyq_trans)
  qed
qed

lemma drain_loop_count:
  "drain_loop valid drained s = (v, d, s') \<Longrightarrow> d = drained + int (length (buf (p_available s)))"
proof (induction "buf (p_available s)" arbitrary: valid drained s)
  case Nil
  then show ?case by (simp add: drain_loop_nil)
next
  case (Cons w q)
  have q: "buf (p_available s) = w # q" using Cons.hyps(2) by simp
  show ?case
  proof (cases w)
    case None
    with Cons.hyps(1) [of "set_queue q s" valid "drained + 1"] Cons.prems drain_loop_None [of s q] q
    show ?thesis by simp
  next
    case (Some a)
    let ?s1 = "snd (drain_one a (set_queue q s))"
    let ?v = "if fst (drain_one a (set_queue q s)) then valid @ [a] else valid"
    have "drain_loop ?v (drained + 1) ?s1 = (v, d, s')"
      using Cons.prems drain_loop_Some [of s a q valid drained] q Some by simp
    from Cons.hyps(1) [OF _ this] q Some show ?thesis by simp
  qed
qed

lemma tidyq_requeue: "tidyq s (requeue a s)"
proof (cases "tryPushAvailable a s")
  case (Pair ok s1)
  with tidyq_tryPush [of s a] have 1: "tidyq s s1" by simp
  then have "tidyq s (drop_worker a s1)" by (rule tidyq_trans [OF _ tidyq_tidy [OF tidy_drop]])
  with 1 Pair show ?thesis by (simp add: requeue_def split: bool.split)
qed

lemma tidyq_compact: "tidyq s (snd (compactAvailableQueue s))"
proof (cases "drain_loop [] 0 s")
  case (fields valid drained s1)
  then have s1: "tidyq s s1" by (simp add: tidyq_drain_loop)
  have p: "tidyq s (s1\<lparr>p_panicked := True\<rparr>)"
    by (rule tidyq_trans [OF s1]) (simp add: tidyq_def tidy_def now_def)
  have "tidyq s (fold drop_worker xs s1)" for xs
    by (rule tidyq_trans [OF s1 tidyq_tidy [OF tidy_rel.fold_op [OF tidy_drop]]])
  then have "tidyq s (syncActiveWorkersCount (fold requeue ys (fold drop_worker xs s1)))" for xs ys
    by (rule tidyq_trans [OF tidyq_trans [OF _ tidyq_rel.fold_op [OF tidyq_requeue]] tidyq_tidy [OF tidy_sync]])
  from this [of _ "[]"] this s1 p fields show ?thesis
    by (simp add: compactAvailableQueue_def Let_def)
qed

lemma tidyq_release_select: "tidyq s (snd (release_select a s))"
proof (cases "tryPushAvailable a s")
  case (Pair ok s1)
  with tidyq_tryPush [of s a] have 1: "tidyq s s1" by simp
  from Pair 1 show ?thesis
    by (auto simp: release_select_def Let_def split: bool.split
        intro: tidyq_trans [OF 1 tidyq_tidy [OF tidy_destroy_remove]])
qed

lemma tidyq_release_full: "tidyq s (snd (release_full a s))"
  using tidyq_tidy [OF tidy_trans [OF tidy_drop tidy_sync]]
  by (simp add: release_full_def Let_def tidyq_release_select)

lemma tidyq_release: "tidyq s (snd (releaseWorkerToAvailable w s))"
proof (cases w)
  case (Some a)
  let ?s1 = "set_state WorkerStateIdle a s"
  have 1: "tidyq s ?s1" by (rule tidyq_tidy [OF tidy_only_worker [OF only_worker_set_state]])
  have sch: "tidyq s (scheduleRespawn a ?s1)" by (rule tidyq_trans [OF 1 tidyq_tidy [OF tidy_schedule]])
  obtain ok s2 where p: "tryPushAvailable a ?s1 = (ok, s2)" by fastforce
  with tidyq_trans [OF 1 tidyq_tryPush, of a] have 2: "tidyq s s2" by simp
  obtain d s3 where c: "compactAvailableQueue s2 = (d, s3)" by fastforce
  with tidyq_trans [OF 2 tidyq_compact] have 3: "tidyq s s3" by simp
  obtain ok' s4 where p': "tryPushAvailable a s3 = (ok', s4)" by fastforce
  with tidyq_trans [OF 3 tidyq_tryPush, of a] have 4: "tidyq s s4" by simp
  from Some sch 2 4 tidyq_trans [OF 3 tidyq_release_full] tidyq_trans [OF 4 tidyq_release_full] p c p'
  show ?thesis
    by (simp add: releaseWorkerToAvailable_def Let_def split: bool.split)
qed (simp add: releaseWorkerToAvailable_def)

section \<open>Lemmas: what compaction keeps\<close>

lemma drain_one_keep: "fst (drain_one a s) = serviceable s a"
  by (auto simp: drain_one_def serviceable_def Let_def)

lemma drain_one_serviceable: "serviceable s a \<Longrightarrow> drain_one a s = (True, s)"
  by (simp add: drain_one_def serviceable_def Let_def)

lemma local_schedule: "local_op a s (scheduleRespawn a s)"
  by (auto simp: local_op_def scheduleRespawn_heap)

lemma local_drain_one: "local_op a s (snd (drain_one a s))"
proof -
  have "local_op a s (scheduleRespawn a (set_state WorkerStateDead a s))"
    by (rule local_trans [OF local_only_worker [OF only_worker_set_state] local_schedule])
  then show ?thesis by (auto simp: drain_one_def Let_def local_evict local_schedule)
qed

lemma local_drop: "local_op a s (drop_worker a s)"
proof -
  have 1: "local_op a s (s\<lparr>p_availableQueueDroppedTotal := n\<rparr>)" for n by (simp add: local_op_def)
  have 2: "local_op a s1 (snd (removeWorkerFromSliceIfPresent i s1))" for s1 i
    by (auto simp: removeWorkerFromSliceIfPresent_def local_op_def)
  show ?thesis
    unfolding drop_worker_def Let_def destroyWorker_def
    by (rule local_trans [OF local_trans [OF 1 local_only_worker [OF only_worker_terminate]] 2])
qed

lemma drop_worker_available [simp]: "p_available (drop_worker a s) = p_available s"
  using tidy_drop [of s a] by (simp add: tidy_def)

text \<open>Workers an operation did not touch.\<close>

definition same_on :: "addr set \<Rightarrow> pool \<Rightarrow> pool \<Rightarrow> bool" where
  "same_on B s s' \<longleftrightarrow> (\<forall>b \<in> B. worker s' b = worker s b \<and> serviceable s' b = serviceable s b)"

lemma same_on_refl [simp]: "same_on B s s"
  by (simp add: same_on_def)

lemma same_on_trans: "same_on B s s1 \<Longrightarrow> same_on B s1 s2 \<Longrightarrow> same_on B s s2"
  by (simp add: same_on_def)

lemma same_on_mono: "same_on B s s' \<Longrightarrow> C \<subseteq> B \<Longrightarrow> same_on C s s'"
  by (auto simp: same_on_def)

lemma same_on_local:
  "local_op a s s' \<Longrightarrow> own_process s A \<Longrightarrow> a \<in> A \<Longrightarrow> same_on (A - {a}) s s'"
  unfolding same_on_def by (auto simp: local_serviceable [of a s s' A]) (metis local_op_def)

lemma same_on_fold:
  assumes "\<And>a s. local_op a s (f a s)" and "own_process s A" and "set xs \<subseteq> A"
  shows "same_on (A - set xs) s (fold f xs s) \<and> own_process (fold f xs s) A"
  using assms(2,3)
proof (induction xs arbitrary: s)
  case (Cons x xs)
  then have "same_on (A - {x}) s (f x s)" and own: "own_process (f x s) A"
    using same_on_local [OF assms(1)] local_own_process [OF assms(1)] by auto
  moreover from Cons.IH [OF own] Cons.prems
  have "same_on (A - set xs) (f x s) (fold f xs (f x s))" "own_process (fold f xs (f x s)) A" by auto
  ultimately show ?case
    by (auto intro: same_on_trans same_on_mono)
qed simp

lemma same_on_queue [simp]: "same_on B s (set_queue q s)"
  by (auto simp: same_on_def serviceable_def isProcessDead_def signal0_def split: command.split)

lemma own_process_queue [simp]: "own_process (set_queue q s) A = own_process s A"
  by (simp add: own_process_def)

lemma serviceable_queue [simp]: "serviceable (set_queue q s) a = serviceable s a"
  by (auto simp: serviceable_def isProcessDead_def signal0_def split: command.split)

text \<open>
  With distinct entries the drain loop keeps exactly the serviceable ones, in order, and does not
  touch them.
\<close>

lemma drain_loop_valid:
  assumes "drain_loop valid drained s = (v, d, s')" and "buf (p_available s) = map Some q"
    and "distinct q" and "own_process s A" and "set q \<subseteq> A"
  shows "v = valid @ filter (serviceable s) q \<and> own_process s' A \<and>
         same_on (A - {a \<in> set q. \<not> serviceable s a}) s s'"
  using assms
proof (induction q arbitrary: valid drained s)
  case Nil
  then show ?case by (simp add: drain_loop_nil)
next
  case (Cons a q)
  let ?s0 = "set_queue (map Some q) s"
  let ?s1 = "snd (drain_one a ?s0)"
  let ?v = "if serviceable s a then valid @ [a] else valid"
  have run: "drain_loop ?v (drained + 1) ?s1 = (v, d, s')"
    using Cons.prems(1,2) drain_loop_Some [of s a "map Some q" valid drained]
    by (simp add: drain_one_keep)
  have loc: "local_op a ?s0 ?s1" by (rule local_drain_one)
  have own: "own_process ?s1 A" using Cons.prems(4) local_own_process [OF loc] by simp
  have s1: "same_on (if serviceable s a then A else A - {a}) s ?s1"
  proof (cases "serviceable s a")
    case True
    then show ?thesis by (simp add: drain_one_serviceable)
  next
    case False
    have "same_on (A - {a}) ?s0 ?s1"
      by (rule same_on_local [OF loc]) (use Cons.prems in simp_all)
    with False show ?thesis using same_on_trans [OF same_on_queue] by simp
  qed
  have buf: "buf (p_available ?s1) = map Some q" by simp
  from Cons.IH [OF run buf _ own] Cons.prems
  have IH: "v = ?v @ filter (serviceable ?s1) q" "own_process s' A"
    "same_on (A - {b \<in> set q. \<not> serviceable ?s1 b}) ?s1 s'" by auto
  have same: "serviceable ?s1 b = serviceable s b" if "b \<in> set q" for b
    using s1 that Cons.prems(3,5) by (auto simp: same_on_def split: if_splits)
  then have "filter (serviceable ?s1) q = filter (serviceable s) q" by (simp cong: filter_cong)
  moreover have "{b \<in> set q. \<not> serviceable ?s1 b} = {b \<in> set q. \<not> serviceable s b}"
    using same by auto
  moreover have "same_on (A - {b \<in> set (a # q). \<not> serviceable s b}) s ?s1"
    by (rule same_on_mono [OF s1]) auto
  ultimately show ?case
    using IH by (auto intro: same_on_trans same_on_mono)
qed

lemma requeue_room:
  "length (buf (p_available s)) < cap (p_available s) \<Longrightarrow>
   requeue a s = set_queue (buf (p_available s) @ [Some a]) s"
  by (simp add: requeue_def tryPush_simps(1) set_queue_def)

lemma set_queue_twice [simp]: "set_queue q (set_queue q' s) = set_queue q s"
  by (simp add: set_queue_def)

lemma fold_requeue:
  "length (buf (p_available s)) + length xs \<le> cap (p_available s) \<Longrightarrow>
   fold requeue xs s = set_queue (buf (p_available s) @ map Some xs) s"
proof (induction xs arbitrary: s)
  case Nil
  then show ?case by (simp add: set_queue_def)
next
  case (Cons x xs)
  then have room: "length (buf (p_available s)) < cap (p_available s)" by simp
  from Cons.IH [of "requeue x s"] Cons.prems room show ?case by (simp add: requeue_room)
qed

lemma fold_drop_available [simp]: "p_available (fold drop_worker xs s) = p_available s"
  by (induction xs arbitrary: s) auto

lemma sync_simps [simp]:
  "p_available (syncActiveWorkersCount s) = p_available s" "p_heap (syncActiveWorkersCount s) = p_heap s"
  "p_os (syncActiveWorkersCount s) = p_os s" "p_workers (syncActiveWorkersCount s) = p_workers s"
  by (simp_all add: syncActiveWorkersCount_def)

lemma serviceable_sync [simp]: "serviceable (syncActiveWorkersCount s) a = serviceable s a"
  by (auto simp: serviceable_def isProcessDead_def signal0_def split: command.split)

lemma same_on_sync: "same_on B s (syncActiveWorkersCount (set_queue q s))"
  by (simp add: same_on_def)

lemma serviceable_cong:
  "p_heap s = p_heap s' \<Longrightarrow> p_os s = p_os s' \<Longrightarrow> serviceable s a = serviceable s' a"
  by (auto simp: serviceable_def isProcessDead_def signal0_def split: command.split)

text \<open>
  The queue after a compaction: the first \<open>max_workers\<close> of its serviceable entries, in order, each
  still serviceable.
\<close>

lemma compact_spec:
  assumes q: "buf (p_available s) = map Some q" and "distinct q" and own: "own_process s A"
    and A: "set q \<subseteq> A" and "length q \<le> cap (p_available s)" and mx: "0 \<le> rc_MaxWorkers (p_runtime s)"
  defines "kept \<equiv> take (nat (rc_MaxWorkers (p_runtime s))) (filter (serviceable s) q)"
  shows "fst (compactAvailableQueue s) = int (length q)"
    and "buf (p_available (snd (compactAvailableQueue s))) = map Some kept"
    and "same_on (A - (set q - set kept)) s (snd (compactAvailableQueue s))"
proof -
  let ?m = "rc_MaxWorkers (p_runtime s)"
  let ?V = "filter (serviceable s) q"
  obtain v d s1 where run: "drain_loop [] 0 s = (v, d, s1)" by (metis surj_pair)
  from drain_loop_valid [OF run q \<open>distinct q\<close> own A]
  have v: "v = ?V" and own1: "own_process s1 A"
    and s1: "same_on (A - {a \<in> set q. \<not> serviceable s a}) s s1" by auto
  from drain_loop_count [OF run] q have d: "d = int (length q)" by simp
  from tidyq_drain_loop [OF run] have empty: "buf (p_available s1) = []"
    and cap1: "cap (p_available s1) = cap (p_available s)" by (auto simp: tidyq_frame)
  let ?s2 = "fold drop_worker (drop (nat ?m) ?V) s1"
  have over: "compactAvailableQueue s = (d, syncActiveWorkersCount (fold requeue kept ?s2))" if "d \<noteq> 0"
    using run v that mx by (simp add: compactAvailableQueue_def GetMaxWorkers_def kept_def not_less Let_def)
  have dropped: "same_on (A - set (drop (nat ?m) ?V)) s1 ?s2"
  proof -
    have "set (drop (nat ?m) ?V) \<subseteq> A" using A set_drop_subset [of "nat ?m" ?V] by auto
    with same_on_fold [OF local_drop own1] show ?thesis by blast
  qed
  have len: "length kept \<le> cap (p_available ?s2)"
    using le_trans [OF length_filter_le [of "serviceable s" q] assms(5)] cap1
    by (simp add: kept_def min.coboundedI1)
  then have req: "fold requeue kept ?s2 = set_queue (map Some kept) ?s2"
    by (simp add: fold_requeue empty)
  have dist: "set kept \<inter> set (drop (nat ?m) ?V) = {}"
    unfolding kept_def by (rule set_take_disj_set_drop_if_distinct) (use assms(2) in simp_all)
  have part: "set ?V = set kept \<union> set (drop (nat ?m) ?V)"
    unfolding kept_def by (metis append_take_drop_id set_append)
  have all: "same_on (A - (set q - set kept)) s ?s2"
  proof (rule same_on_trans)
    show "same_on (A - (set q - set kept)) s s1"
      by (rule same_on_mono [OF s1]) (auto simp: kept_def dest: in_set_takeD)
    show "same_on (A - (set q - set kept)) s1 ?s2"
      by (rule same_on_mono [OF dropped]) (use dist part in auto)
  qed
  have zero: "d = 0 \<Longrightarrow> q = []" using d by simp
  show "fst (compactAvailableQueue s) = int (length q)"
    using over d run zero by (cases "d = 0") (auto simp: compactAvailableQueue_def Let_def)
  show "buf (p_available (snd (compactAvailableQueue s))) = map Some kept"
    using over req zero run empty
    by (cases "d = 0") (auto simp: compactAvailableQueue_def Let_def kept_def)
  have "same_on B ?s2 (syncActiveWorkersCount (set_queue (map Some kept) ?s2))" for B
    by (simp add: same_on_sync)
  with all have "same_on (A - (set q - set kept)) s (syncActiveWorkersCount (fold requeue kept ?s2))"
    unfolding req by (rule same_on_trans)
  moreover have "same_on (A - (set q - set kept)) s s1" if "d = 0"
    by (rule same_on_mono [OF s1]) (use zero [OF that] in auto)
  ultimately show "same_on (A - (set q - set kept)) s (snd (compactAvailableQueue s))"
    using over run by (cases "d = 0") (simp_all add: compactAvailableQueue_def Let_def)
qed

section \<open>Lemmas: releasing\<close>

lemma release_dead:
  "state_of s a = WorkerStateDead \<or> state_of s a = WorkerStateRespawning \<Longrightarrow>
   releaseWorkerToAvailable (Some a) s = (NotPushed, s)"
  by (simp add: releaseWorkerToAvailable_def)

text \<open>A worker that may be released: neither dead nor respawning, its process alive if it has one.\<close>

definition releasable :: "pool \<Rightarrow> addr \<Rightarrow> bool" where
  "releasable s a \<longleftrightarrow>
     state_of s a \<noteq> WorkerStateDead \<and> state_of s a \<noteq> WorkerStateRespawning \<and>
     (w_cmd (worker s a) = NilCmd \<or> \<not> isProcessDead a s)"

lemma isProcessDead_set_state [simp]: "isProcessDead a (set_state st b s) = isProcessDead a s"
  by (auto simp: isProcessDead_def signal0_def set_state_def split: command.split)

lemma cmd_set_state [simp]: "w_cmd (worker (set_state st b s) a) = w_cmd (worker s a)"
  by (simp add: set_state_def)

lemma release_process_dead:
  assumes "state_of s a \<noteq> WorkerStateDead" "state_of s a \<noteq> WorkerStateRespawning"
    and "w_cmd (worker s a) \<noteq> NilCmd" "isProcessDead a s"
  shows "releaseWorkerToAvailable (Some a) s = (NotPushed, scheduleRespawn a (set_state WorkerStateIdle a s))"
  using assms by (simp add: releaseWorkerToAvailable_def)

lemma release_room:
  assumes "releasable s a" and "length (buf (p_available s)) < cap (p_available s)"
  shows "releaseWorkerToAvailable (Some a) s =
     (Pushed, set_queue (buf (p_available s) @ [Some a]) (set_state WorkerStateIdle a s))"
  using assms
  by (auto simp: releaseWorkerToAvailable_def releasable_def tryPush_simps(1) set_queue_def)

text \<open>A full queue: what follows the compaction.\<close>

lemma release_compacts:
  assumes "releasable s a" and "cap (p_available s) \<le> length (buf (p_available s))"
    and c: "compactAvailableQueue (set_state WorkerStateIdle a s) = (d, s3)" and "0 < d"
  shows "releaseWorkerToAvailable (Some a) s =
     (if length (buf (p_available s3)) < cap (p_available s3)
      then (Pushed, set_queue (buf (p_available s3) @ [Some a]) s3)
      else release_full a s3)"
  using assms
  by (auto simp: releaseWorkerToAvailable_def releasable_def tryPush_simps set_queue_def not_less)

lemma release_select_full:
  "cap (p_available s) \<le> length (buf (p_available s)) \<Longrightarrow> \<not> p_ctxDone s \<Longrightarrow>
   release_select a s = (Blocked, s)"
  by (simp add: release_select_def tryPush_simps(2))

lemma serviceable_set_idle:
  "b \<noteq> a \<Longrightarrow> serviceable (set_state st a s) b = serviceable s b"
  by (auto simp: serviceable_def)

lemma own_process_set_state [simp]: "own_process (set_state st a s) A = own_process s A"
  by (simp only: own_process_def cmd_set_state)

text \<open>
  When \<open>max_workers\<close> has been raised above the capacity the queue was made with and every queued
  worker is serviceable, releasing one more worker blocks: compaction keeps everything, and
  the saturation test compares with the new maximum.
\<close>

lemma release_blocks:
  assumes rel: "releasable s a" and q: "buf (p_available s) = map Some q" and dist: "distinct q"
    and full: "length q = cap (p_available s)" and "q \<noteq> []" and a: "a \<notin> set q"
    and own: "own_process s A" and A: "set q \<subseteq> A" and srv: "\<forall>b \<in> set q. serviceable s b"
    and raised: "int (cap (p_available s)) < rc_MaxWorkers (p_runtime s)" and ctx: "\<not> p_ctxDone s"
  shows "fst (releaseWorkerToAvailable (Some a) s) = Blocked"
    and "buf (p_available (snd (releaseWorkerToAvailable (Some a) s))) = map Some q"
proof -
  let ?s1 = "set_state WorkerStateIdle a s"
  obtain d s3 where c: "compactAvailableQueue ?s1 = (d, s3)" by fastforce
  have "filter (serviceable ?s1) q = q"
    unfolding filter_id_conv using srv a serviceable_set_idle [of _ a] by metis
  with raised full have kept: "take (nat (rc_MaxWorkers (p_runtime ?s1))) (filter (serviceable ?s1) q) = q"
    by simp
  have q1: "buf (p_available ?s1) = map Some q" using q by simp
  have own1: "own_process ?s1 A" using own by simp
  from compact_spec(1,2) [OF q1 dist own1 A] full raised kept c
  have d: "d = int (length q)" and q3: "buf (p_available s3) = map Some q" by auto
  with \<open>q \<noteq> []\<close> have pos: "0 < d" by simp
  from tidyq_compact [of ?s1] c have s3: "tidyq ?s1 s3" by simp
  note fr = tidyq_frame [OF s3]
  have "releaseWorkerToAvailable (Some a) s = release_full a s3"
    using release_compacts [OF rel _ c] q full q3 fr pos by simp
  also have "\<dots> = (Blocked, s3)"
    using q3 fr full raised ctx
    by (simp add: release_full_def GetMaxWorkers_def countAvailableQueued_def Let_def release_select_full)
  finally show "fst (releaseWorkerToAvailable (Some a) s) = Blocked"
    and "buf (p_available (snd (releaseWorkerToAvailable (Some a) s))) = map Some q"
    using q3 by simp_all
qed

end
