(* ===== verification/Protocol.thy ===== *)
theory Protocol
  imports GoText "HOL-Library.Word"
begin

unbundle bit_operations_syntax

text \<open>
  \<open>protocol.go\<close>, the wire: frames of a four-byte big-endian length and a payload, written through an
  \<open>io.Writer\<close> that may take a part of the data at a time and read with \<open>io.ReadFull\<close>, the pool of read
  buffers, and the handshake.

  A reader is the bytes it will deliver and the error it returns after them. A writer is a function
  from its state and the data to the count and error that \<open>Write\<close> returns and its next state; what
  is assumed of it is \<open>writer_ok\<close>, the part of the documented contract of \<open>io.Writer\<close> the code relies on.
\<close>

type_synonym byte = "8 word"

definition bytes_of :: "string \<Rightarrow> byte list" where
  "bytes_of s = map (\<lambda>c. of_nat (of_char c)) s"

definition string_of :: "byte list \<Rightarrow> string" where
  "string_of bs = map (\<lambda>b. char_of (unat b)) bs"

section \<open>Constants\<close>

definition defaultBufferSize :: nat where "defaultBufferSize = 65536"
definition MaxPayloadSize :: nat where "MaxPayloadSize = 10485760"
definition MagicHandshake :: string where "MagicHandshake = ''NARYA1''"
definition HandshakeOK :: string where "HandshakeOK = ''OK''"

section \<open>Big-endian lengths\<close>

definition put_uint32 :: "32 word \<Rightarrow> byte list" where
  "put_uint32 v = [ucast (drop_bit 24 v), ucast (drop_bit 16 v), ucast (drop_bit 8 v), ucast v]"

fun get_uint32 :: "byte list \<Rightarrow> 32 word" where
  "get_uint32 (b0 # b1 # b2 # b3 # _) =
     ucast b3 OR push_bit 8 (ucast b2) OR push_bit 16 (ucast b1) OR push_bit 24 (ucast b0)"
| "get_uint32 _ = 0"

lemma get_put_uint32 [simp]: "get_uint32 (put_uint32 v) = v"
proof (rule bit_word_eqI)
  fix n assume "n < LENGTH(32)"
  then consider "n < 8" | "8 \<le> n" "n < 16" | "16 \<le> n" "n < 24" | "24 \<le> n" "n < 32"
    by fastforce
  then show "bit (get_uint32 (put_uint32 v)) n = bit v n"
    by cases (auto simp: put_uint32_def bit_simps)
qed

lemma put_get_uint32: "length bs = 4 \<Longrightarrow> put_uint32 (get_uint32 bs) = bs"
proof -
  assume "length bs = 4"
  then obtain b0 b1 b2 b3 where bs: "bs = [b0, b1, b2, b3]"
    by (auto simp: numeral_eq_Suc length_Suc_conv)
  have "ucast (drop_bit 24 (get_uint32 bs)) = b0" "ucast (drop_bit 16 (get_uint32 bs)) = b1"
    "ucast (drop_bit 8 (get_uint32 bs)) = b2" "ucast (get_uint32 bs) = b3"
    unfolding bs by (rule bit_word_eqI; auto simp: bit_simps dest: bit_imp_le_length)+
  then show ?thesis by (simp add: put_uint32_def bs)
qed

lemma length_put_uint32 [simp]: "length (put_uint32 v) = 4"
  by (simp add: put_uint32_def)

section \<open>Writers\<close>

type_synonym 'w writer = "byte list \<Rightarrow> 'w \<Rightarrow> (int \<times> error option) \<times> 'w"

datatype write_result = WriteOk | WriteErr error | WritePanic

text \<open>
  The loop of \<open>writeFull\<close>. Slicing \<open>data[n:]\<close> with a count outside the data panics, which is what a
  writer that breaks its contract causes.
\<close>

function writeFull :: "'w writer \<Rightarrow> byte list \<Rightarrow> 'w \<Rightarrow> write_result \<times> 'w" where
  "writeFull wr data w =
     (if data = [] then (WriteOk, w)
      else case wr data w of ((n, err), w') \<Rightarrow>
        (case err of
           Some e \<Rightarrow> (WriteErr e, w')
         | None \<Rightarrow> if n = 0 then (WriteErr ShortWrite, w')
                   else if n < 0 \<or> int (length data) < n then (WritePanic, w')
                   else writeFull wr (drop (nat n) data) w'))"
  by pat_completeness auto
termination
  by (relation "measure (\<lambda>(wr, data, w). length data)") auto

declare writeFull.simps [simp del]

definition wrap_write :: "string \<Rightarrow> write_result \<times> 'w \<Rightarrow> write_result \<times> 'w" where
  "wrap_write m r = (case r of (WriteErr e, w) \<Rightarrow> (WriteErr (Wrap m e), w) | other \<Rightarrow> other)"

definition WriteFrame :: "'w writer \<Rightarrow> byte list \<Rightarrow> 'w \<Rightarrow> write_result \<times> 'w" where
  "WriteFrame wr payload w =
     (if length payload > MaxPayloadSize
      then (WriteErr (Msg (''payload exceeds max size: '' @ itoa (int (length payload)) @ '' > ''
                           @ itoa (int MaxPayloadSize))), w)
      else case writeFull wr (put_uint32 (of_nat (length payload))) w of
        (WriteOk, w1) \<Rightarrow> wrap_write ''failed to write payload'' (writeFull wr payload w1)
      | failed \<Rightarrow> wrap_write ''failed to write header'' failed)"

text \<open>
  The contract of a writer, relative to the bytes \<open>out w\<close> that have reached the other side: the
  count is between zero and the length of the data, and that many bytes have been appended.
\<close>

definition writer_ok :: "'w writer \<Rightarrow> ('w \<Rightarrow> byte list) \<Rightarrow> bool" where
  "writer_ok wr out \<longleftrightarrow>
     (\<forall>data w n err w'. wr data w = ((n, err), w') \<longrightarrow>
        0 \<le> n \<and> n \<le> int (length data) \<and> out w' = out w @ take (nat n) data)"

text \<open>A writer that makes progress whenever it reports no error.\<close>

definition writer_progress :: "'w writer \<Rightarrow> bool" where
  "writer_progress wr \<longleftrightarrow> (\<forall>data w. data \<noteq> [] \<longrightarrow> snd (fst (wr data w)) = None \<and> fst (fst (wr data w)) \<noteq> 0)"

lemma writer_okD:
  "writer_ok wr out \<Longrightarrow> wr data w = ((n, err), w') \<Longrightarrow>
   0 \<le> n \<and> n \<le> int (length data) \<and> out w' = out w @ take (nat n) data"
  unfolding writer_ok_def by blast

lemma writeFull_out:
  assumes "writer_ok wr out" and "writeFull wr data w = (r, w')"
  shows "\<exists>k \<le> length data. out w' = out w @ take k data \<and> (r = WriteOk \<longrightarrow> k = length data) \<and> r \<noteq> WritePanic"
  using assms
proof (induction wr data w rule: writeFull.induct)
  case (1 wr data w)
  show ?case
  proof (cases "data = []")
    case True
    with "1.prems" show ?thesis by (simp add: writeFull.simps [of _ "[]"])
  next
    case False
    obtain n err w1 where step: "wr data w = ((n, err), w1)" by (metis surj_pair)
    from writer_okD [OF "1.prems"(1) step] have n: "0 \<le> n" "n \<le> int (length data)"
      and out: "out w1 = out w @ take (nat n) data" by auto
    show ?thesis
    proof (cases "err = None \<and> n \<noteq> 0")
      case True
      with False step n "1.prems"(2) have rest: "writeFull wr (drop (nat n) data) w1 = (r, w')"
        by (subst (asm) writeFull.simps) (simp split: if_splits)
      from "1.IH" [OF False step [symmetric] refl] True n rest "1.prems"(1)
      obtain k where k: "k \<le> length (drop (nat n) data)"
        "out w' = out w1 @ take k (drop (nat n) data)"
        "r = WriteOk \<longrightarrow> k = length (drop (nat n) data)" "r \<noteq> WritePanic"
        by auto
      have "out w' = out w @ take (nat n + k) data"
        using k(2) out by (simp add: take_add)
      with k n show ?thesis by (intro exI [of _ "nat n + k"]) auto
    next
      case False
      with \<open>data \<noteq> []\<close> step n "1.prems"(2) have "w' = w1" and "r = WriteErr (case err of None \<Rightarrow> ShortWrite | Some e \<Rightarrow> e)"
        by (subst (asm) writeFull.simps, auto split: option.splits if_splits)+
      with n out show ?thesis by (intro exI [of _ "nat n"]) auto
    qed
  qed
qed

text \<open>A writer that always makes progress gets all the data.\<close>

lemma writeFull_completes:
  assumes "writer_ok wr out" and "writer_progress wr"
  shows "fst (writeFull wr data w) = WriteOk"
  using assms
proof (induction wr data w rule: writeFull.induct)
  case (1 wr data w)
  show ?case
  proof (cases "data = []")
    case False
    obtain n err w1 where step: "wr data w = ((n, err), w1)" by (metis surj_pair)
    from writer_okD [OF "1.prems"(1) step] have n: "0 \<le> n" "n \<le> int (length data)" by auto
    from "1.prems"(2) False step have ok: "err = None" "n \<noteq> 0"
      unfolding writer_progress_def by (metis fst_conv snd_conv)+
    from "1.IH" [OF False step [symmetric] refl] ok n "1.prems"
    have "fst (writeFull wr (drop (nat n) data) w1) = WriteOk" by auto
    with False step ok n show ?thesis by (subst writeFull.simps) simp
  qed (simp add: writeFull.simps [of _ "[]"])
qed

lemma WriteFrame_out:
  assumes "writer_ok wr out" and "WriteFrame wr payload w = (WriteOk, w')"
  shows "out w' = out w @ put_uint32 (of_nat (length payload)) @ payload"
    and "length payload \<le> MaxPayloadSize"
proof -
  show small: "length payload \<le> MaxPayloadSize"
    using assms(2) by (auto simp: WriteFrame_def split: if_splits)
  let ?h = "put_uint32 (of_nat (length payload))"
  obtain r1 w1 where hd: "writeFull wr ?h w = (r1, w1)" by (metis surj_pair)
  with assms(2) small have r1: "r1 = WriteOk"
    by (auto simp: WriteFrame_def wrap_write_def split: write_result.splits)
  obtain r2 w2 where pl: "writeFull wr payload w1 = (r2, w2)" by (metis surj_pair)
  with assms(2) small hd r1 have "r2 = WriteOk" "w2 = w'"
    by (auto simp: WriteFrame_def wrap_write_def split: write_result.splits)
  with writeFull_out [OF assms(1) hd] writeFull_out [OF assms(1) pl] r1
  show "out w' = out w @ ?h @ payload" by auto
qed

lemma WriteFrame_completes:
  assumes "writer_ok wr out" and "writer_progress wr" and "length payload \<le> MaxPayloadSize"
  shows "fst (WriteFrame wr payload w) = WriteOk"
  using assms writeFull_completes [OF assms(1,2)]
  by (auto simp: WriteFrame_def wrap_write_def split: prod.split write_result.split)
     (metis fst_conv write_result.distinct)+

section \<open>Readers\<close>

record reader =
  rd_data :: "byte list"
  rd_end :: error

text \<open>\<open>io.ReadFull\<close> into a buffer of \<open>n\<close> bytes.\<close>

definition ReadFull :: "nat \<Rightarrow> reader \<Rightarrow> (error + byte list) \<times> reader" where
  "ReadFull n r =
     (if n \<le> length (rd_data r)
      then (Inr (take n (rd_data r)), r\<lparr>rd_data := drop n (rd_data r)\<rparr>)
      else (Inl (if rd_data r \<noteq> [] \<and> rd_end r = EOF then UnexpectedEOF else rd_end r),
            r\<lparr>rd_data := []\<rparr>))"

text \<open>
  The pool of read buffers, by their capacities. \<open>sync.Pool\<close> hands out a buffer that was put back,
  or a new one of \<open>defaultBufferSize\<close> bytes when it has none. The closure \<open>ReadFrame\<close> returns with a
  payload either gives the pooled buffer back or does nothing.
\<close>

definition get_buffer :: "nat list \<Rightarrow> nat \<times> nat list" where
  "get_buffer bufferPool = (case bufferPool of [] \<Rightarrow> (defaultBufferSize, []) | c # cs \<Rightarrow> (c, cs))"

datatype release = ReleaseNothing | ReleaseBuffer nat

fun run_release :: "release \<Rightarrow> nat list \<Rightarrow> nat list" where
  "run_release ReleaseNothing bufferPool = bufferPool"
| "run_release (ReleaseBuffer c) bufferPool = c # bufferPool"

definition ReadFrame ::
  "reader \<Rightarrow> nat list \<Rightarrow> (error + byte list \<times> release) \<times> reader \<times> nat list" where
  "ReadFrame r bufferPool =
     (case ReadFull 4 r of
        (Inl e, r1) \<Rightarrow>
          (Inl (if e = EOF then e else Wrap ''failed to read header'' e), r1, bufferPool)
      | (Inr header, r1) \<Rightarrow>
          let size = unat (get_uint32 header) in
          if size > MaxPayloadSize then
            (Inl (Msg (''payload exceeds limit: '' @ itoa (int size) @ '' > '' @ itoa (int MaxPayloadSize))),
             r1, bufferPool)
          else if size = 0 then (Inl (Msg ''empty payload''), r1, bufferPool)
          else
            let (bcap, pool1) = get_buffer bufferPool in
            if bcap < size then
              let pool2 = bcap # pool1 in
              (case ReadFull size r1 of
                 (Inl e, r2) \<Rightarrow> (Inl (Wrap ''failed to read payload'' e), r2, pool2)
               | (Inr payload, r2) \<Rightarrow> (Inr (payload, ReleaseNothing), r2, pool2))
            else
              (case ReadFull size r1 of
                 (Inl e, r2) \<Rightarrow> (Inl (Wrap ''failed to read payload'' e), r2, bcap # pool1)
               | (Inr payload, r2) \<Rightarrow> (Inr (payload, ReleaseBuffer bcap), r2, pool1)))"

lemma ReadFull_exact [simp]:
  "rd_data r = xs @ ys \<Longrightarrow> length xs = n \<Longrightarrow> ReadFull n r = (Inr xs, r\<lparr>rd_data := ys\<rparr>)"
  by (simp add: ReadFull_def)

lemma unat_length: "n \<le> MaxPayloadSize \<Longrightarrow> unat (of_nat n :: 32 word) = n"
  by (simp add: unat_of_nat MaxPayloadSize_def)

text \<open>
  What \<open>ReadFrame\<close> makes of a well-formed frame, and what it does to the buffer pool: whatever it
  returns, running the release closure leaves the pool with the buffer it took.
\<close>

definition pool_after_get :: "nat list \<Rightarrow> nat list" where
  "pool_after_get bufferPool = (case get_buffer bufferPool of (c, cs) \<Rightarrow> c # cs)"

lemma ReadFrame_frame:
  assumes "rd_data r = put_uint32 (of_nat (length payload)) @ payload @ rest"
    and "payload \<noteq> []" and "length payload \<le> MaxPayloadSize"
  shows "\<exists>rel pool. ReadFrame r bufferPool = (Inr (payload, rel), r\<lparr>rd_data := rest\<rparr>, pool) \<and>
           run_release rel pool = pool_after_get bufferPool"
proof -
  have h: "ReadFull 4 r = (Inr (put_uint32 (of_nat (length payload))), r\<lparr>rd_data := payload @ rest\<rparr>)"
    by (rule ReadFull_exact) (simp_all add: assms(1))
  have p: "ReadFull (length payload) (r\<lparr>rd_data := payload @ rest\<rparr>) =
      (Inr payload, r\<lparr>rd_data := rest\<rparr>)" by simp
  show ?thesis
    using assms(2,3) h p
    by (simp add: ReadFrame_def unat_length pool_after_get_def Let_def split: prod.split)
qed

lemma ReadFrame_pool:
  "ReadFrame r bufferPool = (Inl e, r', pool) \<Longrightarrow> pool = bufferPool \<or> pool = pool_after_get bufferPool"
  by (auto simp: ReadFrame_def pool_after_get_def Let_def split: sum.splits prod.splits if_splits)

lemma ReadFull_Inr:
  "ReadFull n r = (Inr xs, r') \<Longrightarrow> length xs = n \<and> rd_data r = xs @ rd_data r' \<and> rd_end r' = rd_end r"
  by (auto simp: ReadFull_def split: if_splits)

lemma ReadFrame_payload:
  assumes "ReadFrame r bufferPool = (Inr (payload, rel), r', pool)"
  shows "rd_data r = put_uint32 (of_nat (length payload)) @ payload @ rd_data r'"
    and "0 < length payload" and "length payload \<le> MaxPayloadSize"
    and "run_release rel pool = pool_after_get bufferPool"
proof -
  from assms obtain header r1 where h: "ReadFull 4 r = (Inr header, r1)"
    and size: "unat (get_uint32 header) \<le> MaxPayloadSize" "0 < unat (get_uint32 header)"
    and p: "ReadFull (unat (get_uint32 header)) r1 = (Inr payload, r')"
    by (auto simp: ReadFrame_def Let_def split: sum.splits prod.splits if_splits)
  from ReadFull_Inr [OF p] size show "0 < length payload" "length payload \<le> MaxPayloadSize" by auto
  from ReadFull_Inr [OF p] have "get_uint32 header = of_nat (length payload)" by simp
  then have "header = put_uint32 (of_nat (length payload))"
    using ReadFull_Inr [OF h] by (metis put_get_uint32)
  then show "rd_data r = put_uint32 (of_nat (length payload)) @ payload @ rd_data r'"
    using ReadFull_Inr [OF h] ReadFull_Inr [OF p] by simp
  show "run_release rel pool = pool_after_get bufferPool"
    using assms
    by (auto simp: ReadFrame_def pool_after_get_def Let_def split: sum.splits prod.splits if_splits)
qed

section \<open>Handshake\<close>

text \<open>
  \<open>Handshake\<close> writes the magic with one \<open>Write\<close>, whose count it does not look at, and expects exactly
  two bytes back.
\<close>

definition Handshake :: "'w writer \<Rightarrow> 'w \<Rightarrow> reader \<Rightarrow> error option \<times> 'w \<times> reader" where
  "Handshake wr w r =
     (case wr (bytes_of MagicHandshake) w of
        ((n, Some e), w1) \<Rightarrow> (Some (Wrap ''failed to send handshake'' e), w1, r)
      | ((n, None), w1) \<Rightarrow>
          (case ReadFull (length HandshakeOK) r of
             (Inl e, r1) \<Rightarrow> (Some (Wrap ''erro ao ler handshake response'' e), w1, r1)
           | (Inr resp, r1) \<Rightarrow>
               if string_of resp \<noteq> HandshakeOK
               then (Some (Msg (''invalid handshake: expected '' @ HandshakeOK @ '', got '' @ string_of resp)), w1, r1)
               else (None, w1, r1)))"

text \<open>
  With a connection and a positive timeout a deadline is set first; \<open>set_deadline\<close> is what
  \<open>SetDeadline\<close> returns, and \<open>is_conn\<close> says whether the stream is a \<open>net.Conn\<close>. The deadline shows in
  the errors the reader and the writer then return.
\<close>

definition HandshakeWithTimeout ::
  "bool \<Rightarrow> error option \<Rightarrow> int \<Rightarrow> 'w writer \<Rightarrow> 'w \<Rightarrow> reader \<Rightarrow> error option \<times> 'w \<times> reader" where
  "HandshakeWithTimeout is_conn set_deadline timeout wr w r =
     (if is_conn \<and> timeout > 0 \<and> set_deadline \<noteq> None
      then (Some (Wrap ''failed to set handshake deadline'' (the set_deadline)), w, r)
      else Handshake wr w r)"

lemma unat_byte_of_char [simp]: "unat (of_nat (of_char c) :: byte) = of_char c"
  by (simp add: unat_of_nat)

lemma byte_of_char_of [simp]: "(of_nat (unat b mod 256) :: byte) = b"
proof -
  have "unat b < 2 ^ LENGTH(8)" by (rule unsigned_less)
  then show ?thesis by simp
qed

lemma string_of_bytes_of [simp]: "string_of (bytes_of s) = s"
  by (induction s) (simp_all add: string_of_def bytes_of_def)

lemma bytes_of_string_of [simp]: "bytes_of (string_of bs) = bs"
  by (induction bs) (simp_all add: string_of_def bytes_of_def)

end
