(* ===== verification/Spawn.thy ===== *)
theory Spawn
  imports Available Protocol
begin

text \<open>
  Starting a worker process (\<open>worker_spawn.go\<close>; \<open>worker.go\<close>: \<open>buildWorkerCommand\<close>, \<open>lockWorkerSlot\<close>,
  \<open>acquireSpawnSlot\<close>, \<open>releaseSpawnSlot\<close>, \<open>doSpawnWorker\<close>, \<open>abortSpawn\<close>, \<open>spawnWorker\<close>).

  What the operating system and the PHP process answer during one spawn is a \<open>spawn_env\<close>: each
  attempt to listen, the start of the process, whether the process exits on its own before the
  \<open>select\<close>, and which branch of the \<open>select\<close> is taken. Socket files and the time slept between
  attempts are not part of the state: no decision of the pool depends on them.
\<close>

section \<open>The command line\<close>

definition buildWorkerCommand :: "PoolSettings \<Rightarrow> string \<Rightarrow> string list" where
  "buildWorkerCommand ps sockPath =
     ps_phpBinary ps # [ps_workerScript ps, ''--sock'', sockPath] @
     (if ps_maxRequests ps \<ge> 0 then [''--max-requests'', itoa (ps_maxRequests ps)] else [])"

definition sock_path :: "PoolSettings \<Rightarrow> int \<Rightarrow> string" where
  "sock_path ps i = ps_sockDir ps @ ''/worker-'' @ pad3 i @ ''.sock''"

section \<open>Listening\<close>

text \<open>
  An error of \<open>net.Listen\<close>: the error number found by unwrapping an \<open>OpError\<close>, if there is one, and
  the error value itself.
\<close>

datatype listen_error = ListenError "int option" error

fun listen_error_value :: "listen_error \<Rightarrow> error" where
  "listen_error_value (ListenError n e) = e"

definition EADDRINUSE :: int where "EADDRINUSE = 98"

fun isAddrInUse :: "listen_error \<Rightarrow> bool" where
  "isAddrInUse (ListenError n e) = (n = Some EADDRINUSE)"

definition unixBindRetries :: nat where "unixBindRetries = 10"

record listen_attempt =
  la_listen :: "listen_error option"
  la_chmod :: "error option"

definition atomicAddSpawnBindError :: "pool \<Rightarrow> pool" where
  "atomicAddSpawnBindError s = s\<lparr>p_spawnBindErrorsTotal := wrap64 (p_spawnBindErrorsTotal s + 1)\<rparr>"

text \<open>The loop of \<open>listenUnix\<close>, with the number of attempts left and the last error.\<close>

fun listen_loop ::
  "(nat \<Rightarrow> listen_attempt) \<Rightarrow> nat \<Rightarrow> error option \<Rightarrow> pool \<Rightarrow> error option \<times> pool" where
  "listen_loop env 0 lastErr s = (lastErr, atomicAddSpawnBindError s)"
| "listen_loop env (Suc left) lastErr s =
     (let att = env (unixBindRetries - Suc left) in
      case la_listen att of
        None \<Rightarrow> (la_chmod att, s)
      | Some err \<Rightarrow>
          if \<not> isAddrInUse err then (Some (listen_error_value err), s)
          else listen_loop env left (Some (listen_error_value err)) (atomicAddSpawnBindError s))"

definition listenUnix :: "(nat \<Rightarrow> listen_attempt) \<Rightarrow> pool \<Rightarrow> error option \<times> pool" where
  "listenUnix env s = listen_loop env unixBindRetries None s"

section \<open>Spawning\<close>

datatype spawn_event =
    Connected reader "error option" "error option"
  | AcceptFailed error
  | SpawnTimerFired
  | ContextDone

record spawn_env =
  se_hook :: "(error + Worker) option"
  se_mkdir :: "error option"
  se_listen :: "nat \<Rightarrow> listen_attempt"
  se_start :: "error + nat"
  se_crashed :: bool
  se_event :: spawn_event

text \<open>
  \<open>abortSpawn\<close>: closing the worker's connection and the listener and killing the process, for
  whichever of them is given. The reaper of the killed process runs later.
\<close>

definition abortSpawn :: "addr option \<Rightarrow> bool \<Rightarrow> nat option \<Rightarrow> pool \<Rightarrow> pool" where
  "abortSpawn w has_listener proc s =
     (let s1 = (case w of
          Some a \<Rightarrow> upd_worker a (\<lambda>x. x\<lparr>w_conn := NilHandle\<rparr>) s
        | None \<Rightarrow> s);
          s2 = (case proc of Some pid \<Rightarrow> kill_process os_obeysKill pid s1 | None \<Rightarrow> s1)
      in case w of
           Some a \<Rightarrow> upd_worker a (\<lambda>x. x\<lparr>w_listener := NilHandle\<rparr>) s2
         | None \<Rightarrow> s2)"

definition allocate :: "Worker \<Rightarrow> pool \<Rightarrow> addr \<times> pool" where
  "allocate w s =
     (p_nextAddr s, s\<lparr>p_heap := (p_heap s)(p_nextAddr s := w), p_nextAddr := p_nextAddr s + 1\<rparr>)"

definition new_worker :: "int \<Rightarrow> nat \<Rightarrow> pool \<Rightarrow> Worker" where
  "new_worker i pid s =
     \<lparr>w_ID = i, w_Pid = int pid, w_cmd = CmdProcess pid, w_sockPath = sock_path (p_settings s) i,
      w_listener = OpenHandle, w_conn = NilHandle, w_state = WorkerStateStarting,
      w_requestCount = 0, w_startTime = now s, w_lastActiveTime = now s,
      w_respawnStartedAt = None, w_exitCh = make_chan 1, w_waitOnce = False,
      w_reaping = False, w_pooled = True\<rparr>"

definition process_started :: "nat \<Rightarrow> pool \<Rightarrow> pool" where
  "process_started pid s = s\<lparr>p_os := (p_os s)\<lparr>os_alive := (os_alive (p_os s))(pid := True)\<rparr>\<rparr>"

definition process_exited :: "nat \<Rightarrow> pool \<Rightarrow> pool" where
  "process_exited pid s = s\<lparr>p_os := (p_os s)\<lparr>os_alive := (os_alive (p_os s))(pid := False)\<rparr>\<rparr>"

text \<open>The \<open>select\<close> over the accepted connection, the accept error, the timer and the context.\<close>

definition handshake_with ::
  "PoolSettings \<Rightarrow> reader \<Rightarrow> error option \<Rightarrow> error option \<Rightarrow> error option" where
  "handshake_with ps r writeErr deadlineErr =
     fst (HandshakeWithTimeout True deadlineErr (ps_handshakeTimeout ps)
            (\<lambda>data w. ((int (length data), writeErr), w)) () r)"

definition spawn_select :: "addr \<Rightarrow> nat \<Rightarrow> spawn_event \<Rightarrow> pool \<Rightarrow> (error + addr) \<times> pool" where
  "spawn_select a pid ev s =
     (case ev of
        Connected r writeErr deadlineErr \<Rightarrow>
          let s1 = upd_worker a (\<lambda>w. w\<lparr>w_listener := NilHandle, w_conn := OpenHandle\<rparr>) s in
          (case handshake_with (p_settings s) r writeErr deadlineErr of
             Some e \<Rightarrow>
               (Inl (Wrap ''handshake failed'' e),
                abortSpawn (Some a) False (Some pid)
                  (s1\<lparr>p_spawnHandshakeFails := wrap64 (p_spawnHandshakeFails s1 + 1)\<rparr>))
           | None \<Rightarrow> (Inr a, set_state WorkerStateIdle a s1))
      | AcceptFailed e \<Rightarrow>
          (Inl (Wrap ''failed to accept connection'' e), abortSpawn (Some a) True (Some pid) s)
      | SpawnTimerFired \<Rightarrow>
          (Inl (Msg ''timeout waiting for worker connection''),
           abortSpawn (Some a) True (Some pid)
             (s\<lparr>p_spawnTimeoutsTotal := wrap64 (p_spawnTimeoutsTotal s + 1)\<rparr>))
      | ContextDone \<Rightarrow> (Inl Canceled, abortSpawn (Some a) True (Some pid) s))"

definition spawnWorker :: "int \<Rightarrow> spawn_env \<Rightarrow> pool \<Rightarrow> (error + addr) \<times> pool" where
  "spawnWorker i env s =
     (case se_mkdir env of
        Some e \<Rightarrow> (Inl (Wrap ''failed to create socket directory'' e), s)
      | None \<Rightarrow>
          (case listenUnix (se_listen env) s of
             (Some e, s1) \<Rightarrow> (Inl (Wrap ''failed to create UDS listener'' e), s1)
           | (None, s1) \<Rightarrow>
               (case se_start env of
                  Inl e \<Rightarrow> (Inl (Wrap ''failed to start PHP process'' e), abortSpawn None True None s1)
                | Inr pid \<Rightarrow>
                    (case allocate (new_worker i pid s1) (process_started pid s1) of
                       (a, s2) \<Rightarrow>
                         let s3 = startReaper a s2;
                             s4 = (if se_crashed env then reap a (process_exited pid s3) else s3)
                         in spawn_select a pid (se_event env) s4))))"

section \<open>Slots\<close>

text \<open>
  The lock of a worker id, created on first use; \<open>None\<close> is a goroutine that waits for it.
\<close>

definition lockWorkerSlot :: "int \<Rightarrow> pool \<Rightarrow> pool option" where
  "lockWorkerSlot i s =
     (if p_slotLocks s i = Some True then None
      else Some (s\<lparr>p_slotLocks := (p_slotLocks s)(i \<mapsto> True)\<rparr>))"

definition unlockWorkerSlot :: "int \<Rightarrow> pool \<Rightarrow> pool" where
  "unlockWorkerSlot i s = s\<lparr>p_slotLocks := (p_slotLocks s)(i \<mapsto> False)\<rparr>"

definition acquireSpawnSlot :: "pool \<Rightarrow> pool option" where
  "acquireSpawnSlot s =
     map_option (\<lambda>c. s\<lparr>p_spawnSemaphore := c\<rparr>) (sem_acquire (p_ctxDone s) (p_spawnSemaphore s))"

definition releaseSpawnSlot :: "pool \<Rightarrow> pool" where
  "releaseSpawnSlot s = s\<lparr>p_spawnSemaphore := sem_release (p_spawnSemaphore s)\<rparr>"

text \<open>
  \<open>doSpawnWorker\<close> in the parts between which it can block: the id's lock with the in-flight count, a
  spawn slot, and leaving (the deferred calls, in reverse order).
\<close>

definition spawn_lock :: "int \<Rightarrow> pool \<Rightarrow> pool option" where
  "spawn_lock i s =
     map_option (\<lambda>s1. s1\<lparr>p_spawnInFlight := wrap32 (p_spawnInFlight s1 + 1)\<rparr>) (lockWorkerSlot i s)"

definition spawn_enter :: "int \<Rightarrow> pool \<Rightarrow> pool option" where
  "spawn_enter i s = Option.bind (spawn_lock i s) acquireSpawnSlot"

definition spawn_leave :: "int \<Rightarrow> pool \<Rightarrow> pool" where
  "spawn_leave i s =
     (let s1 = releaseSpawnSlot s
      in unlockWorkerSlot i (s1\<lparr>p_spawnInFlight := wrap32 (p_spawnInFlight s1 - 1)\<rparr>))"

definition doSpawnWorker :: "int \<Rightarrow> spawn_env \<Rightarrow> pool \<Rightarrow> ((error + addr) \<times> pool) option" where
  "doSpawnWorker i env s =
     (case se_hook env of
        Some (Inl e) \<Rightarrow> Some (Inl e, s)
      | Some (Inr w) \<Rightarrow> (case allocate w s of (a, s1) \<Rightarrow> Some (Inr a, s1))
      | None \<Rightarrow> map_option (\<lambda>s1. case spawnWorker i env s1 of (r, s2) \<Rightarrow> (r, spawn_leave i s2))
                  (spawn_enter i s))"

section \<open>Lemmas: listening\<close>

lemma bind_error_total:
  "p_spawnBindErrorsTotal (atomicAddSpawnBindError s) = wrap64 (p_spawnBindErrorsTotal s + 1)"
  by (simp add: atomicAddSpawnBindError_def)

text \<open>
  \<open>k\<close> attempts that find the address in use before one that does not, and the run in which every
  attempt finds it in use.
\<close>

definition in_use :: "listen_attempt \<Rightarrow> bool" where
  "in_use att \<longleftrightarrow> (case la_listen att of Some e \<Rightarrow> isAddrInUse e | None \<Rightarrow> False)"

lemma bind_errors_pow:
  "0 \<le> p_spawnBindErrorsTotal s \<Longrightarrow> p_spawnBindErrorsTotal s + int n < 9223372036854775808 \<Longrightarrow>
   p_spawnBindErrorsTotal ((atomicAddSpawnBindError ^^ n) s) = p_spawnBindErrorsTotal s + int n"
  by (induction n) (simp_all add: bind_error_total)

lemma listen_loop_steps:
  assumes "\<forall>i < k. in_use (env (unixBindRetries - left + i))" and "k \<le> left" and "left \<le> unixBindRetries"
    and "0 < k"
  shows "listen_loop env left lastErr s =
     listen_loop env (left - k)
       (Some (listen_error_value (the (la_listen (env (unixBindRetries - left + (k - 1)))))))
       ((atomicAddSpawnBindError ^^ k) s)"
  using assms
proof (induction k arbitrary: left lastErr s)
  case (Suc k)
  then obtain l where l: "left = Suc l" by (cases left) auto
  from Suc.prems(1) have first: "in_use (env (unixBindRetries - left))" by force
  then obtain e where e: "la_listen (env (unixBindRetries - left)) = Some e" "isAddrInUse e"
    by (auto simp: in_use_def split: option.splits)
  have step: "listen_loop env left lastErr s =
      listen_loop env l (Some (listen_error_value e)) (atomicAddSpawnBindError s)"
    using e l by simp
  show ?case
  proof (cases "k = 0")
    case True
    with step l e show ?thesis by simp
  next
    case False
    have idx: "unixBindRetries - l + i = unixBindRetries - left + Suc i" for i
      using l Suc.prems(3) by simp
    have "listen_loop env l (Some (listen_error_value e)) (atomicAddSpawnBindError s) =
        listen_loop env (l - k)
          (Some (listen_error_value (the (la_listen (env (unixBindRetries - l + (k - 1)))))))
          ((atomicAddSpawnBindError ^^ k) (atomicAddSpawnBindError s))"
    proof (rule Suc.IH)
      show "\<forall>i<k. in_use (env (unixBindRetries - l + i))"
        using Suc.prems(1) idx by auto
    qed (use Suc.prems l False in auto)
    with step l idx [of "k - 1"] False show ?thesis
      by (simp add: funpow_swap1)
  qed
qed simp

lemma listenUnix_first_free:
  assumes used: "\<forall>i < k. in_use (env i)" and "k < unixBindRetries" and free: "\<not> in_use (env k)"
  shows "listenUnix env s =
     ((case la_listen (env k) of None \<Rightarrow> la_chmod (env k) | Some e \<Rightarrow> Some (listen_error_value e)),
      (atomicAddSpawnBindError ^^ k) s)"
proof -
  have stop: "listen_loop env (unixBindRetries - k) le s' =
      ((case la_listen (env k) of None \<Rightarrow> la_chmod (env k) | Some e \<Rightarrow> Some (listen_error_value e)), s')"
    for le s'
  proof -
    obtain l where l: "unixBindRetries - k = Suc l" using assms(2) by (cases "unixBindRetries - k") auto
    then have "unixBindRetries - Suc l = k" using assms(2) by simp
    with free show ?thesis unfolding l by (auto simp: in_use_def split: option.splits)
  qed
  show ?thesis
  proof (cases "k = 0")
    case True
    with stop show ?thesis by (simp add: listenUnix_def)
  next
    case False
    with listen_loop_steps [of k env unixBindRetries None s] used assms(2) stop
    show ?thesis by (simp add: listenUnix_def)
  qed
qed

lemma listenUnix_all_used:
  assumes "\<forall>i < unixBindRetries. in_use (env i)"
  shows "listenUnix env s =
     (Some (listen_error_value (the (la_listen (env 9)))), (atomicAddSpawnBindError ^^ 11) s)"
proof -
  have "listen_loop env unixBindRetries None s =
      listen_loop env 0 (Some (listen_error_value (the (la_listen (env 9)))))
        ((atomicAddSpawnBindError ^^ unixBindRetries) s)"
    using listen_loop_steps [of unixBindRetries env unixBindRetries None s] assms
    by (simp add: unixBindRetries_def)
  then show ?thesis by (simp add: listenUnix_def unixBindRetries_def numeral_eq_Suc)
qed

section \<open>Lemmas: spawning\<close>

lemma tidy_bind_error: "tidy s (atomicAddSpawnBindError s)"
  by (simp add: atomicAddSpawnBindError_def tidy_def now_def)

lemma tidy_listen_loop: "tidy s (snd (listen_loop env left le s))"
proof (induction left arbitrary: le s)
  case 0
  then show ?case by (simp add: tidy_bind_error)
next
  case (Suc left)
  show ?case
    by (auto simp: Let_def split: option.split intro: tidy_trans [OF tidy_bind_error Suc.IH])
qed

lemma tidy_listenUnix: "tidy s (snd (listenUnix env s))"
  by (simp add: listenUnix_def tidy_listen_loop)

lemma bind_error_frame [simp]:
  "p_heap (atomicAddSpawnBindError s) = p_heap s" "p_os (atomicAddSpawnBindError s) = p_os s"
  "p_tasks (atomicAddSpawnBindError s) = p_tasks s" "p_workers (atomicAddSpawnBindError s) = p_workers s"
  "p_nextAddr (atomicAddSpawnBindError s) = p_nextAddr s"
  "p_available (atomicAddSpawnBindError s) = p_available s"
  "p_runtime (atomicAddSpawnBindError s) = p_runtime s"
  "p_activeWorkers (atomicAddSpawnBindError s) = p_activeWorkers s"
  "p_spawnInFlight (atomicAddSpawnBindError s) = p_spawnInFlight s"
  by (simp_all add: atomicAddSpawnBindError_def)

text \<open>Whatever ignores the counter of bind errors is left alone by \<open>listenUnix\<close>.\<close>

lemma listen_loop_frame:
  assumes "\<And>s. f (atomicAddSpawnBindError s) = f s"
  shows "f (snd (listen_loop env left le s)) = f s"
  by (induction env left le s rule: listen_loop.induct) (auto simp: assms Let_def split: option.split)

lemma listenUnix_frame [simp]:
  "p_heap (snd (listenUnix env s)) = p_heap s" "p_os (snd (listenUnix env s)) = p_os s"
  "p_tasks (snd (listenUnix env s)) = p_tasks s" "p_workers (snd (listenUnix env s)) = p_workers s"
  "p_nextAddr (snd (listenUnix env s)) = p_nextAddr s" "p_available (snd (listenUnix env s)) = p_available s"
  "p_runtime (snd (listenUnix env s)) = p_runtime s"
  "p_activeWorkers (snd (listenUnix env s)) = p_activeWorkers s"
  "p_spawnInFlight (snd (listenUnix env s)) = p_spawnInFlight s"
  unfolding listenUnix_def by (rule listen_loop_frame, simp)+

text \<open>A handshake that succeeds has read exactly the two expected bytes.\<close>

lemma handshake_reply:
  assumes "handshake_with ps r we de = None"
  shows "take 2 (rd_data r) = bytes_of HandshakeOK" and "we = None"
proof -
  from assms have h: "fst (Handshake (\<lambda>data w. ((int (length data), we), w)) () r) = None"
    by (auto simp: handshake_with_def HandshakeWithTimeout_def split: if_splits)
  then show "we = None" by (auto simp: Handshake_def split: option.splits)
  from h have "2 \<le> length (rd_data r) \<and> string_of (take 2 (rd_data r)) = HandshakeOK"
    by (auto simp: Handshake_def ReadFull_def HandshakeOK_def numeral_2_eq_2 split: option.splits if_splits)
  then show "take 2 (rd_data r) = bytes_of HandshakeOK"
    by (metis bytes_of_string_of)
qed

text \<open>The frame of a spawn: it adds one struct, at a fresh address, and starts no other goroutine than its reaper's.\<close>

lemma abortSpawn_frame [simp]:
  "p_workers (abortSpawn w l p s) = p_workers s" "p_available (abortSpawn w l p s) = p_available s"
  "p_runtime (abortSpawn w l p s) = p_runtime s" "p_settings (abortSpawn w l p s) = p_settings s"
  "p_activeWorkers (abortSpawn w l p s) = p_activeWorkers s" "p_nextAddr (abortSpawn w l p s) = p_nextAddr s"
  "p_spawnInFlight (abortSpawn w l p s) = p_spawnInFlight s"
  "w \<noteq> Some b \<Longrightarrow> worker (abortSpawn w l p s) b = worker s b"
  by (auto simp: abortSpawn_def Let_def kill_process_def split: option.split)

lemma abortSpawn_kills:
  "os_obeysKill (p_os s) pid \<Longrightarrow> \<not> os_alive (p_os (abortSpawn w l (Some pid) s)) pid"
  by (auto simp: abortSpawn_def Let_def kill_process_def split: option.split)

lemma spawn_select_ok:
  assumes "spawn_select a pid ev s = (Inr b, s')"
  shows "b = a" and "\<exists>r de. ev = Connected r None de \<and> take 2 (rd_data r) = bytes_of HandshakeOK"
    and "worker s' a = (worker s a)\<lparr>w_listener := NilHandle, w_conn := OpenHandle, w_state := WorkerStateIdle\<rparr>"
    and "p_os s' = p_os s"
proof -
  from assms obtain r we de where ev: "ev = Connected r we de" and h: "handshake_with (p_settings s) r we de = None"
    and "b = a" and s': "s' = set_state WorkerStateIdle a
        (upd_worker a (\<lambda>w. w\<lparr>w_listener := NilHandle, w_conn := OpenHandle\<rparr>) s)"
    by (auto simp: spawn_select_def Let_def split: spawn_event.splits option.splits)
  then show "b = a" and "p_os s' = p_os s"
    and "worker s' a = (worker s a)\<lparr>w_listener := NilHandle, w_conn := OpenHandle, w_state := WorkerStateIdle\<rparr>"
    by (simp_all add: set_state_def)
  from handshake_reply [OF h] ev
  show "\<exists>r de. ev = Connected r None de \<and> take 2 (rd_data r) = bytes_of HandshakeOK" by blast
qed

lemma spawn_select_error:
  assumes "spawn_select a pid ev s = (Inl e, s')" and "os_obeysKill (p_os s) pid"
  shows "\<not> os_alive (p_os s') pid"
  using assms
  by (auto simp: spawn_select_def Let_def abortSpawn_kills split: spawn_event.splits option.splits)

lemma spawn_select_frame:
  "p_workers (snd (spawn_select a pid ev s)) = p_workers s"
  "p_available (snd (spawn_select a pid ev s)) = p_available s"
  "p_runtime (snd (spawn_select a pid ev s)) = p_runtime s"
  "p_activeWorkers (snd (spawn_select a pid ev s)) = p_activeWorkers s"
  "p_nextAddr (snd (spawn_select a pid ev s)) = p_nextAddr s"
  "p_spawnInFlight (snd (spawn_select a pid ev s)) = p_spawnInFlight s"
  "b \<noteq> a \<Longrightarrow> worker (snd (spawn_select a pid ev s)) b = worker s b"
  by (auto simp: spawn_select_def Let_def split: spawn_event.split option.split)

text \<open>The state the \<open>select\<close> of a spawn starts from, once the process runs.\<close>

definition spawn_running :: "int \<Rightarrow> nat \<Rightarrow> bool \<Rightarrow> pool \<Rightarrow> pool" where
  "spawn_running i pid crashed s =
     (let s3 = startReaper (p_nextAddr s) (snd (allocate (new_worker i pid s) (process_started pid s)))
      in if crashed then reap (p_nextAddr s) (process_exited pid s3) else s3)"

lemma spawnWorker_cases:
  obtains (failed) e s1 where "spawnWorker i env s = (Inl e, s1)"
      "s1 = s \<or> s1 = snd (listenUnix (se_listen env) s)"
  | (running) pid s1 where "se_start env = Inr pid" "s1 = snd (listenUnix (se_listen env) s)"
      "spawnWorker i env s = spawn_select (p_nextAddr s1) pid (se_event env) (spawn_running i pid (se_crashed env) s1)"
proof -
  obtain le s1 where l: "listenUnix (se_listen env) s = (le, s1)" by fastforce
  then have s1: "s1 = snd (listenUnix (se_listen env) s)" by simp
  consider e where "se_mkdir env = Some e" | e where "se_mkdir env = None" "le = Some e"
    | e where "se_mkdir env = None" "le = None" "se_start env = Inl e"
    | pid where "se_mkdir env = None" "le = None" "se_start env = Inr pid"
    by (cases "se_mkdir env"; cases le; cases "se_start env") auto
  then show ?thesis
  proof cases
    case 1
    then show ?thesis by (intro failed [of _ s]) (simp_all add: spawnWorker_def)
  next
    case 2
    then have "spawnWorker i env s = (Inl (Wrap ''failed to create UDS listener'' e), s1)"
      by (simp add: spawnWorker_def l)
    then show ?thesis by (rule failed) (simp add: s1)
  next
    case 3
    then have "spawnWorker i env s = (Inl (Wrap ''failed to start PHP process'' e), s1)"
      by (simp add: spawnWorker_def l abortSpawn_def)
    then show ?thesis by (rule failed) (simp add: s1)
  next
    case 4
    then show ?thesis
      using l by (intro running [OF _ s1]) (auto simp: spawnWorker_def spawn_running_def allocate_def Let_def
          process_started_def new_worker_def now_def)
  qed
qed

lemma spawn_running_frame [simp]:
  "p_workers (spawn_running i pid c s) = p_workers s" "p_available (spawn_running i pid c s) = p_available s"
  "p_runtime (spawn_running i pid c s) = p_runtime s" "p_activeWorkers (spawn_running i pid c s) = p_activeWorkers s"
  "p_nextAddr (spawn_running i pid c s) = p_nextAddr s + 1"
  "p_spawnInFlight (spawn_running i pid c s) = p_spawnInFlight s"
  "os_obeysKill (p_os (spawn_running i pid c s)) = os_obeysKill (p_os s)"
  "w_ID (worker (spawn_running i pid c s) (p_nextAddr s)) = i"
  "w_cmd (worker (spawn_running i pid c s) (p_nextAddr s)) = CmdProcess pid"
  "os_alive (p_os (spawn_running i pid c s)) pid = (\<not> c)"
  "b \<noteq> p_nextAddr s \<Longrightarrow> worker (spawn_running i pid c s) b = worker s b"
  by (simp_all add: spawn_running_def Let_def startReaper_def allocate_def process_started_def
      process_exited_def new_worker_def reap_def)

text \<open>The frame of \<open>spawnWorker\<close>.\<close>

lemma spawnWorker_frame:
  "p_workers (snd (spawnWorker i env s)) = p_workers s"
  "p_available (snd (spawnWorker i env s)) = p_available s"
  "p_runtime (snd (spawnWorker i env s)) = p_runtime s"
  "p_activeWorkers (snd (spawnWorker i env s)) = p_activeWorkers s"
  "p_spawnInFlight (snd (spawnWorker i env s)) = p_spawnInFlight s"
  "b \<noteq> p_nextAddr s \<Longrightarrow> worker (snd (spawnWorker i env s)) b = worker s b"
  by (cases rule: spawnWorker_cases [of i env s]; auto simp: spawn_select_frame)+

lemma spawnWorker_ok:
  assumes "spawnWorker i env s = (Inr a, s')"
  shows "a = p_nextAddr s" and "w_ID (worker s' a) = i" and "state_of s' a = WorkerStateIdle"
    and "w_conn (worker s' a) = OpenHandle" and "w_listener (worker s' a) = NilHandle"
    and "\<exists>pid. se_start env = Inr pid \<and> w_cmd (worker s' a) = CmdProcess pid \<and>
           os_alive (p_os s') pid = (\<not> se_crashed env)"
    and "\<exists>r de. se_event env = Connected r None de \<and> take 2 (rd_data r) = bytes_of HandshakeOK"
proof -
  from assms obtain pid s1 where st: "se_start env = Inr pid" and s1: "s1 = snd (listenUnix (se_listen env) s)"
    and sel: "spawn_select (p_nextAddr s1) pid (se_event env) (spawn_running i pid (se_crashed env) s1) = (Inr a, s')"
    by (cases rule: spawnWorker_cases [of i env s]) auto
  note ok = spawn_select_ok [OF sel]
  from ok(1) have a1: "a = p_nextAddr s1" .
  with s1 show "a = p_nextAddr s" by simp
  note run = spawn_running_frame(8-10) [of i pid "se_crashed env" s1]
  note w = ok(3) [folded a1]
  show "w_ID (worker s' a) = i" using run(1) unfolding w by (simp add: a1)
  show "state_of s' a = WorkerStateIdle" "w_conn (worker s' a) = OpenHandle"
    "w_listener (worker s' a) = NilHandle" unfolding w by simp_all
  have "w_cmd (worker s' a) = CmdProcess pid" using run(2) unfolding w by (simp add: a1)
  moreover have "os_alive (p_os s') pid = (\<not> se_crashed env)" using run(3) ok(4) by (simp only:)
  ultimately show "\<exists>pid. se_start env = Inr pid \<and> w_cmd (worker s' a) = CmdProcess pid \<and>
           os_alive (p_os s') pid = (\<not> se_crashed env)" using st by blast
  from ok(2) show "\<exists>r de. se_event env = Connected r None de \<and> take 2 (rd_data r) = bytes_of HandshakeOK" .
qed

lemma spawnWorker_error:
  assumes "spawnWorker i env s = (Inl e, s')" and "se_start env = Inr pid"
    and "os_obeysKill (p_os s) pid" and "\<not> os_alive (p_os s) pid"
  shows "\<not> os_alive (p_os s') pid"
proof (cases rule: spawnWorker_cases [of i env s])
  case (failed e' s1)
  with assms show ?thesis by auto
next
  case (running pid' s1)
  with assms have "pid' = pid"
    "spawn_select (p_nextAddr s1) pid (se_event env) (spawn_running i pid (se_crashed env) s1) = (Inl e, s')"
    by simp_all
  with spawn_select_error assms(3) running(2) show ?thesis by simp
qed

end
