(* ===== verification/Request.thy ===== *)
theory Request
  imports Protocol GoChan
begin

text \<open>
  \<open>protocol.go\<close>, the messages: requests, responses, the pool of request structs, request ids, and
  the four message operations over frames. The encoding itself is package \<open>msgpack\<close>'s: \<open>encode\<close> gives
  the bytes it has written and its error, \<open>decode\<close> the value or the error, and \<open>grow\<close> the capacity
  a \<open>bytes.Buffer\<close> has after a number of bytes were written to it.
\<close>

text \<open>A byte slice: nil, or its contents with its capacity.\<close>

datatype slice = NilSlice | Slice "byte list" nat

fun slice_bytes :: "slice \<Rightarrow> byte list" where
  "slice_bytes NilSlice = []"
| "slice_bytes (Slice bs c) = bs"

fun slice_cap :: "slice \<Rightarrow> nat" where
  "slice_cap NilSlice = 0"
| "slice_cap (Slice bs c) = c"

fun slice_empty :: "slice \<Rightarrow> slice" where
  "slice_empty NilSlice = NilSlice"
| "slice_empty (Slice bs c) = Slice [] c"

record Request =
  req_ID :: "64 word"
  req_Method :: string
  req_URI :: string
  req_Path :: string
  req_Query :: string
  req_Protocol :: string
  req_Headers :: "(string, string list) gomap"
  req_Body :: slice
  req_Server :: "(string, string) gomap"
  req_RemoteAddr :: string
  req_Host :: string
  req_Scheme :: string
  req_TimeoutMs :: int
  req_Meta :: "(string, string) gomap"
  req_WorkerID :: string
  req_RuntimeVersion :: string

record ResponseMeta =
  rm_ReqCount :: int
  rm_MemUsage :: int
  rm_MemPeak :: int
  rm_Recycle :: bool

record Response =
  resp_ID :: "64 word"
  resp_Status :: int
  resp_Headers :: "(string, string list) gomap"
  resp_Body :: "byte list"
  resp_Error :: string
  resp_Meta :: ResponseMeta

definition MaxReusableBodyCap :: nat where "MaxReusableBodyCap = 262144"
definition MaxReusableMsgpackCap :: nat where "MaxReusableMsgpackCap = 262144"
definition MaxReusableHeadersCount :: nat where "MaxReusableHeadersCount = 128"
definition MaxReusableServerCount :: nat where "MaxReusableServerCount = 128"

section \<open>The pool of request structs\<close>

definition new_request :: Request where
  "new_request =
     \<lparr>req_ID = 0, req_Method = '''', req_URI = '''', req_Path = '''', req_Query = '''',
      req_Protocol = '''', req_Headers = [], req_Body = NilSlice, req_Server = [],
      req_RemoteAddr = '''', req_Host = '''', req_Scheme = '''', req_TimeoutMs = 0,
      req_Meta = [], req_WorkerID = '''', req_RuntimeVersion = ''''\<rparr>"

definition resetRequestForPool :: "Request \<Rightarrow> Request" where
  "resetRequestForPool r =
     r\<lparr>req_ID := 0, req_Method := '''', req_URI := '''', req_Path := '''', req_Query := '''',
       req_Protocol := '''',
       req_Body := (if slice_cap (req_Body r) > MaxReusableBodyCap then NilSlice
                    else slice_empty (req_Body r)),
       req_RemoteAddr := '''', req_Host := '''', req_Scheme := '''', req_TimeoutMs := 0,
       req_WorkerID := '''', req_RuntimeVersion := '''',
       req_Headers := (if length (req_Headers r) > MaxReusableHeadersCount then []
                       else clear_map (req_Headers r)),
       req_Server := (if length (req_Server r) > MaxReusableServerCount then []
                      else clear_map (req_Server r)),
       req_Meta := clear_map (req_Meta r)\<rparr>"

definition AcquireRequest :: "Request list \<Rightarrow> Request \<times> Request list" where
  "AcquireRequest requestPool =
     (case requestPool of [] \<Rightarrow> (new_request, []) | r # rs \<Rightarrow> (r, rs))"

definition ReleaseRequest :: "Request \<Rightarrow> Request list \<Rightarrow> Request list" where
  "ReleaseRequest r requestPool = resetRequestForPool r # requestPool"

text \<open>A struct that carries nothing of the request it served: only the capacity of its body is left.\<close>

definition request_blank :: "Request \<Rightarrow> bool" where
  "request_blank r \<longleftrightarrow>
     r = new_request\<lparr>req_Body := req_Body r\<rparr> \<and> slice_bytes (req_Body r) = [] \<and>
     slice_cap (req_Body r) \<le> MaxReusableBodyCap"

lemma reset_blank: "request_blank (resetRequestForPool r)"
  by (cases r; cases "req_Body r")
     (simp_all add: request_blank_def resetRequestForPool_def new_request_def MaxReusableBodyCap_def)

lemma new_request_blank [simp]: "request_blank new_request"
  by (simp add: request_blank_def new_request_def)

lemma acquire_blank:
  "list_all request_blank requestPool \<Longrightarrow>
   request_blank (fst (AcquireRequest requestPool)) \<and> list_all request_blank (snd (AcquireRequest requestPool))"
  by (auto simp: AcquireRequest_def split: list.splits)

lemma release_blank:
  "list_all request_blank requestPool \<Longrightarrow> list_all request_blank (ReleaseRequest r requestPool)"
  by (simp add: ReleaseRequest_def reset_blank)

section \<open>Ids\<close>

text \<open>
  A source of ids: a counter that every call advances by one. What its clients rely on is that the
  ids of different calls differ; the locale states it for any such source with at most \<open>bound\<close> ids,
  and it is interpreted on the request counter here and on the pool's worker counter later.
\<close>

locale id_source =
  fixes next_id :: "'s \<Rightarrow> 'i \<times> 's"
    and count :: "'s \<Rightarrow> nat"
    and name :: "nat \<Rightarrow> 'i"
    and bound :: nat
  assumes next_name: "count s < bound \<Longrightarrow> fst (next_id s) = name (count s)"
    and next_count: "count s < bound \<Longrightarrow> count (snd (next_id s)) = Suc (count s)"
    and name_inj: "i < bound \<Longrightarrow> j < bound \<Longrightarrow> name i = name j \<Longrightarrow> i = j"
begin

primrec ids :: "nat \<Rightarrow> 's \<Rightarrow> 'i list" where
  "ids 0 s = []"
| "ids (Suc n) s = fst (next_id s) # ids n (snd (next_id s))"

lemma ids_names: "count s + n \<le> bound \<Longrightarrow> ids n s = map name [count s ..< count s + n]"
proof (induction n arbitrary: s)
  case (Suc n)
  then have "count s < bound" and "count (snd (next_id s)) + n \<le> bound"
    by (auto simp: next_count)
  with Suc.IH [of "snd (next_id s)"] show ?case
    by (simp add: next_name next_count upt_conv_Cons del: upt_Suc)
qed simp

lemma ids_distinct: "count s + n \<le> bound \<Longrightarrow> distinct (ids n s)"
  by (auto simp: ids_names distinct_map intro!: inj_onI dest: name_inj [rotated 2])

end

definition NextRequestID :: "64 word \<Rightarrow> 64 word \<times> 64 word" where
  "NextRequestID requestIDCounter = (requestIDCounter + 1, requestIDCounter + 1)"

fun request_ids :: "nat \<Rightarrow> 64 word \<Rightarrow> 64 word list" where
  "request_ids 0 c = []"
| "request_ids (Suc n) c = fst (NextRequestID c) # request_ids n (snd (NextRequestID c))"

lemma word64_name_inj:
  "i < 2 ^ 64 - 1 \<Longrightarrow> j < 2 ^ 64 - 1 \<Longrightarrow> (of_nat (Suc i) :: 64 word) = of_nat (Suc j) \<Longrightarrow> i = j"
  by (drule arg_cong [of _ _ unat]) (simp add: unat_of_nat del: of_nat_Suc)

lemma unat_inc: "unat (c :: 64 word) < 2 ^ 64 - 1 \<Longrightarrow> unat (c + 1) = Suc (unat c)"
  by (simp add: unat_word_ariths)

interpretation request_source:
  id_source NextRequestID unat "\<lambda>i. of_nat (Suc i)" "2 ^ 64 - 1"
proof unfold_locales
  fix i j :: nat
  show "i < 2 ^ 64 - 1 \<Longrightarrow> j < 2 ^ 64 - 1 \<Longrightarrow> (of_nat (Suc i) :: 64 word) = of_nat (Suc j) \<Longrightarrow> i = j"
    by (rule word64_name_inj)
qed (simp_all add: NextRequestID_def unat_inc)

lemma request_ids_source: "request_ids n c = request_source.ids n c"
  by (induction n arbitrary: c) simp_all

section \<open>Messages\<close>

text \<open>
  \<open>SendRequest\<close> encodes into a pooled buffer (\<open>caps\<close> is the pool, by capacity; a new buffer has
  none), writes one frame, and puts the buffer back unless it has grown too large.
\<close>

definition keep_buffer :: "nat \<Rightarrow> nat list \<Rightarrow> nat list" where
  "keep_buffer c caps = (if c \<le> MaxReusableMsgpackCap then c # caps else caps)"

definition SendRequest ::
  "('q \<Rightarrow> byte list \<times> error option) \<Rightarrow> (nat \<Rightarrow> nat \<Rightarrow> nat) \<Rightarrow> 'w writer \<Rightarrow> 'q \<Rightarrow>
   'w \<Rightarrow> nat list \<Rightarrow> write_result \<times> 'w \<times> nat list" where
  "SendRequest encode grow wr req w caps =
     (let (c0, caps1) = (case caps of [] \<Rightarrow> (0, []) | c # cs \<Rightarrow> (c, cs));
          (bytes, err) = encode req;
          c = grow c0 (length bytes)
      in case err of
           Some e \<Rightarrow> (WriteErr (Wrap ''failed to serialize request'' e), w, keep_buffer c caps1)
         | None \<Rightarrow> (case WriteFrame wr bytes w of (r, w') \<Rightarrow> (r, w', keep_buffer c caps1)))"

definition ReceiveResponse ::
  "(byte list \<Rightarrow> error + 'm) \<Rightarrow> reader \<Rightarrow> nat list \<Rightarrow> (error + 'm) \<times> reader \<times> nat list" where
  "ReceiveResponse decode r bufferPool =
     (case ReadFrame r bufferPool of
        (Inl e, r', pool) \<Rightarrow> (Inl e, r', pool)
      | (Inr (payload, rel), r', pool) \<Rightarrow>
          ((case decode payload of
              Inl e \<Rightarrow> Inl (Wrap ''failed to deserialize response'' e)
            | Inr m \<Rightarrow> Inr m), r', run_release rel pool))"

definition SendResponse ::
  "('m \<Rightarrow> error + byte list) \<Rightarrow> 'w writer \<Rightarrow> 'm \<Rightarrow> 'w \<Rightarrow> write_result \<times> 'w" where
  "SendResponse marshal wr resp w =
     (case marshal resp of
        Inl e \<Rightarrow> (WriteErr (Wrap ''failed to serialize response'' e), w)
      | Inr payload \<Rightarrow> WriteFrame wr payload w)"

definition ReceiveRequest ::
  "(byte list \<Rightarrow> error + 'm) \<Rightarrow> reader \<Rightarrow> nat list \<Rightarrow> (error + 'm) \<times> reader \<times> nat list" where
  "ReceiveRequest decode r bufferPool =
     (case ReadFrame r bufferPool of
        (Inl e, r', pool) \<Rightarrow> (Inl e, r', pool)
      | (Inr (payload, rel), r', pool) \<Rightarrow>
          ((case decode payload of
              Inl e \<Rightarrow> Inl (Wrap ''failed to deserialize request'' e)
            | Inr m \<Rightarrow> Inr m), r', run_release rel pool))"

lemma SendRequest_pool:
  "list_all (\<lambda>c. c \<le> MaxReusableMsgpackCap) caps \<Longrightarrow>
   SendRequest encode grow wr req w caps = (res, w', caps') \<Longrightarrow>
   list_all (\<lambda>c. c \<le> MaxReusableMsgpackCap) caps'"
  by (auto simp: SendRequest_def keep_buffer_def Let_def split: list.splits prod.splits option.splits if_splits)

lemma SendRequest_out:
  assumes "writer_ok wr out" and "encode req = (payload, None)"
    and "SendRequest encode grow wr req w caps = (WriteOk, w', caps')"
  shows "out w' = out w @ put_uint32 (of_nat (length payload)) @ payload"
    and "length payload \<le> MaxPayloadSize"
proof -
  from assms(2,3) have "WriteFrame wr payload w = (WriteOk, w')"
    by (auto simp: SendRequest_def Let_def split: prod.splits)
  with WriteFrame_out [OF assms(1)]
  show "out w' = out w @ put_uint32 (of_nat (length payload)) @ payload"
    and "length payload \<le> MaxPayloadSize" by blast+
qed

lemma SendRequest_completes:
  assumes "writer_ok wr out" and "writer_progress wr" and "encode req = (payload, None)"
    and "length payload \<le> MaxPayloadSize"
  shows "\<exists>w' caps'. SendRequest encode grow wr req w caps = (WriteOk, w', caps') \<and>
     out w' = out w @ put_uint32 (of_nat (length payload)) @ payload"
proof -
  have "fst (WriteFrame wr payload w) = WriteOk" by (rule WriteFrame_completes [OF assms(1,2,4)])
  then obtain w' where wf: "WriteFrame wr payload w = (WriteOk, w')" by (metis prod.collapse)
  with assms(3) have "\<exists>caps'. SendRequest encode grow wr req w caps = (WriteOk, w', caps')"
    by (cases caps) (auto simp: SendRequest_def Let_def)
  with WriteFrame_out(1) [OF assms(1) wf] show ?thesis by blast
qed

lemma receive_frame:
  assumes "rd_data r = put_uint32 (of_nat (length payload)) @ payload @ rest"
    and "payload \<noteq> []" and "length payload \<le> MaxPayloadSize" and "decode payload = Inr m"
  shows "ReceiveRequest decode r bufferPool = (Inr m, r\<lparr>rd_data := rest\<rparr>, pool_after_get bufferPool)"
    and "ReceiveResponse decode r bufferPool = (Inr m, r\<lparr>rd_data := rest\<rparr>, pool_after_get bufferPool)"
  using ReadFrame_frame [OF assms(1-3), of bufferPool] assms(4)
  by (auto simp: ReceiveRequest_def ReceiveResponse_def)

end
