(* ===== verification/Scale.thy ===== *)
theory Scale
  imports Spawn Request
begin

text \<open>
  Growing and shrinking the pool (\<open>worker.go\<close>: \<open>scheduleRespawn\<close>'s goroutine, \<open>respawnWorker\<close>,
  \<open>addWorker\<close>, \<open>removeWorker\<close>, \<open>ensureMinWorkers\<close>, \<open>onWorkerProcessExit\<close>).

  The goroutines of \<open>scheduleRespawn\<close> and \<open>addWorker\<close> take the answers of the operating system as a
  \<open>spawn_env\<close>. \<open>None\<close> is a goroutine that cannot run yet, because it would wait for a spawn slot, for a
  respawn slot or for the lock of its worker id; \<open>addWorker\<close> itself is \<open>None\<close> when its
  compare-and-swap loop does not end. A release that blocks on the full queue leaves the goroutine
  parked, with what it still holds.
\<close>

definition add_active :: "int \<Rightarrow> pool \<Rightarrow> pool" where
  "add_active n s = s\<lparr>p_activeWorkers := wrap32 (p_activeWorkers s + n)\<rparr>"

definition park :: "addr \<Rightarrow> sender \<Rightarrow> pool \<Rightarrow> pool" where
  "park a from s = s\<lparr>p_parked := p_parked s @ [(a, from)]\<rparr>"

section \<open>Keeping the minimum\<close>

definition ensureMinWorkers :: "pool \<Rightarrow> pool" where
  "ensureMinWorkers s =
     (case spawnCircuitOpen s of
        (True, s1) \<Rightarrow> s1
      | (False, s1) \<Rightarrow>
          let s2 = snd (pruneDeadWorkers s1) in
          if p_ensureMinLast s2 \<noteq> None \<and> since s2 (p_ensureMinLast s2) < ps_ensureMinDebounce (p_settings s2)
          then s2
          else
            let s3 = s2\<lparr>p_ensureMinLast := Some (now s2)\<rparr>;
                min = GetMinWorkers (p_runtime s3);
                max = GetMaxWorkers (p_runtime s3);
                ready = countReadyWorkers s3;
                inFlight = p_spawnInFlight s3;
                living = livingWorkerCount s3;
                need = min - ready - inFlight
            in if need \<le> 0 then s3
               else if living + inFlight \<ge> max then s3
               else
                 let need' = (if need > max - living - inFlight then max - living - inFlight else need)
                 in if need' \<le> 0 then s3 else (go GoAddWorker ^^ nat need') s3)"

section \<open>Exit of a worker process\<close>

definition onWorkerProcessExit :: "addr \<Rightarrow> pool \<Rightarrow> pool" where
  "onWorkerProcessExit a s =
     (if state_of s a = WorkerStateRespawning then s
      else
        let s1 = snd (compactAvailableQueue (evictDeadWorker a s)) in
        case spawnCircuitOpen s1 of
          (True, s2) \<Rightarrow> s2
        | (False, s2) \<Rightarrow> ensureMinWorkers s2)"

section \<open>Respawning\<close>

text \<open>\<open>respawnWorker\<close> puts the new worker into the slot of the old one, found by its id.\<close>

definition put_in_slot :: "int \<Rightarrow> addr \<Rightarrow> pool \<Rightarrow> pool" where
  "put_in_slot i a s =
     (if \<exists>b \<in> set (p_workers s). w_ID (worker s b) = i
      then s\<lparr>p_workers := replace_first (\<lambda>b. w_ID (worker s b) = i) a (p_workers s)\<rparr>
      else s\<lparr>p_workers := p_workers s @ [a]\<rparr>)"

definition respawn_begin :: "addr \<Rightarrow> pool \<Rightarrow> pool" where
  "respawn_begin old s = add_active (- 1) (terminateWorker old s)"

definition respawn_end :: "int \<Rightarrow> (error + addr) \<Rightarrow> pool \<Rightarrow> pool" where
  "respawn_end i r s =
     (case r of
        Inl e \<Rightarrow> snd (removeWorkerFromSliceIfPresent i s)
      | Inr a \<Rightarrow> add_active 1 (put_in_slot i a s))"

definition respawnWorker :: "addr \<Rightarrow> spawn_env \<Rightarrow> pool \<Rightarrow> ((error + addr) \<times> pool) option" where
  "respawnWorker old env s =
     (let s1 = respawn_begin old s; i = w_ID (worker s1 old)
      in map_option (\<lambda>(r, s2). (r, respawn_end i r s2)) (doSpawnWorker i env s1))"

text \<open>What the goroutine of \<open>scheduleRespawn\<close> does with the outcome, and the whole goroutine.\<close>

definition afterRespawn :: "addr \<Rightarrow> (error + addr) \<Rightarrow> pool \<Rightarrow> pool" where
  "afterRespawn a r s =
     (case r of
        Inl e \<Rightarrow>
          releaseRespawnSlot
            (ensureMinWorkers (syncActiveWorkersCount (evictDeadWorker a (noteSpawnFailure s))))
      | Inr b \<Rightarrow>
          (case releaseWorkerToAvailable (Some b) (noteSpawnSuccess s) of
             (Blocked, s1) \<Rightarrow> park b FromRespawn s1
           | (_, s1) \<Rightarrow> releaseRespawnSlot s1))"

definition runRespawn :: "addr \<Rightarrow> spawn_env \<Rightarrow> pool \<Rightarrow> pool option" where
  "runRespawn a env s =
     Option.bind (acquireRespawnSlot s)
       (\<lambda>s1. map_option (\<lambda>(r, s2). afterRespawn a r s2) (respawnWorker a env s1))"

section \<open>Adding\<close>

text \<open>The loop that reserves an active worker: \<open>True\<close> when the counter was advanced.\<close>

partial_function (option) reserve_slot :: "pool \<Rightarrow> (bool \<times> pool) option" where
  "reserve_slot s =
     (if p_activeWorkers s \<ge> wrap32 (GetMaxWorkers (p_runtime s)) then
        (if countOccupyingSlots s < GetMaxWorkers (p_runtime s)
         then reserve_slot (syncActiveWorkersCount s)
         else Some (False, s))
      else Some (True, add_active 1 s))"

definition nextWorkerID :: "pool \<Rightarrow> int \<times> pool" where
  "nextWorkerID s =
     (let n = wrap32 (p_nextWorkerID s + 1)
      in (wrap32 (n - 1), s\<lparr>p_nextWorkerID := n\<rparr>))"

text \<open>The pool's counter of worker ids is a source of ids as long as it stays below \<open>2 ^ 31 - 1\<close>.\<close>

interpretation worker_source:
  id_source nextWorkerID "\<lambda>s. if p_nextWorkerID s < 0 then 2 ^ 31 - 1 else nat (p_nextWorkerID s)" int "2 ^ 31 - 1"
  by unfold_locales (auto simp: nextWorkerID_def Let_def split: if_splits)

definition addWorker :: "pool \<Rightarrow> pool option" where
  "addWorker s =
     (case spawnCircuitOpen s of
        (True, s1) \<Rightarrow> Some s1
      | (False, s1) \<Rightarrow>
          if livingWorkerCount s1 \<ge> GetMaxWorkers (p_runtime s1) then Some s1
          else map_option
                 (\<lambda>(reserved, s2).
                    if reserved then (case nextWorkerID s2 of (i, s3) \<Rightarrow> go (GoSpawnWorker i) s3) else s2)
                 (reserve_slot s1))"

text \<open>The goroutine that \<open>addWorker\<close> starts.\<close>

definition finishAddWorker :: "addr \<Rightarrow> pool \<Rightarrow> pool" where
  "finishAddWorker a s =
     (let s1 = snd (pruneDeadWorkersLocked (noteSpawnSuccess s));
          s2 = s1\<lparr>p_workers := p_workers s1 @ [a]\<rparr>
      in case releaseWorkerToAvailable (Some a) s2 of
           (Pushed, s3) \<Rightarrow> s3
         | (NotPushed, s3) \<Rightarrow> add_active (- 1) s3
         | (Blocked, s3) \<Rightarrow> park a FromAddWorker s3)"

definition afterSpawn :: "(error + addr) \<Rightarrow> pool \<Rightarrow> pool" where
  "afterSpawn r s =
     (case r of
        Inl e \<Rightarrow> ensureMinWorkers (snd (pruneDeadWorkers (noteSpawnFailure (add_active (- 1) s))))
      | Inr a \<Rightarrow> finishAddWorker a s)"

definition runSpawn :: "int \<Rightarrow> spawn_env \<Rightarrow> pool \<Rightarrow> pool option" where
  "runSpawn i env s = map_option (\<lambda>(r, s1). afterSpawn r s1) (doSpawnWorker i env s)"

section \<open>Removing\<close>

text \<open>
  The scaler gives the worker back when the pool has just booted or is at its minimum. \<open>bootTime\<close> is
  the zero time until \<open>Start\<close>.
\<close>

definition release_or_park :: "addr \<Rightarrow> sender \<Rightarrow> pool \<Rightarrow> pool" where
  "release_or_park a from s =
     (case releaseWorkerToAvailable (Some a) s of
        (Blocked, s1) \<Rightarrow> park a from s1
      | (_, s1) \<Rightarrow> s1)"

definition removeWorker :: "addr \<Rightarrow> pool \<Rightarrow> pool" where
  "removeWorker a s =
     (if since s (p_bootTime s) < 30 * Second then release_or_park a FromScaler s
      else if countLivingWorkersLocked s \<le> GetMinWorkers (p_runtime s) then release_or_park a FromScaler s
      else
        let s1 = removeWorkerFromSlice (w_ID (worker s a)) s;
            minW = GetMinWorkers (p_runtime s1);
            s2 = add_active (- 1) (destroyWorker a s1)
        in if p_activeWorkers s2 < wrap32 minW then s2\<lparr>p_activeWorkers := wrap32 minW\<rparr> else s2)"

section \<open>Goroutines that were blocked on the queue\<close>

text \<open>
  What a parked goroutine does once its send has gone through, or once the context is done. The
  rest of the caller runs in the same step.
\<close>

definition after_release :: "sender \<Rightarrow> addr \<Rightarrow> push_result \<Rightarrow> pool \<Rightarrow> pool" where
  "after_release from a r s =
     (case from of
        FromRespawn \<Rightarrow> releaseRespawnSlot s
      | FromAddWorker \<Rightarrow> (if r = Pushed then s else add_active (- 1) s)
      | FromRequest \<Rightarrow> (if r \<noteq> Pushed \<and> p_ctxDone s then destroyWorker a s else s)
      | FromScaler \<Rightarrow> s)"

definition resume_sender :: "pool \<Rightarrow> pool option" where
  "resume_sender s =
     (case p_parked s of
        [] \<Rightarrow> None
      | (a, from) # rest \<Rightarrow>
          (case release_select a (s\<lparr>p_parked := rest\<rparr>) of
             (Blocked, s1) \<Rightarrow> None
           | (r, s1) \<Rightarrow> Some (after_release from a r s1)))"

section \<open>Lemmas: reserving a slot\<close>

lemma add_active_frame [simp]:
  "p_workers (add_active n s) = p_workers s" "p_heap (add_active n s) = p_heap s"
  "p_runtime (add_active n s) = p_runtime s" "p_tasks (add_active n s) = p_tasks s"
  "p_os (add_active n s) = p_os s" "p_available (add_active n s) = p_available s"
  "p_nextWorkerID (add_active n s) = p_nextWorkerID s" "p_spawnInFlight (add_active n s) = p_spawnInFlight s"
  "p_settings (add_active n s) = p_settings s" "p_nextAddr (add_active n s) = p_nextAddr s"
  "p_activeWorkers (add_active n s) = wrap32 (p_activeWorkers s + n)"
  by (simp_all add: add_active_def)

lemma tidy_add_active [intro]: "tidy s (add_active n s)"
  unfolding add_active_def by (rule tidy_active) simp

text \<open>The bounds under which the 32-bit counters of the pool are exact.\<close>

definition in_range :: "pool \<Rightarrow> bool" where
  "in_range s \<longleftrightarrow>
     length (p_workers s) < 2147483648 \<and> 0 \<le> p_spawnInFlight s \<and>
     0 \<le> p_activeWorkers s \<and> p_activeWorkers s < 2147483648"

lemma living_sync [simp]: "countLivingWorkersLocked (syncActiveWorkersCount s) = countLivingWorkersLocked s"
  and runtime_sync [simp]: "p_runtime (syncActiveWorkersCount s) = p_runtime s"
  and inFlight_sync [simp]: "p_spawnInFlight (syncActiveWorkersCount s) = p_spawnInFlight s"
  and nextID_sync [simp]: "p_nextWorkerID (syncActiveWorkersCount s) = p_nextWorkerID s"
  and occupying_sync [simp]: "countOccupyingSlots (syncActiveWorkersCount s) = countOccupyingSlots s"
  by (simp_all add: countLivingWorkersLocked_def countOccupyingSlots_def count_if_def syncActiveWorkersCount_def)

lemma sync_active_bounds:
  assumes "length (p_workers s) < 2147483648"
  shows "0 \<le> p_activeWorkers (syncActiveWorkersCount s)"
    and "p_activeWorkers (syncActiveWorkersCount s) \<le> livingWorkerCount s"
  using assms
  by (auto simp: sync_active livingWorkerCount_def countLivingWorkersLocked_def intro!: count_mono)

lemma occupying_living: "countOccupyingSlots s = livingWorkerCount s + p_spawnInFlight s"
  by (simp add: countOccupyingSlots_def livingWorkerCount_def countLivingWorkersLocked_def)

lemma reserve_slot_now:
  "p_activeWorkers s < wrap32 (GetMaxWorkers (p_runtime s)) \<Longrightarrow> reserve_slot s = Some (True, add_active 1 s)"
  by (subst reserve_slot.simps) simp

lemma reserve_slot_full:
  "wrap32 (GetMaxWorkers (p_runtime s)) \<le> p_activeWorkers s \<Longrightarrow>
   GetMaxWorkers (p_runtime s) \<le> countOccupyingSlots s \<Longrightarrow> reserve_slot s = Some (False, s)"
  by (subst reserve_slot.simps) simp

lemma reserve_slot_again:
  "wrap32 (GetMaxWorkers (p_runtime s)) \<le> p_activeWorkers s \<Longrightarrow>
   countOccupyingSlots s < GetMaxWorkers (p_runtime s) \<Longrightarrow>
   reserve_slot s = reserve_slot (syncActiveWorkersCount s)"
  by (subst reserve_slot.simps) simp

text \<open>With a maximum that fits into 32 bits the loop runs at most twice.\<close>

lemma reserve_slot_total:
  assumes "in_range s" and "0 \<le> GetMaxWorkers (p_runtime s)" "GetMaxWorkers (p_runtime s) < 2147483648"
  shows "reserve_slot s =
     (if p_activeWorkers s < GetMaxWorkers (p_runtime s) then Some (True, add_active 1 s)
      else if countOccupyingSlots s < GetMaxWorkers (p_runtime s)
           then Some (True, add_active 1 (syncActiveWorkersCount s))
           else Some (False, s))"
proof -
  have w: "wrap32 (GetMaxWorkers (p_runtime s)) = GetMaxWorkers (p_runtime s)" using assms by simp
  have "reserve_slot s = Some (True, add_active 1 (syncActiveWorkersCount s))"
    if full: "\<not> p_activeWorkers s < GetMaxWorkers (p_runtime s)"
      and occ: "countOccupyingSlots s < GetMaxWorkers (p_runtime s)"
  proof -
    have "reserve_slot s = reserve_slot (syncActiveWorkersCount s)"
      using full occ w by (intro reserve_slot_again) simp_all
    also have "\<dots> = Some (True, add_active 1 (syncActiveWorkersCount s))"
    proof (rule reserve_slot_now)
      have "p_activeWorkers (syncActiveWorkersCount s) \<le> livingWorkerCount s"
        using sync_active_bounds(2) [of s] assms(1) by (simp add: in_range_def)
      then show "p_activeWorkers (syncActiveWorkersCount s) <
          wrap32 (GetMaxWorkers (p_runtime (syncActiveWorkersCount s)))"
        using occ w assms(1) by (simp add: occupying_living in_range_def)
    qed
    finally show ?thesis .
  qed
  then show ?thesis using w by (auto simp: reserve_slot_now reserve_slot_full)
qed

text \<open>
  With a maximum from \<open>2 ^ 31\<close> to \<open>2 ^ 32 - 1\<close> the comparison \<open>int32(max)\<close> is with a negative number:
  while slots are free the loop synchronises the counter and tries again for ever.
\<close>

definition spins :: "pool \<Rightarrow> bool" where
  "spins s \<longleftrightarrow>
     in_range s \<and> wrap32 (GetMaxWorkers (p_runtime s)) < 0 \<and>
     countOccupyingSlots s < GetMaxWorkers (p_runtime s)"

lemma spins_sync: "spins s \<Longrightarrow> spins (syncActiveWorkersCount s)"
proof -
  assume s: "spins s"
  then have len: "length (p_workers s) < 2147483648" by (simp add: spins_def in_range_def)
  have "livingWorkerCount s \<le> int (length (p_workers s))"
    using living_plus_dead [of s] count_nonneg [of "\<lambda>st. st = WorkerStateDead" s]
    by (simp add: countDeadWorkers_def del: count_nonneg)
  with sync_active_bounds [OF len] len s
  show "spins (syncActiveWorkersCount s)"
    by (simp add: spins_def in_range_def)
qed

lemma reserve_slot_spins: "spins s \<Longrightarrow> reserve_slot s = None"
proof (rule ccontr)
  assume "spins s" "reserve_slot s \<noteq> None"
  then obtain r where r: "reserve_slot s = Some r" by blast
  have "\<not> spins s"
  proof (rule reserve_slot.raw_induct [OF _ r, where P = "\<lambda>s r. \<not> spins s"])
    fix f :: "pool \<Rightarrow> (bool \<times> pool) option" and s and y :: "bool \<times> pool"
    assume IH: "\<And>s y. f s = Some y \<Longrightarrow> \<not> spins s"
      and body: "(if p_activeWorkers s \<ge> wrap32 (GetMaxWorkers (p_runtime s)) then
          (if countOccupyingSlots s < GetMaxWorkers (p_runtime s) then f (syncActiveWorkersCount s)
           else Some (False, s)) else Some (True, add_active 1 s)) = Some y"
    show "\<not> spins s"
    proof
      assume s: "spins s"
      then have "p_activeWorkers s \<ge> wrap32 (GetMaxWorkers (p_runtime s))"
        "countOccupyingSlots s < GetMaxWorkers (p_runtime s)"
        by (auto simp: spins_def in_range_def)
      with body have "f (syncActiveWorkersCount s) = Some y" by simp
      from IH [OF this] spins_sync [OF s] show False by simp
    qed
  qed
  with \<open>spins s\<close> show False by simp
qed

end
