(* ===== verification/Dispatch.thy ===== *)
theory Dispatch
  imports Scale
begin

text \<open>
  Handing workers to requests (\<open>worker.go\<close>: \<open>validateAndPrepareWorker\<close>, \<open>tryGetWorker\<close>, \<open>GetWorker\<close>,
  \<open>ReleaseWorker\<close>, the two methods \<open>Execute\<close>).

  A request that finds the queue empty waits: \<open>Waiting\<close>, still counted in \<open>queuedRequests\<close> when the
  admission counted it; \<open>get_resume\<close> is the waiting loop run again later.
\<close>

section \<open>Taking a worker\<close>

definition validateAndPrepareWorker :: "addr \<Rightarrow> pool \<Rightarrow> bool \<times> pool" where
  "validateAndPrepareWorker a s =
     (case isWorkerDead a s of
        (True, s1) \<Rightarrow> (False, scheduleRespawn a s1)
      | (False, s1) \<Rightarrow>
          let s2 = upd_worker a (\<lambda>w. w\<lparr>w_state := WorkerStateBusy, w_lastActiveTime := now s1\<rparr>) s1
          in (True, s2\<lparr>p_busyWorkers := wrap32 (p_busyWorkers s2 + 1)\<rparr>))"

definition tryGetWorker :: "pool \<Rightarrow> addr option \<times> pool" where
  "tryGetWorker s =
     (case try_recv (p_available s) of
        None \<Rightarrow> (None, s)
      | Some (None, c) \<Rightarrow> (None, s\<lparr>p_available := c\<rparr>)
      | Some (Some a, c) \<Rightarrow>
          (case validateAndPrepareWorker a (s\<lparr>p_available := c\<rparr>) of
             (True, s1) \<Rightarrow> (Some a, s1)
           | (False, s1) \<Rightarrow> (None, s1)))"

section \<open>Admission\<close>

text \<open>
  The three cases of backpressure: off, unlimited (\<open>max_queue\<close> not positive) and limited. The result
  says whether the request was counted.
\<close>

definition admit :: "pool \<Rightarrow> (error + bool) \<times> pool" where
  "admit s =
     (let enabled = GetBackpressureEnabled (p_runtime s); maxQueue = GetBackpressureMaxQueue (p_runtime s) in
      if enabled \<and> maxQueue > 0 then
        (if p_queuedRequests s \<ge> wrap32 maxQueue
         then (Inl (Msg (''service unavailable: queue full ('' @ itoa (p_queuedRequests s) @ ''/'' @
                    itoa maxQueue @ '')'')), s)
         else (Inr True, s\<lparr>p_queuedRequests := wrap32 (p_queuedRequests s + 1)\<rparr>))
      else if enabled then (Inr True, s\<lparr>p_queuedRequests := wrap32 (p_queuedRequests s + 1)\<rparr>)
      else (Inr False, s))"

section \<open>Waiting\<close>

text \<open>The request's context: still active, done with an error, or timed out in the queue only.\<close>

datatype ctx_state = CtxActive | CtxDone error | QueueTimedOut

datatype get_result = Got addr | Refused error | Waiting

definition queue_timeout_error :: "pool \<Rightarrow> error" where
  "queue_timeout_error s =
     Msg (''service unavailable: queue timeout ('' @ itoa (ps_queueTimeoutMs (p_settings s)) @ ''ms)'')"

fun ctx_result :: "ctx_state \<Rightarrow> pool \<Rightarrow> get_result" where
  "ctx_result CtxActive s = Waiting"
| "ctx_result (CtxDone e) s =
     Refused (if ps_queueTimeoutEnabled (p_settings s) \<and> e = DeadlineExceeded then queue_timeout_error s else e)"
| "ctx_result QueueTimedOut s =
     (if ps_queueTimeoutEnabled (p_settings s) then Refused (queue_timeout_error s) else Waiting)"

lemma validate_available [simp]: "p_available (snd (validateAndPrepareWorker a s)) = p_available s"
  by (auto simp: validateAndPrepareWorker_def Let_def split: prod.split bool.split)
     (metis isWorkerDead_frame(3) snd_conv)+

lemma validate_availableD:
  "validateAndPrepareWorker a (s\<lparr>p_available := c\<rparr>) = (ok, s1) \<Longrightarrow> p_available s1 = c"
  using validate_available [of a "s\<lparr>p_available := c\<rparr>"] by simp

text \<open>
  The loop. Where both branches of the \<open>select\<close> are ready Go takes either: \<open>takeDone\<close> says, for
  each further round, whether it takes the one of the context.
\<close>

function get_wait :: "(nat \<Rightarrow> bool) \<Rightarrow> ctx_state \<Rightarrow> pool \<Rightarrow> get_result \<times> pool" where
  "get_wait takeDone ctx s =
     (case try_recv (p_available s) of
        None \<Rightarrow> (ctx_result ctx s, s)
      | Some (w, c) \<Rightarrow>
          if takeDone 0 \<and> ctx_result ctx s \<noteq> Waiting then (ctx_result ctx s, s)
          else (case w of
                  None \<Rightarrow> (Refused (Msg ''pool stopped''), s\<lparr>p_available := c\<rparr>)
                | Some a \<Rightarrow>
                    (case validateAndPrepareWorker a (s\<lparr>p_available := c\<rparr>) of
                       (True, s1) \<Rightarrow> (Got a, s1)
                     | (False, s1) \<Rightarrow> get_wait (\<lambda>n. takeDone (Suc n)) ctx s1)))"
  by pat_completeness auto

termination
  by (relation "measure (\<lambda>(takeDone, ctx, s). length (buf (p_available s)))")
     (auto simp: recv_Some_iff dest!: validate_availableD [OF sym])

declare get_wait.simps [simp del]

text \<open>The deferred decrement runs when the request stops waiting.\<close>

definition leave_queue :: "bool \<Rightarrow> get_result \<times> pool \<Rightarrow> get_result \<times> pool" where
  "leave_queue counted r =
     (case r of
        (Waiting, s) \<Rightarrow> (Waiting, s)
      | (res, s) \<Rightarrow>
          (res, if counted then s\<lparr>p_queuedRequests := wrap32 (p_queuedRequests s - 1)\<rparr> else s))"

definition get_resume :: "bool \<Rightarrow> (nat \<Rightarrow> bool) \<Rightarrow> ctx_state \<Rightarrow> pool \<Rightarrow> get_result \<times> pool" where
  "get_resume counted takeDone ctx s = leave_queue counted (get_wait takeDone ctx s)"

definition scale_on_demand :: "pool \<Rightarrow> pool" where
  "scale_on_demand s =
     (let maxW = GetMaxWorkers (p_runtime s) in
      case spawnCircuitOpen s of
        (True, s1) \<Rightarrow> s1
      | (False, s1) \<Rightarrow>
          if livingWorkerCount s1 < maxW \<and> countAvailableQueued s1 < maxW then go GoAddWorker s1 else s1)"

text \<open>The result comes with the flag of the admission, which a waiting request keeps.\<close>

definition GetWorker :: "(nat \<Rightarrow> bool) \<Rightarrow> ctx_state \<Rightarrow> pool \<Rightarrow> (get_result \<times> bool) \<times> pool" where
  "GetWorker takeDone ctx s =
     (case tryGetWorker s of
        (Some a, s1) \<Rightarrow> ((Got a, False), s1)
      | (None, s1) \<Rightarrow>
          let s2 = snd (pruneDeadWorkers (snd (compactAvailableQueue s1))) in
          (case admit s2 of
             (Inl e, s3) \<Rightarrow> ((Refused e, False), s3)
           | (Inr counted, s3) \<Rightarrow>
               (case get_resume counted takeDone ctx (scale_on_demand s3) of
                  (r, s4) \<Rightarrow> ((r, counted), s4))))"

section \<open>Giving a worker back\<close>

definition recycles :: "bool \<Rightarrow> addr \<Rightarrow> pool \<Rightarrow> bool" where
  "recycles asked a s \<longleftrightarrow>
     asked \<or> (ps_maxRequests (p_settings s) > 0 \<and>
               w_requestCount (worker s a) \<ge> ps_maxRequests (p_settings s))"

definition ReleaseWorker :: "addr \<Rightarrow> Response option \<Rightarrow> pool \<Rightarrow> pool" where
  "ReleaseWorker a resp s =
     (let n = wrap32 (p_busyWorkers s - 1);
          s1 = s\<lparr>p_busyWorkers := (if n < 0 then 0 else n)\<rparr>;
          s2 = upd_worker a (\<lambda>w. w\<lparr>w_requestCount := wrap64 (w_requestCount w + 1)\<rparr>) s1
      in if state_of s2 a = WorkerStateDead then scheduleRespawn a s2
         else if recycles (case resp of Some r \<Rightarrow> rm_Recycle (resp_Meta r) | None \<Rightarrow> False) a s2
         then scheduleRespawn a (set_state WorkerStateRespawning a s2)
         else
           let s3 = set_state WorkerStateIdle a s2;
               s4 = s3\<lparr>p_lastBusyTime := now s3, p_totalRequests := wrap64 (p_totalRequests s3 + 1)\<rparr>
           in case releaseWorkerToAvailable (Some a) s4 of
                (Pushed, s5) \<Rightarrow> s5
              | (NotPushed, s5) \<Rightarrow> if p_ctxDone s5 then destroyWorker a s5 else s5
              | (Blocked, s5) \<Rightarrow> park a FromRequest s5)"

section \<open>Executing a request\<close>

text \<open>
  What one execution meets outside the pool: the connection as a writer and a reader, the MessagePack
  codec, the error of \<open>SetDeadline\<close> and of the context. A panic inside the writer leaves the
  worker unreleased.
\<close>

record 'w exec_env =
  xe_deadlineErr :: "error option"
  xe_encode :: "Request \<Rightarrow> byte list \<times> error option"
  xe_grow :: "nat \<Rightarrow> nat \<Rightarrow> nat"
  xe_decode :: "byte list \<Rightarrow> error + Response"
  xe_writer :: "'w writer"
  xe_reader :: reader
  xe_ctxErr :: "error option"

datatype exec_result = ExecOk Response | ExecErr error | ExecPanic

definition worker_Execute ::
  "'w exec_env \<Rightarrow> handle \<Rightarrow> Request \<Rightarrow> 'w \<Rightarrow> nat list \<Rightarrow> nat list \<Rightarrow> exec_result \<times> 'w \<times> nat list \<times> nat list" where
  "worker_Execute env conn req w msgpackPool bufferPool =
     (if conn = NilHandle then (ExecErr (Msg ''connection not established''), w, msgpackPool, bufferPool)
      else case xe_deadlineErr env of
        Some e \<Rightarrow> (ExecErr (Wrap ''failed to set worker deadline'' e), w, msgpackPool, bufferPool)
      | None \<Rightarrow>
          (case SendRequest (xe_encode env) (xe_grow env) (xe_writer env) req w msgpackPool of
             (WritePanic, w1, mp) \<Rightarrow> (ExecPanic, w1, mp, bufferPool)
           | (WriteErr e, w1, mp) \<Rightarrow> (ExecErr (Wrap ''failed to send request'' e), w1, mp, bufferPool)
           | (WriteOk, w1, mp) \<Rightarrow>
               (case ReceiveResponse (xe_decode env) (xe_reader env) bufferPool of
                  (Inl e, r1, bp) \<Rightarrow>
                    (ExecErr (case xe_ctxErr env of
                       Some ce \<Rightarrow> Wrap ''worker timeout or request cancelled'' ce
                     | None \<Rightarrow> Wrap ''failed to read response'' e), w1, mp, bp)
                | (Inr resp, r1, bp) \<Rightarrow> (ExecOk resp, w1, mp, bp))))"

definition RuntimeVersion :: string where "RuntimeVersion = ''2.0.0''"

definition stamp_request :: "addr \<Rightarrow> pool \<Rightarrow> Request \<Rightarrow> Request" where
  "stamp_request a s req = req\<lparr>req_WorkerID := itoa (w_ID (worker s a)), req_RuntimeVersion := RuntimeVersion\<rparr>"

text \<open>The end of the pool's \<open>Execute\<close>, once the worker has answered.\<close>

definition finishExecute :: "addr \<Rightarrow> exec_result \<Rightarrow> pool \<Rightarrow> (error + Response) option \<times> pool" where
  "finishExecute a r s =
     (case r of
        ExecErr e \<Rightarrow> (Some (Inl e), ReleaseWorker a None (set_state WorkerStateDead a s))
      | ExecOk resp \<Rightarrow> (Some (Inr resp), ReleaseWorker a (Some resp) s)
      | ExecPanic \<Rightarrow> (None, s))"

text \<open>
  \<open>Execute\<close> of the pool for a request that does not have to wait: \<open>None\<close> in the result is a
  request that waits, or a panic.
\<close>

definition pool_Execute ::
  "(nat \<Rightarrow> bool) \<Rightarrow> ctx_state \<Rightarrow> 'w exec_env \<Rightarrow> Request \<Rightarrow> 'w \<Rightarrow> nat list \<Rightarrow> nat list \<Rightarrow> pool \<Rightarrow>
   (error + Response) option \<times> pool" where
  "pool_Execute takeDone ctx env req w msgpackPool bufferPool s =
     (case GetWorker takeDone ctx s of
        ((Refused e, c), s1) \<Rightarrow> (Some (Inl (Wrap ''failed to get worker'' e)), s1)
      | ((Waiting, c), s1) \<Rightarrow> (None, s1)
      | ((Got a, c), s1) \<Rightarrow>
          finishExecute a
            (fst (worker_Execute env (w_conn (worker s1 a)) (stamp_request a s1 req) w msgpackPool bufferPool)) s1)"

end
