(* ===== verification/Monitor.thy ===== *)
theory Monitor
  imports Dispatch
begin

text \<open>
  The background goroutines and the life cycle of the pool (\<open>worker.go\<close>: \<open>shouldHealthRespawn\<close>,
  \<open>checkAndRespawnDeadWorkers\<close>, \<open>scalerLoop\<close>, \<open>waitForMinWorkersReady\<close>, \<open>effectiveWarmupStagger\<close>,
  \<open>warmUpToMax\<close>, \<open>Start\<close>, \<open>Stop\<close>, \<open>workerStateString\<close>, \<open>Stats\<close>). One tick of a loop is one
  operation; the pauses inside a tick are not modelled.
\<close>

section \<open>The health monitor\<close>

definition shouldHealthRespawn :: "addr \<Rightarrow> pool \<Rightarrow> bool \<times> pool" where
  "shouldHealthRespawn a s =
     (if state_of s a = WorkerStateBusy \<or> state_of s a = WorkerStateRespawning \<or>
         state_of s a = WorkerStateStarting
      then (False, s) else isWorkerDead a s)"

definition health_check :: "addr \<Rightarrow> pool \<Rightarrow> pool" where
  "health_check a s =
     (if state_of s a = WorkerStateDead then forceEvictWorker a s
      else case shouldHealthRespawn a s of
        (True, s1) \<Rightarrow> scheduleRespawn a s1
      | (False, s1) \<Rightarrow> s1)"

definition checkAndRespawnDeadWorkers :: "pool \<Rightarrow> pool" where
  "checkAndRespawnDeadWorkers s =
     (let s1 = snd (compactAvailableQueue s);
          (pruned, s2) = pruneDeadWorkers s1;
          s3 = reconcileStuckWorkers s2;
          s4 = (if pruned > 0 then syncActiveWorkersCount s3 else s3)
      in ensureMinWorkers (fold health_check (p_workers s4) s4))"

section \<open>The scaler\<close>

text \<open>
  \<open>scaleUpUtilizationThreshold\<close> is 0.70; for counts of workers the comparison of the quotient in
  double precision is the exact comparison of \<open>10 * busy\<close> with \<open>7 * living\<close>.
\<close>

definition utilization_high :: "int \<Rightarrow> int \<Rightarrow> bool" where
  "utilization_high busy living = (10 * busy \<ge> 7 * living)"

definition scaleUpCooldownMs :: int where "scaleUpCooldownMs = 400"

definition scale_up_tick :: "int \<Rightarrow> int \<Rightarrow> int \<Rightarrow> pool \<Rightarrow> pool" where
  "scale_up_tick living minW maxW s =
     (let busy = (if p_busyWorkers s < 0 then 0 else p_busyWorkers s) in
      if living \<ge> minW \<and> living < maxW \<and> living > 0 \<and> utilization_high busy living \<and>
         since s (p_lastScaleUp s) \<ge> scaleUpCooldownMs * Millisecond
      then go GoAddWorker (s\<lparr>p_lastScaleUp := Some (now s)\<rparr>) else s)"

text \<open>
  One worker received from the queue by the scaler: an idle one is removed, another one is pushed
  back if there is room. The result \<open>None\<close> is a nil received from the queue.
\<close>

definition take_idle :: "addr option \<Rightarrow> pool \<Rightarrow> pool option" where
  "take_idle w s =
     (case w of
        None \<Rightarrow> None
      | Some a \<Rightarrow> Some (if state_of s a = WorkerStateIdle then removeWorker a s
                       else snd (tryPushAvailable a s)))"

text \<open>\<open>None\<close> is a loop that does not end; the flag says that the goroutine has returned.\<close>

partial_function (option) aggressive_loop :: "int \<Rightarrow> pool \<Rightarrow> (bool \<times> pool) option" where
  "aggressive_loop minW s =
     (if livingWorkerCount s \<le> minW then Some (False, s)
      else case try_recv (p_available s) of
        None \<Rightarrow> Some (False, s)
      | Some (w, c) \<Rightarrow>
          (case take_idle w (s\<lparr>p_available := c\<rparr>) of
             None \<Rightarrow> Some (True, s\<lparr>p_available := c\<rparr>)
           | Some s1 \<Rightarrow> aggressive_loop minW s1))"

definition log_stable :: "pool \<Rightarrow> pool" where
  "log_stable s =
     (if since s (p_lastStableLog s) \<ge> 30 * Second then s\<lparr>p_lastStableLog := Some (now s)\<rparr> else s)"

definition scaler_tick :: "pool \<Rightarrow> (bool \<times> pool) option" where
  "scaler_tick s =
     (let living = livingWorkerCount s;
          minW = GetMinWorkers (p_runtime s);
          maxW = GetMaxWorkers (p_runtime s);
          s1 = scale_up_tick living minW maxW s;
          st = p_settings s1;
          idleSince = now s1 - p_lastBusyTime s1
      in if GetKeepWarm (p_runtime s1) then Some (False, ensureMinWorkers s1)
         else if since s1 (p_bootTime s1) < 30 * Second then Some (False, ensureMinWorkers s1)
         else if ps_scaleDownIdleSecs st > 0 \<and> idleSince < wrap64 (ps_scaleDownIdleSecs st * Second)
           then Some (False, ensureMinWorkers s1)
         else if living \<le> minW then
           (let thresholdSec = (if ps_aggressiveScaleDownSecs st \<le> 0 then ps_scaleDownIdleSecs st
                                else ps_aggressiveScaleDownSecs st);
                s2 = (if thresholdSec > 0 \<and> idleSince \<ge> wrap64 (thresholdSec * Second) then log_stable s1 else s1)
            in Some (False, ensureMinWorkers s2))
         else if ps_aggressiveScaleDownSecs st > 0 \<and> idleSince \<ge> wrap64 (ps_aggressiveScaleDownSecs st * Second) then
           map_option (\<lambda>(returned, s2). (returned, if returned then s2 else ensureMinWorkers s2))
             (aggressive_loop minW s1)
         else if ps_scaleDownIdleSecs st > 0 then
           (case try_recv (p_available s1) of
              None \<Rightarrow> Some (False, ensureMinWorkers s1)
            | Some (w, c) \<Rightarrow>
                (case take_idle w (s1\<lparr>p_available := c\<rparr>) of
                   None \<Rightarrow> Some (True, s1\<lparr>p_available := c\<rparr>)
                 | Some s2 \<Rightarrow> Some (False, ensureMinWorkers s2)))
         else Some (False, ensureMinWorkers s1))"

section \<open>Warm-up\<close>

definition effectiveWarmupStagger :: "int \<Rightarrow> pool \<Rightarrow> int" where
  "effectiveWarmupStagger minWorkers s =
     (if ps_warmupStaggerMs (p_settings s) \<le> 0 \<and> minWorkers > 4 then 100
      else ps_warmupStaggerMs (p_settings s))"

definition warmup_pause :: "pool \<Rightarrow> int" where
  "warmup_pause s =
     (let staggerMs = effectiveWarmupStagger (GetMinWorkers (p_runtime s)) s
      in if staggerMs \<le> 0 then 100 else staggerMs)"

definition warmUpToMax :: "pool \<Rightarrow> pool" where
  "warmUpToMax s =
     (go GoAddWorker ^^ nat (GetMaxWorkers (p_runtime s) - GetMinWorkers (p_runtime s))) s"

text \<open>
  \<open>waitForMinWorkersReady\<close> by the states it sees: one per round of its loop before the deadline, and
  the last one after it.
\<close>

fun wait_rounds :: "int \<Rightarrow> pool list \<Rightarrow> pool \<Rightarrow> bool" where
  "wait_rounds minW [] after = (countReadyWorkers after \<ge> minW)"
| "wait_rounds minW (s # ss) after =
     (if countReadyWorkers s \<ge> minW then True
      else if p_ctxDone s then False else wait_rounds minW ss after)"

definition waitForMinWorkersReady :: "pool \<Rightarrow> pool list \<Rightarrow> pool \<Rightarrow> bool" where
  "waitForMinWorkersReady s seen after = wait_rounds (GetMinWorkers (p_runtime s)) seen after"

definition runFastWarmup :: "bool \<Rightarrow> pool \<Rightarrow> pool" where
  "runFastWarmup ready s = (if ready then warmUpToMax s else s)"

section \<open>Start and stop\<close>

definition Start :: "error option \<Rightarrow> pool \<Rightarrow> error option \<times> pool" where
  "Start mkdirErr s =
     (if p_running s then (Some (Msg ''pool is already running''), s)
      else case mkdirErr of
        Some e \<Rightarrow> (Some (Wrap ''failed to create socket directory'' e), s)
      | None \<Rightarrow>
          let s1 = s\<lparr>p_bootTime := Some (now s), p_nextWorkerID := 0, p_running := True\<rparr>;
              minW = GetMinWorkers (p_runtime s1);
              maxW = GetMaxWorkers (p_runtime s1);
              s2 = (go GoAddWorker ^^ nat minW) s1;
              s3 = (if ps_fastWarmup (p_settings s2) \<and> minW < maxW then go GoFastWarmup s2 else s2)
          in (None, go GoHealthMonitor (go GoScalerLoop s3)))"

definition Stop :: "pool \<Rightarrow> pool" where
  "Stop s =
     (if \<not> p_running s then s
      else let s1 = s\<lparr>p_running := False, p_ctxDone := True\<rparr>
           in fold terminateWorker (p_workers s1) s1)"

section \<open>Statistics\<close>

fun workerStateString :: "WorkerState \<Rightarrow> string" where
  "workerStateString WorkerStateIdle = ''idle''"
| "workerStateString WorkerStateBusy = ''busy''"
| "workerStateString WorkerStateDead = ''dead''"
| "workerStateString WorkerStateStarting = ''starting''"
| "workerStateString WorkerStateRespawning = ''respawning''"

text \<open>The uptime is kept in nanoseconds.\<close>

record WorkerInfo =
  wi_Id :: int
  wi_Pid :: int
  wi_State :: string
  wi_RequestCount :: int
  wi_StartTime :: int
  wi_Uptime :: int

record PoolStats =
  st_TotalRequests :: int
  st_ActiveWorkers :: int
  st_DeadWorkers :: int
  st_AvailableWorkers :: int
  st_MinWorkers :: int
  st_MaxWorkers :: int
  st_SpawnInFlight :: int
  st_SpawnTimeoutsTotal :: int
  st_SpawnHandshakeFailures :: int
  st_SpawnBindErrorsTotal :: int
  st_StuckRespawningTotal :: int
  st_AvailableQueueDroppedTotal :: int
  st_ReadyWorkers :: int
  st_SpawnCircuitOpen :: bool
  st_ConsecutiveSpawnFailures :: int
  st_WorkersDetail :: "WorkerInfo list"

definition worker_info :: "pool \<Rightarrow> addr \<Rightarrow> WorkerInfo" where
  "worker_info s a =
     \<lparr>wi_Id = w_ID (worker s a), wi_Pid = w_Pid (worker s a), wi_State = workerStateString (state_of s a),
      wi_RequestCount = w_requestCount (worker s a), wi_StartTime = w_startTime (worker s a),
      wi_Uptime = now s - w_startTime (worker s a)\<rparr>"

definition Stats :: "pool \<Rightarrow> PoolStats \<times> pool" where
  "Stats s =
     (let workers = p_workers s;
          detail = map (worker_info s) (filter (\<lambda>a. state_of s a \<noteq> WorkerStateDead) workers);
          deadCount = int (length (filter (\<lambda>a. state_of s a = WorkerStateDead) workers));
          living = int (length workers) - deadCount;
          (circuitOpen, s1) = spawnCircuitOpen s
      in (\<lparr>st_TotalRequests = p_totalRequests s1, st_ActiveWorkers = wrap32 living,
           st_DeadWorkers = wrap32 deadCount,
           st_AvailableWorkers = wrap32 (countAvailableQueued s1),
           st_MinWorkers = GetMinWorkers (p_runtime s1), st_MaxWorkers = GetMaxWorkers (p_runtime s1),
           st_SpawnInFlight = p_spawnInFlight s1, st_SpawnTimeoutsTotal = p_spawnTimeoutsTotal s1,
           st_SpawnHandshakeFailures = p_spawnHandshakeFails s1,
           st_SpawnBindErrorsTotal = p_spawnBindErrorsTotal s1,
           st_StuckRespawningTotal = p_stuckRespawningTotal s1,
           st_AvailableQueueDroppedTotal = p_availableQueueDroppedTotal s1,
           st_ReadyWorkers = wrap32 (countReadyWorkers s1), st_SpawnCircuitOpen = circuitOpen,
           st_ConsecutiveSpawnFailures = p_consecutiveSpawnFailures s1,
           st_WorkersDetail = detail\<rparr>, s1))"

end
