(* ===== verification/Flow.thy ===== *)
theory Flow
  imports Monitor "HOL-Library.Multiset"
begin

text \<open>
  What every operation of the pool does to the parts of the state that carry ownership: the queue of
  available workers, the slots, the worker ids and the started goroutines. \<open>flow out inn\<close> says that the
  workers \<open>out\<close> have left the queue and that nothing but \<open>inn\<close> has entered it; the rest of an
  operation's effect on the queue can only be a loss.
\<close>

definition calm_tasks :: "task set" where
  "calm_tasks = insert GoAddWorker (range GoRespawn \<union> range GoProcessExit)"

definition flow :: "addr option multiset \<Rightarrow> addr option multiset \<Rightarrow> pool \<Rightarrow> pool \<Rightarrow> bool" where
  "flow out inn s s' \<longleftrightarrow>
     p_nextAddr s' = p_nextAddr s \<and> p_nextWorkerID s' = p_nextWorkerID s \<and> p_parked s' = p_parked s \<and>
     p_slotLocks s' = p_slotLocks s \<and> p_spawnSemaphore s' = p_spawnSemaphore s \<and>
     p_spawnInFlight s' = p_spawnInFlight s \<and> p_ctxDone s' = p_ctxDone s \<and>
     p_busyWorkers s' = p_busyWorkers s \<and> p_queuedRequests s' = p_queuedRequests s \<and>
     cap (p_available s') = cap (p_available s) \<and>
     mset (buf (p_available s')) + out \<subseteq># mset (buf (p_available s)) + inn \<and>
     (length (buf (p_available s)) \<le> cap (p_available s) \<longrightarrow>
        length (buf (p_available s')) \<le> cap (p_available s)) \<and>
     set (p_workers s') \<subseteq> set (p_workers s) \<and> (distinct (p_workers s) \<longrightarrow> distinct (p_workers s')) \<and>
     (\<forall>b. w_ID (worker s' b) = w_ID (worker s b)) \<and>
     starts_only calm_tasks s s'"

lemma flow_trans:
  assumes "flow out inn s s1" and "flow out' inn' s1 s2"
  shows "flow (out + out') (inn + inn') s s2"
proof -
  from assms have 1: "mset (buf (p_available s1)) + out \<subseteq># mset (buf (p_available s)) + inn"
    and 2: "mset (buf (p_available s2)) + out' \<subseteq># mset (buf (p_available s1)) + inn'"
    unfolding flow_def by blast+
  have "mset (buf (p_available s2)) + out' + out \<subseteq># mset (buf (p_available s1)) + inn' + out"
    using 2 by simp
  also have "\<dots> = mset (buf (p_available s1)) + out + inn'" by simp
  also have "\<dots> \<subseteq># mset (buf (p_available s)) + inn + inn'" using 1 by simp
  finally have m: "mset (buf (p_available s2)) + (out + out') \<subseteq># mset (buf (p_available s)) + (inn + inn')"
    by (simp add: ac_simps)
  show ?thesis
    using assms m unfolding flow_def by (elim conjE, intro conjI) (auto intro: starts_only_trans)
qed

lemma flow_trans0: "flow {#} {#} s s1 \<Longrightarrow> flow out inn s1 s2 \<Longrightarrow> flow out inn s s2"
  and flow_trans1: "flow out inn s s1 \<Longrightarrow> flow {#} {#} s1 s2 \<Longrightarrow> flow out inn s s2"
  using flow_trans [of "{#}" "{#}" s s1 out inn s2] flow_trans [of out inn s s1 "{#}" "{#}" s2] by simp_all

lemma flow_refl [simp]: "flow {#} {#} s s"
  by (simp add: flow_def)

interpretation flow_rel: frame_relation "flow {#} {#}"
  by unfold_locales (auto intro: flow_trans0)

lemma flow_weaken: "flow out inn s s' \<Longrightarrow> out' \<subseteq># out \<Longrightarrow> inn \<subseteq># inn' \<Longrightarrow> flow out' inn' s s'"
  unfolding flow_def
  by (elim conjE, intro conjI) (auto intro: subset_mset.order_trans [OF subset_mset.add_left_mono]
      subset_mset.order_trans [OF _ subset_mset.add_left_mono])

lemma tidy_calm: "starts_only (range GoRespawn \<union> range GoProcessExit) s s' \<Longrightarrow> starts_only calm_tasks s s'"
  by (rule starts_only_mono) (auto simp: calm_tasks_def)

lemma flow_tidyq:
  assumes t: "tidyq s s'"
    and "mset (buf (p_available s')) + out \<subseteq># mset (buf (p_available s)) + inn"
    and "length (buf (p_available s)) \<le> cap (p_available s) \<longrightarrow>
           length (buf (p_available s')) \<le> cap (p_available s)"
  shows "flow out inn s s'"
proof -
  have "starts_only (range GoRespawn \<union> range GoProcessExit) s s'"
    using t by (auto simp: tidyq_def tidy_def starts_only_def)
  with assms(2,3) tidyq_workers [OF t] show ?thesis
    unfolding flow_def by (simp add: tidyq_frame [OF t] tidy_calm)
qed

lemma flow_tidy: "tidy s s' \<Longrightarrow> flow {#} {#} s s'"
  by (rule flow_tidyq [OF tidyq_tidy]) (simp_all add: tidy_def)

section \<open>The queue operations\<close>

lemma flow_frame_simps:
  assumes "flow out inn s s'"
  shows "p_nextAddr s' = p_nextAddr s" "p_nextWorkerID s' = p_nextWorkerID s" "p_parked s' = p_parked s"
    "p_slotLocks s' = p_slotLocks s" "p_spawnSemaphore s' = p_spawnSemaphore s"
    "p_spawnInFlight s' = p_spawnInFlight s" "p_ctxDone s' = p_ctxDone s"
    "p_busyWorkers s' = p_busyWorkers s" "p_queuedRequests s' = p_queuedRequests s"
    "w_ID (worker s' b) = w_ID (worker s b)"
  using assms by (auto simp: flow_def)

lemma flow_set_queue:
  "mset q + out \<subseteq># mset (buf (p_available s)) + inn \<Longrightarrow>
   length q \<le> length (buf (p_available s)) \<Longrightarrow> flow out inn s (set_queue q s)"
  by (rule flow_tidyq) (auto simp: set_queue_def tidyq_available)

lemma flow_recv:
  assumes "try_recv (p_available s) = Some (w, c)"
  shows "flow {#w#} {#} s (s\<lparr>p_available := c\<rparr>)"
proof (rule flow_tidyq)
  from gochan.recvD [OF assms] have b: "buf (p_available s) = w # buf c" "cap c = cap (p_available s)" .
  then show "tidyq s (s\<lparr>p_available := c\<rparr>)" by (simp add: tidyq_available)
  show "mset (buf (p_available (s\<lparr>p_available := c\<rparr>))) + {#w#} \<subseteq># mset (buf (p_available s)) + {#}"
    using b by simp
qed (use gochan.recvD [OF assms] in simp)

lemma flow_tryPush:
  "flow {#} (if fst (tryPushAvailable a s) then {#Some a#} else {#}) s (snd (tryPushAvailable a s))"
proof (rule flow_tidyq [OF tidyq_tryPush])
  show "mset (buf (p_available (snd (tryPushAvailable a s)))) + {#} \<subseteq>#
      mset (buf (p_available s)) + (if fst (tryPushAvailable a s) then {#Some a#} else {#})"
    by (auto simp: tryPushAvailable_def gochan.sendD split: option.split)
  show "length (buf (p_available s)) \<le> cap (p_available s) \<longrightarrow>
      length (buf (p_available (snd (tryPushAvailable a s)))) \<le> cap (p_available s)"
    by (auto simp: tryPushAvailable_def gochan.sendD split: option.split) (metis Suc_leI gochan.sendD(3))
qed

lemma flow_requeue: "flow {#} {#Some a#} s (requeue a s)"
proof (cases "tryPushAvailable a s")
  case (Pair ok s1)
  with flow_tryPush [of a s] have 1: "flow {#} (if ok then {#Some a#} else {#}) s s1" by simp
  show ?thesis
  proof (cases ok)
    case False
    with 1 have "flow {#} {#} s s1" by simp
    then have "flow {#} {#} s (drop_worker a s1)" by (rule flow_trans0 [OF _ flow_tidy [OF tidy_drop]])
    then show ?thesis using False Pair by (auto simp: requeue_def intro: flow_weaken)
  qed (use 1 Pair in \<open>simp add: requeue_def\<close>)
qed

lemma flow_fold_requeue: "flow {#} (mset (map Some xs)) s (fold requeue xs s)"
proof (induction xs arbitrary: s)
  case (Cons a xs)
  from flow_trans [OF flow_requeue [of a s] Cons.IH [of "requeue a s"]] show ?case by simp
qed simp

lemma drain_loop_mset:
  "drain_loop valid drained s = (v, d, s') \<Longrightarrow>
   mset (map Some v) \<subseteq># mset (map Some valid) + mset (buf (p_available s))"
proof (induction "buf (p_available s)" arbitrary: valid drained s)
  case Nil
  then show ?case by (simp add: drain_loop_nil)
next
  case (Cons w q)
  have q: "buf (p_available s) = w # q" using Cons.hyps(2) by simp
  show ?case
  proof (cases w)
    case None
    have "drain_loop valid (drained + 1) (set_queue q s) = (v, d, s')"
      using Cons.prems drain_loop_None [of s q] q None by simp
    from Cons.hyps(1) [OF _ this]
    have "mset (map Some v) \<subseteq># mset (map Some valid) + mset q" by simp
    also have "\<dots> \<subseteq># mset (map Some valid) + mset (buf (p_available s))" using q by simp
    finally show ?thesis .
  next
    case (Some a)
    let ?s1 = "snd (drain_one a (set_queue q s))"
    let ?v = "if fst (drain_one a (set_queue q s)) then valid @ [a] else valid"
    have "drain_loop ?v (drained + 1) ?s1 = (v, d, s')"
      using Cons.prems drain_loop_Some [of s a q valid drained] q Some by simp
    from Cons.hyps(1) [OF _ this]
    have "mset (map Some v) \<subseteq># mset (map Some ?v) + mset q" by simp
    also have "\<dots> \<subseteq># mset (map Some valid) + mset (buf (p_available s))"
      using q Some by (simp split: if_split)
    finally show ?thesis .
  qed
qed

lemma flow_drain_loop:
  assumes d: "drain_loop [] 0 s = (v, d, s')"
  shows "flow (mset (map Some v)) {#} s s'"
  by (rule flow_tidyq) (use tidyq_drain_loop [OF d] drain_loop_mset [OF d] in auto)

lemma flow_panicked: "flow {#} {#} s (s\<lparr>p_panicked := b\<rparr>)"
  by (rule flow_tidy) (simp add: tidy_def now_def)

lemma flow_compact: "flow {#} {#} s (snd (compactAvailableQueue s))"
proof (cases "drain_loop [] 0 s")
  case (fields valid drained s1)
  note f1 = flow_drain_loop [OF fields]
  have f1': "flow {#} {#} s s1" by (rule flow_weaken [OF f1]) simp_all
  have f: "flow {#} {#} s (syncActiveWorkersCount (fold requeue kept (fold drop_worker gone s1)))"
    if "mset kept \<subseteq># mset valid" for kept gone
  proof -
    have "flow (mset (map Some valid)) {#} s (fold drop_worker gone s1)"
      by (rule flow_trans1 [OF f1 flow_tidy [OF tidy_rel.fold_op [OF tidy_drop]]])
    from flow_trans [OF this flow_fold_requeue [of kept]]
    have x: "flow (mset (map Some valid)) (mset (map Some kept)) s (fold requeue kept (fold drop_worker gone s1))"
      by simp
    have "mset (map Some kept) \<subseteq># mset (map Some valid)" using that by (simp add: image_mset_subseteq_mono)
    with x have "flow {#} {#} s (fold requeue kept (fold drop_worker gone s1))"
      unfolding flow_def by (simp) (metis (no_types, lifting) add.right_neutral mset_subset_eq_add_left subset_mset.add_le_cancel_right subset_mset.add_left_mono subset_mset.order_trans mset_map)
    then show ?thesis by (rule flow_trans1 [OF _ flow_tidy [OF tidy_sync]])
  qed
  have t: "mset (take n valid) \<subseteq># mset valid" for n
    by (metis append_take_drop_id mset_append mset_subset_eq_add_left)
  show ?thesis
    using f [OF t, of "nat (GetMaxWorkers (p_runtime s))" "drop (nat (GetMaxWorkers (p_runtime s))) valid"]
      f [of valid "[]"] f1' flow_trans0 [OF f1' flow_panicked [of s1 True]] fields
    by (simp add: compactAvailableQueue_def Let_def)
qed

section \<open>Releasing\<close>

abbreviation pushed_in :: "push_result \<Rightarrow> addr \<Rightarrow> addr option multiset" where
  "pushed_in r a \<equiv> (if r = Pushed then {#Some a#} else {#})"

lemma flow_release_select:
  assumes "release_select a s = (r, s')"
  shows "flow {#} (pushed_in r a) s s'"
proof (cases "tryPushAvailable a s")
  case (Pair ok s1)
  with flow_tryPush [of a s] have 1: "flow {#} (if ok then {#Some a#} else {#}) s s1" by simp
  show ?thesis
  proof (cases ok)
    case True
    with assms Pair 1 show ?thesis by (simp add: release_select_def)
  next
    case False
    with 1 have 2: "flow {#} {#} s s1" by simp
    from flow_trans0 [OF 2 flow_tidy [OF tidy_destroy_remove]] assms Pair False 2
    show ?thesis by (auto simp: release_select_def Let_def split: if_splits)
  qed
qed

lemma flow_release_full:
  assumes "release_full a s = (r, s')"
  shows "flow {#} (pushed_in r a) s s'"
  using assms flow_release_select [of a s r s'] flow_tidy [OF tidy_trans [OF tidy_drop [of s a] tidy_sync]]
  by (auto simp: release_full_def Let_def split: if_splits)

lemma flow_release:
  assumes r: "releaseWorkerToAvailable (Some a) s = (r, s')"
  shows "flow {#} (pushed_in r a) s s'"
proof (cases "state_of s a = WorkerStateDead \<or> state_of s a = WorkerStateRespawning")
  case True
  with r show ?thesis by (auto simp: releaseWorkerToAvailable_def)
next
  case False
  let ?s1 = "set_state WorkerStateIdle a s"
  have f1: "flow {#} {#} s ?s1" by (rule flow_tidy [OF tidy_only_worker [OF only_worker_set_state]])
  show ?thesis
  proof (cases "w_cmd (worker ?s1 a) \<noteq> NilCmd \<and> isProcessDead a ?s1")
    case True
    with False r have "r = NotPushed" "s' = scheduleRespawn a ?s1"
      by (auto simp: releaseWorkerToAvailable_def Let_def)
    with flow_trans0 [OF f1 flow_tidy [OF tidy_schedule]] show ?thesis by simp
  next
    case alive: False
    obtain ok s2 where p: "tryPushAvailable a ?s1 = (ok, s2)" by fastforce
    from flow_trans0 [OF f1 flow_tryPush [of a]] p
    have f2: "flow {#} (if ok then {#Some a#} else {#}) s s2" by simp
    obtain d s3 where c: "compactAvailableQueue s2 = (d, s3)" by fastforce
    obtain ok' s4 where p': "tryPushAvailable a s3 = (ok', s4)" by fastforce
    have res: "(r, s') = (if ok then (Pushed, s2) else if d > 0 then (if ok' then (Pushed, s4) else release_full a s4)
                          else release_full a s3)"
      unfolding r [symmetric] releaseWorkerToAvailable_def option.case Let_def if_not_P [OF False]
        if_not_P [OF alive] p prod.case c p'
      by (cases ok; cases ok') simp_all
    show ?thesis
    proof (cases ok)
      case False
      with f2 have "flow {#} {#} s s2" by simp
      from flow_trans0 [OF this flow_compact] c have f3: "flow {#} {#} s s3" by (metis snd_conv)
      from flow_trans0 [OF f3 flow_tryPush [of a s3]] p'
      have f4: "flow {#} (if ok' then {#Some a#} else {#}) s s4" by simp
      from res False f4 flow_trans0 [OF f3 flow_release_full [of a s3 r s']]
        flow_trans0 [of s s4, OF _ flow_release_full [of a s4 r s']]
      show ?thesis by (auto split: if_splits)
    qed (use f2 res in simp)
  qed
qed

section \<open>The rest\<close>

lemma tasks_go_pow [simp]: "p_tasks ((go t ^^ n) s) = p_tasks s @ replicate n t"
  by (induction n) (simp_all add: replicate_app_Cons_same)

lemma go_pow_frame [simp]:
  "p_workers ((go t ^^ n) s) = p_workers s" "p_heap ((go t ^^ n) s) = p_heap s"
  "p_available ((go t ^^ n) s) = p_available s" "p_nextAddr ((go t ^^ n) s) = p_nextAddr s"
  "p_parked ((go t ^^ n) s) = p_parked s" "p_ctxDone ((go t ^^ n) s) = p_ctxDone s"
  "p_spawnInFlight ((go t ^^ n) s) = p_spawnInFlight s" "p_runtime ((go t ^^ n) s) = p_runtime s"
  "p_settings ((go t ^^ n) s) = p_settings s" "p_activeWorkers ((go t ^^ n) s) = p_activeWorkers s"
  "p_queuedRequests ((go t ^^ n) s) = p_queuedRequests s" "p_busyWorkers ((go t ^^ n) s) = p_busyWorkers s"
  "p_os ((go t ^^ n) s) = p_os s"
  by (induction n) simp_all

lemma go_pow_rest [simp]:
  "p_nextWorkerID ((go t ^^ n) s) = p_nextWorkerID s" "p_slotLocks ((go t ^^ n) s) = p_slotLocks s"
  "p_spawnSemaphore ((go t ^^ n) s) = p_spawnSemaphore s" "p_running ((go t ^^ n) s) = p_running s"
  by (induction n) (simp_all add: go_def)

lemma flow_go: "t \<in> calm_tasks \<Longrightarrow> flow {#} {#} s ((go t ^^ n) s)"
  by (auto simp: flow_def starts_only_def)

lemma flow_field:
  "flow out inn s s1 \<Longrightarrow> flow out inn s (s1\<lparr>p_ensureMinLast := t\<rparr>)"
  "flow out inn s s1 \<Longrightarrow> flow out inn s (s1\<lparr>p_activeWorkers := n\<rparr>)"
  "flow out inn s s1 \<Longrightarrow> flow out inn s (s1\<lparr>p_lastBusyTime := n\<rparr>)"
  "flow out inn s s1 \<Longrightarrow> flow out inn s (s1\<lparr>p_totalRequests := n\<rparr>)"
  "flow out inn s s1 \<Longrightarrow> flow out inn s (s1\<lparr>p_lastScaleUp := t\<rparr>)"
  "flow out inn s s1 \<Longrightarrow> flow out inn s (s1\<lparr>p_lastStableLog := t\<rparr>)"
  "flow out inn s s1 \<Longrightarrow> flow out inn s (s1\<lparr>p_respawnSemaphore := c\<rparr>)"
  "flow out inn s s1 \<Longrightarrow> flow out inn s (s1\<lparr>p_os := os'\<rparr>)"
  "flow out inn s s1 \<Longrightarrow> flow out inn s (s1\<lparr>p_runtime := rc\<rparr>)"
  by (simp_all add: flow_def starts_only_def)

text \<open>The number of workers that \<open>ensureMinWorkers\<close> starts, if it gets that far.\<close>

definition min_need :: "pool \<Rightarrow> int" where
  "min_need s =
     min (GetMinWorkers (p_runtime s) - countReadyWorkers s - p_spawnInFlight s)
         (GetMaxWorkers (p_runtime s) - livingWorkerCount s - p_spawnInFlight s)"

lemma counts_ensureLast [simp]:
  "countReadyWorkers (s\<lparr>p_ensureMinLast := t\<rparr>) = countReadyWorkers s"
  "livingWorkerCount (s\<lparr>p_ensureMinLast := t\<rparr>) = livingWorkerCount s"
  by (simp_all add: count_defs)

lemma ensureMinWorkers_eq:
  assumes "spawnCircuitOpen s = (False, s1)"
  defines "s2 \<equiv> snd (pruneDeadWorkers s1)"
  shows "ensureMinWorkers s =
     (if p_ensureMinLast s2 \<noteq> None \<and> since s2 (p_ensureMinLast s2) < ps_ensureMinDebounce (p_settings s2)
      then s2
      else (go GoAddWorker ^^ nat (min_need s2)) (s2\<lparr>p_ensureMinLast := Some (now s2)\<rparr>))"
  unfolding ensureMinWorkers_def assms(1) prod.case bool.case s2_def [symmetric] Let_def min_need_def
  by (auto simp: min_def)

lemma flow_ensureMin: "flow {#} {#} s (ensureMinWorkers s)"
proof (cases "spawnCircuitOpen s")
  case (Pair opened s1)
  with flow_tidy [OF tidy_circuit [of s]] have 1: "flow {#} {#} s s1" by simp
  show ?thesis
  proof (cases opened)
    case False
    from flow_trans0 [OF 1 flow_tidy [OF tidy_prune]]
    have 2: "flow {#} {#} s (snd (pruneDeadWorkers s1))" .
    have "flow {#} {#} s ((go GoAddWorker ^^ n) ((snd (pruneDeadWorkers s1))\<lparr>p_ensureMinLast := t\<rparr>))" for n t
      by (rule flow_trans0 [OF flow_field(1) [OF 2] flow_go]) (simp add: calm_tasks_def)
    with 2 ensureMinWorkers_eq [of s s1] Pair False show ?thesis by simp
  qed (use Pair 1 in \<open>simp add: ensureMinWorkers_def\<close>)
qed


text \<open>The two counters of requests are moved to the state an operation starts from.\<close>

definition busy_at :: "int \<Rightarrow> pool \<Rightarrow> pool" where
  "busy_at n s = s\<lparr>p_busyWorkers := n\<rparr>"

definition queued_at :: "int \<Rightarrow> pool \<Rightarrow> pool" where
  "queued_at n s = s\<lparr>p_queuedRequests := n\<rparr>"

lemma flow_counters:
  "flow out inn s s' \<Longrightarrow> flow out inn (busy_at n s) (busy_at n s')"
  "flow out inn s s' \<Longrightarrow> flow out inn (queued_at n s) (queued_at n s')"
  by (simp_all add: flow_def starts_only_def busy_at_def queued_at_def)

lemma counters_simps [simp]:
  "p_busyWorkers (busy_at n s) = n" "p_queuedRequests (busy_at n s) = p_queuedRequests s"
  "p_queuedRequests (queued_at n s) = n" "p_busyWorkers (queued_at n s) = p_busyWorkers s"
  "p_available (busy_at n s) = p_available s" "p_available (queued_at n s) = p_available s"
  "p_heap (busy_at n s) = p_heap s" "p_heap (queued_at n s) = p_heap s"
  "p_runtime (busy_at n s) = p_runtime s" "p_runtime (queued_at n s) = p_runtime s"
  by (simp_all add: busy_at_def queued_at_def)

lemma flow_evict: "flow {#} {#} s (evictDeadWorker a s)"
  unfolding evictDeadWorker_def by (rule flow_tidy [OF tidy_evict])

lemma flow_onExit: "flow {#} {#} s (onWorkerProcessExit a s)"
proof -
  let ?s1 = "snd (compactAvailableQueue (evictDeadWorker a s))"
  have 1: "flow {#} {#} s ?s1" by (rule flow_trans0 [OF flow_evict flow_compact])
  obtain opened s2 where c: "spawnCircuitOpen ?s1 = (opened, s2)" by fastforce
  with flow_trans0 [OF 1 flow_tidy [OF tidy_circuit]] have 2: "flow {#} {#} s s2" by (metis snd_conv)
  show ?thesis
    using 2 flow_trans0 [OF 2 flow_ensureMin] c
    by (simp add: onWorkerProcessExit_def Let_def split: bool.split)
qed

lemma tidy_upd: "(\<And>w. w_ID (f w) = w_ID w \<and> w_cmd (f w) = w_cmd w) \<Longrightarrow> tidy s (upd_worker a f s)"
  by (rule tidy_only_worker [OF only_worker_upd])

lemma validate_False:
  assumes "validateAndPrepareWorker a s = (False, s')"
  shows "tidy s s'"
proof (cases "isWorkerDead a s")
  case (Pair dead s1)
  with tidy_only_worker [OF only_worker_isWorkerDead [of a s]] have "tidy s s1" by simp
  with assms Pair show ?thesis
    by (auto simp: validateAndPrepareWorker_def Let_def split: bool.splits intro: tidy_trans [OF _ tidy_schedule])
qed

lemma validate_True:
  assumes "validateAndPrepareWorker a s = (True, s')"
  shows "s' = busy_at (wrap32 (p_busyWorkers s + 1))
           (upd_worker a (\<lambda>w. w\<lparr>w_state := WorkerStateBusy, w_lastActiveTime := now s\<rparr>) s)"
    and "\<not> isProcessDead a s" and "state_of s a \<noteq> WorkerStateDead"
proof -
  obtain dead s1 where d: "isWorkerDead a s = (dead, s1)" by fastforce
  with assms have "\<not> dead" by (auto simp: validateAndPrepareWorker_def split: bool.splits)
  with isWorkerDead_False [of a s] d have "s1 = s" "\<not> isProcessDead a s" "state_of s a \<noteq> WorkerStateDead" by auto
  with assms d \<open>\<not> dead\<close>
  show "s' = busy_at (wrap32 (p_busyWorkers s + 1))
           (upd_worker a (\<lambda>w. w\<lparr>w_state := WorkerStateBusy, w_lastActiveTime := now s\<rparr>) s)"
    and "\<not> isProcessDead a s" and "state_of s a \<noteq> WorkerStateDead"
    by (auto simp: validateAndPrepareWorker_def Let_def busy_at_def)
qed

lemma flow_validate_True:
  assumes "validateAndPrepareWorker a s = (True, s')"
  shows "flow {#} {#} (busy_at (wrap32 (p_busyWorkers s + 1)) s) s'"
  unfolding validate_True(1) [OF assms] by (rule flow_counters(1) [OF flow_tidy [OF tidy_upd]]) simp

text \<open>
  What a request can get: a worker that has left the queue, with the busy counter advanced, or no
  worker and a queue that at most lost some.
\<close>

definition got :: "addr option \<Rightarrow> pool \<Rightarrow> pool \<Rightarrow> bool" where
  "got r s s' \<longleftrightarrow>
     (case r of
        Some a \<Rightarrow> flow {#Some a#} {#} (busy_at (wrap32 (p_busyWorkers s + 1)) s) s' \<and>
                  state_of s' a = WorkerStateBusy \<and> \<not> isProcessDead a s'
      | None \<Rightarrow> flow {#} {#} s s')"

lemma validate_got:
  assumes recv: "try_recv (p_available s) = Some (Some a, c)"
    and v: "validateAndPrepareWorker a (s\<lparr>p_available := c\<rparr>) = (True, s')"
  shows "got (Some a) s s'"
proof -
  have "flow {#Some a#} {#} (busy_at n s) (busy_at n (s\<lparr>p_available := c\<rparr>))" for n
    by (rule flow_counters(1) [OF flow_recv [OF recv]])
  from flow_trans1 [OF this] flow_validate_True [OF v]
  have "flow {#Some a#} {#} (busy_at (wrap32 (p_busyWorkers s + 1)) s) s'" by simp
  moreover from validate_True [OF v] have "state_of s' a = WorkerStateBusy \<and> \<not> isProcessDead a s'"
    by (simp add: busy_at_def isProcessDead_def signal0_def split: command.splits)
  ultimately show ?thesis by (simp add: got_def)
qed

lemma validate_skipped:
  assumes recv: "try_recv (p_available s) = Some (w, c)"
    and v: "validateAndPrepareWorker a (s\<lparr>p_available := c\<rparr>) = (False, s')"
  shows "flow {#} {#} s s'"
proof -
  have "flow {#w#} {#} s s'" by (rule flow_trans1 [OF flow_recv [OF recv] flow_tidy [OF validate_False [OF v]]])
  then show ?thesis by (rule flow_weaken) simp_all
qed

lemma tryGet_got: "tryGetWorker s = (r, s') \<Longrightarrow> got r s s'"
proof (cases "try_recv (p_available s)")
  case None
  then show "tryGetWorker s = (r, s') \<Longrightarrow> got r s s'" by (simp add: tryGetWorker_def got_def)
next
  case (Some wc)
  then obtain w c where recv: "try_recv (p_available s) = Some (w, c)" by (cases wc) auto
  show "tryGetWorker s = (r, s') \<Longrightarrow> got r s s'"
  proof (cases w)
    case None
    then show "tryGetWorker s = (r, s') \<Longrightarrow> got r s s'"
      using recv flow_weaken [OF flow_recv [OF recv], of "{#}" "{#}"]
      by (auto simp: tryGetWorker_def got_def)
  next
    case (Some a)
    obtain ok s1 where v: "validateAndPrepareWorker a (s\<lparr>p_available := c\<rparr>) = (ok, s1)" by fastforce
    with recv Some have "tryGetWorker s = (if ok then Some a else None, s1)"
      by (simp add: tryGetWorker_def split: bool.split)
    then show "tryGetWorker s = (r, s') \<Longrightarrow> got r s s'"
      using validate_got [of s a c s1] validate_skipped [OF recv, of a s1] v recv Some
      by (cases ok) (auto simp: got_def)
  qed
qed


fun worker_got :: "get_result \<Rightarrow> addr option" where
  "worker_got (Got a) = Some a"
| "worker_got (Refused e) = None"
| "worker_got Waiting = None"

lemma got_trans: "flow {#} {#} s s1 \<Longrightarrow> got r s1 s' \<Longrightarrow> got r s s'"
proof -
  assume f: "flow {#} {#} s s1" and g: "got r s1 s'"
  from flow_frame_simps(8) [OF f] have b: "p_busyWorkers s1 = p_busyWorkers s" .
  with f g flow_trans0 [OF flow_counters(1) [OF f]] flow_trans0 [OF f] show "got r s s'"
    by (auto simp: got_def split: option.splits)
qed

lemma ctx_result_no_worker [simp]: "worker_got (ctx_result ctx s) = None"
  by (cases ctx) simp_all

lemma get_wait_got: "get_wait takeDone ctx s = (r, s') \<Longrightarrow> got (worker_got r) s s'"
proof (induction takeDone ctx s arbitrary: r s' rule: get_wait.induct)
  case (1 takeDone ctx s)
  show ?case
  proof (cases "try_recv (p_available s)")
    case None
    with "1.prems" show ?thesis by (subst (asm) get_wait.simps) (auto simp: got_def)
  next
    case (Some wc)
    then obtain w c where recv: "try_recv (p_available s) = Some (w, c)" by (cases wc) auto
    show ?thesis
    proof (cases "takeDone 0 \<and> ctx_result ctx s \<noteq> Waiting")
      case True
      with "1.prems" recv show ?thesis by (subst (asm) get_wait.simps) (auto simp: got_def)
    next
      case go_on: False
      show ?thesis
      proof (cases w)
        case None
        with "1.prems" recv go_on flow_weaken [OF flow_recv [OF recv], of "{#}" "{#}"] show ?thesis
          by (subst (asm) get_wait.simps) (auto simp: got_def)
      next
        case (Some a)
        obtain ok s1 where v: "validateAndPrepareWorker a (s\<lparr>p_available := c\<rparr>) = (ok, s1)" by fastforce
        show ?thesis
        proof (cases ok)
          case True
          with "1.prems" recv go_on Some v have "r = Got a" "s' = s1"
            by (subst (asm) get_wait.simps; auto)+
          with validate_got [of s a c s1] recv Some v True show ?thesis by simp
        next
          case False
          with "1.prems" recv go_on Some v have "get_wait (\<lambda>n. takeDone (Suc n)) ctx s1 = (r, s')"
            by (subst (asm) get_wait.simps) auto
          with "1.IH" [OF recv refl go_on Some] v False have "got (worker_got r) s1 s'" by auto
          with validate_skipped [OF recv, of a s1] v False show ?thesis by (auto intro: got_trans)
        qed
      qed
    qed
  qed
qed

lemma get_wait_waiting: "get_wait takeDone ctx s = (Waiting, s') \<Longrightarrow> buf (p_available s') = []"
proof (induction takeDone ctx s rule: get_wait.induct)
  case (1 takeDone ctx s)
  show ?case
  proof (cases "try_recv (p_available s)")
    case None
    with "1.prems" show ?thesis by (subst (asm) get_wait.simps) (auto simp: recv_None_iff)
  next
    case (Some wc)
    then obtain w c where recv: "try_recv (p_available s) = Some (w, c)" by (cases wc) auto
    have go_on: "\<not> (takeDone 0 \<and> ctx_result ctx s \<noteq> Waiting)"
      using "1.prems" recv by (subst (asm) get_wait.simps) (auto split: if_splits)
    obtain a where w: "w = Some a"
      using "1.prems" recv go_on by (subst (asm) get_wait.simps) (auto split: option.splits)
    obtain ok s1 where v: "validateAndPrepareWorker a (s\<lparr>p_available := c\<rparr>) = (ok, s1)" by fastforce
    with "1.prems" recv go_on w have "\<not> ok" "get_wait (\<lambda>n. takeDone (Suc n)) ctx s1 = (Waiting, s')"
      by (subst (asm) get_wait.simps; auto split: bool.splits)+
    with "1.IH" [OF recv refl go_on w] v show ?thesis by auto
  qed
qed


lemma queued_at_simps [simp]:
  "queued_at n (queued_at m s) = queued_at n s" "queued_at (p_queuedRequests s) s = s"
  "isProcessDead a (queued_at n s) = isProcessDead a s"
  by (simp_all add: queued_at_def isProcessDead_def signal0_def split: command.split)

lemma queued_busy: "queued_at n (busy_at m s) = busy_at m (queued_at n s)"
  by (simp add: queued_at_def busy_at_def)

lemma got_queued: "got r s s' \<Longrightarrow> got r (queued_at n s) (queued_at n s')"
  using flow_counters(2) [of "{#}" "{#}" s s' n] flow_counters(2)
  by (fastforce simp: got_def queued_busy [symmetric] split: option.splits)

lemma got_queued_eq: "got r s s' \<Longrightarrow> p_queuedRequests s' = p_queuedRequests s"
  by (auto simp: got_def flow_def split: option.splits)

lemma leave_queue_got:
  assumes "got (worker_got r0) s s0" and l: "leave_queue counted (r0, s0) = (r, s')"
  shows "r = r0" and "got (worker_got r)
     (queued_at (if counted \<and> r \<noteq> Waiting then wrap32 (p_queuedRequests s - 1) else p_queuedRequests s) s) s'"
proof -
  from l show r: "r = r0" by (auto simp: leave_queue_def split: get_result.splits)
  have "s' = (if counted \<and> r \<noteq> Waiting then queued_at (wrap32 (p_queuedRequests s - 1)) s0 else s0)"
    using l got_queued_eq [OF assms(1)]
    by (auto simp: leave_queue_def queued_at_def split: get_result.splits)
  with got_queued [OF assms(1)] assms(1) r
  show "got (worker_got r)
     (queued_at (if counted \<and> r \<noteq> Waiting then wrap32 (p_queuedRequests s - 1) else p_queuedRequests s) s) s'"
    by auto
qed

lemma get_resume_got:
  assumes "get_resume counted takeDone ctx s = (r, s')"
  shows "got (worker_got r)
     (queued_at (if counted \<and> r \<noteq> Waiting then wrap32 (p_queuedRequests s - 1) else p_queuedRequests s) s) s'"
proof -
  obtain r0 s0 where w: "get_wait takeDone ctx s = (r0, s0)" by fastforce
  with assms have "leave_queue counted (r0, s0) = (r, s')" by (simp add: get_resume_def)
  from leave_queue_got(2) [OF get_wait_got [OF w] this] show ?thesis .
qed

lemma admit_cases:
  "admit s = (Inr counted, s') \<Longrightarrow>
     s' = (if counted then queued_at (wrap32 (p_queuedRequests s + 1)) s else s) \<and>
     counted = GetBackpressureEnabled (p_runtime s) \<and>
     (GetBackpressureEnabled (p_runtime s) \<longrightarrow> 0 < GetBackpressureMaxQueue (p_runtime s) \<longrightarrow>
        p_queuedRequests s < wrap32 (GetBackpressureMaxQueue (p_runtime s)))"
  "admit s = (Inl e, s') \<Longrightarrow> s' = s"
  by (auto simp: admit_def Let_def queued_at_def split: if_splits)

lemma flow_scale_on_demand: "flow {#} {#} s (scale_on_demand s)"
proof (cases "spawnCircuitOpen s")
  case (Pair opened s1)
  with flow_tidy [OF tidy_circuit [of s]] have 1: "flow {#} {#} s s1" by simp
  from flow_trans0 [OF 1 flow_go [of GoAddWorker s1 1]]
  have "flow {#} {#} s (go GoAddWorker s1)" by (simp add: calm_tasks_def)
  with 1 Pair show ?thesis by (simp add: scale_on_demand_def Let_def split: bool.split)
qed

definition before_admission :: "pool \<Rightarrow> pool" where
  "before_admission s = snd (pruneDeadWorkers (snd (compactAvailableQueue s)))"

lemma flow_before_admission: "flow {#} {#} s (before_admission s)"
  unfolding before_admission_def by (rule flow_trans0 [OF flow_compact flow_tidy [OF tidy_prune]])

lemma GetWorker_got:
  assumes g: "GetWorker takeDone ctx s = ((r, counted), s')"
    and range: "- 2147483648 \<le> p_queuedRequests s" "p_queuedRequests s < 2147483647"
  shows "got (worker_got r)
      (queued_at (if counted \<and> r = Waiting then p_queuedRequests s + 1 else p_queuedRequests s) s) s'"
proof -
  obtain r0 s1 where t: "tryGetWorker s = (r0, s1)" by fastforce
  from tryGet_got [OF t] have g0: "got r0 s s1" .
  show "got (worker_got r)
      (queued_at (if counted \<and> r = Waiting then p_queuedRequests s + 1 else p_queuedRequests s) s) s'"
  proof (cases r0)
    case (Some a)
    with g t g0 show ?thesis by (auto simp: GetWorker_def)
  next
    case None
    define s2 where "s2 = before_admission s1"
    have f2: "flow {#} {#} s s2"
      using g0 None flow_trans0 [OF _ flow_before_admission [of s1]] by (simp add: got_def s2_def)
    note q2 = flow_frame_simps(9) [OF f2]
    obtain ad s3 where a: "admit s2 = (ad, s3)" by fastforce
    have gg: "GetWorker takeDone ctx s =
        (case ad of Inl e \<Rightarrow> ((Refused e, False), s3)
         | Inr cnt \<Rightarrow> (case get_resume cnt takeDone ctx (scale_on_demand s3) of (r, s4) \<Rightarrow> ((r, cnt), s4)))"
      using t None a by (simp add: GetWorker_def s2_def before_admission_def)
    show ?thesis
    proof (cases ad)
      case (Inl e)
      with gg g admit_cases(2) [of s2 e s3] a f2 show ?thesis by (auto simp: got_def)
    next
      case (Inr cnt)
      obtain r4 s4 where res: "get_resume cnt takeDone ctx (scale_on_demand s3) = (r4, s4)" by fastforce
      from gg g Inr res have e: "r4 = r" "counted = cnt" "s' = s4" by auto
      from admit_cases(1) [of s2 cnt s3] a Inr
      have s3': "s3 = (if cnt then queued_at (wrap32 (p_queuedRequests s2 + 1)) s2 else s2)" by simp
      have s3: "s3 = queued_at (if cnt then wrap32 (p_queuedRequests s + 1) else p_queuedRequests s) s2"
        unfolding s3' q2 [symmetric] by simp
      have f4: "flow {#} {#} (queued_at (p_queuedRequests s3) s) (scale_on_demand s3)"
        using flow_trans0 [OF flow_counters(2) [OF f2, of "p_queuedRequests s3"]
            flow_scale_on_demand] unfolding s3 by simp
      from flow_frame_simps(9) [OF f4]
      have q4: "p_queuedRequests (scale_on_demand s3) = (if cnt then p_queuedRequests s + 1 else p_queuedRequests s)"
        using range by (simp add: s3)
      let ?n = "if cnt \<and> r = Waiting then p_queuedRequests s + 1 else p_queuedRequests s"
      have "(if cnt \<and> r \<noteq> Waiting then wrap32 (p_queuedRequests (scale_on_demand s3) - 1)
             else p_queuedRequests (scale_on_demand s3)) = ?n"
        using q4 range by auto
      with get_resume_got [OF res] e
      have "got (worker_got r) (queued_at ?n (scale_on_demand s3)) s'" by simp
      moreover have "flow {#} {#} (queued_at ?n s) (queued_at ?n (scale_on_demand s3))"
        using flow_counters(2) [OF f4, of ?n] by simp
      ultimately show ?thesis using e by (auto intro: got_trans)
    qed
  qed
qed


section \<open>Giving a worker back\<close>

text \<open>A worker handed over to the queue: it may have entered it, or its sender is parked with it.\<close>

definition given :: "addr \<Rightarrow> sender \<Rightarrow> pool \<Rightarrow> pool \<Rightarrow> bool" where
  "given a from s s' \<longleftrightarrow> flow {#} {#Some a#} s s' \<or> (\<exists>s1. flow {#} {#} s s1 \<and> s' = park a from s1)"

lemma given_flow: "flow {#} {#} s s' \<Longrightarrow> given a from s s'"
  unfolding given_def using flow_weaken [of "{#}" "{#}" s s' "{#}" "{#Some a#}"] by simp

lemma given_trans: "flow {#} {#} s s1 \<Longrightarrow> given a from s1 s' \<Longrightarrow> given a from s s'"
  unfolding given_def by (metis flow_trans0)

lemma given_pushed: "flow {#} (pushed_in r a) s s' \<Longrightarrow> given a from s s'"
  unfolding given_def by (rule disjI1, rule flow_weaken) auto

lemma flow_destroy: "flow {#} {#} s (destroyWorker a s)"
  unfolding destroyWorker_def by (rule flow_tidy [OF tidy_only_worker [OF only_worker_terminate]])

lemma release_or_park_given: "given a from s (release_or_park a from s)"
proof (cases "releaseWorkerToAvailable (Some a) s")
  case (Pair r s1)
  from flow_release [OF Pair] have f: "flow {#} (pushed_in r a) s s1" .
  show ?thesis
  proof (cases r)
    case Blocked
    with f Pair show ?thesis by (auto simp: release_or_park_def given_def)
  qed (use f Pair given_pushed [OF f] in \<open>simp_all add: release_or_park_def\<close>)
qed

definition busy_after_release :: "pool \<Rightarrow> int" where
  "busy_after_release s = (let n = wrap32 (p_busyWorkers s - 1) in if n < 0 then 0 else n)"

lemma ReleaseWorker_given:
  "given a FromRequest (busy_at (busy_after_release s) s) (ReleaseWorker a resp s)"
proof -
  let ?s0 = "busy_at (busy_after_release s) s"
  let ?s2 = "upd_worker a (\<lambda>w. w\<lparr>w_requestCount := wrap64 (w_requestCount w + 1)\<rparr>) ?s0"
  let ?s3 = "set_state WorkerStateIdle a ?s2"
  let ?s4 = "?s3\<lparr>p_lastBusyTime := now ?s3, p_totalRequests := wrap64 (p_totalRequests ?s3 + 1)\<rparr>"
  have s1: "s\<lparr>p_busyWorkers := (let n = wrap32 (p_busyWorkers s - 1) in if n < 0 then 0 else n)\<rparr> = ?s0"
    by (simp add: busy_at_def busy_after_release_def)
  have f2: "flow {#} {#} ?s0 ?s2" by (rule flow_tidy [OF tidy_upd]) simp
  have st: "flow {#} {#} ?s0 (set_state st a ?s2)" for st
    by (rule flow_trans0 [OF f2 flow_tidy [OF tidy_only_worker [OF only_worker_set_state]]])
  have f4: "flow {#} {#} ?s0 ?s4" by (rule flow_field(4) [OF flow_field(3) [OF st]])
  obtain r s5 where rel: "releaseWorkerToAvailable (Some a) ?s4 = (r, s5)" by fastforce
  from flow_trans0 [OF f4 flow_release [OF rel]] have f5: "flow {#} (pushed_in r a) ?s0 s5" .
  have e: "ReleaseWorker a resp s =
      (if state_of ?s2 a = WorkerStateDead then scheduleRespawn a ?s2
       else if recycles (case resp of Some r \<Rightarrow> rm_Recycle (resp_Meta r) | None \<Rightarrow> False) a ?s2
       then scheduleRespawn a (set_state WorkerStateRespawning a ?s2)
       else case (r, s5) of
              (Pushed, s5) \<Rightarrow> s5
            | (NotPushed, s5) \<Rightarrow> if p_ctxDone s5 then destroyWorker a s5 else s5
            | (Blocked, s5) \<Rightarrow> park a FromRequest s5)"
    unfolding ReleaseWorker_def Let_def s1 [unfolded Let_def] rel by (rule refl)
  have last: "given a FromRequest ?s0 (case (r, s5) of
              (Pushed, s5) \<Rightarrow> s5
            | (NotPushed, s5) \<Rightarrow> if p_ctxDone s5 then destroyWorker a s5 else s5
            | (Blocked, s5) \<Rightarrow> park a FromRequest s5)"
    using f5 given_pushed [OF f5] given_flow [OF flow_trans0 [OF _ flow_destroy [of s5 a]]]
    by (cases r) (auto simp: given_def)
  show ?thesis
    unfolding e
    using last given_flow [OF flow_trans0 [OF f2 flow_tidy [OF tidy_schedule]]]
      given_flow [OF flow_trans0 [OF st flow_tidy [OF tidy_schedule]]] by simp
qed

lemma flow_cancel: "flow (add_mset x out) (add_mset x inn) s s' \<Longrightarrow> flow out inn s s'"
  by (simp add: flow_def)

text \<open>With room in the queue the release does not block.\<close>

lemma release_not_blocked:
  assumes "length (buf (p_available s)) < cap (p_available s)"
  shows "fst (releaseWorkerToAvailable (Some a) s) \<noteq> Blocked"
proof -
  have "tryPushAvailable a (set_state WorkerStateIdle a s) =
      (True, set_queue (buf (p_available s) @ [Some a]) (set_state WorkerStateIdle a s))"
    using assms by (simp add: tryPush_simps set_queue_def)
  then show ?thesis by (simp add: releaseWorkerToAvailable_def Let_def)
qed

lemma flow_release_room:
  assumes "length (buf (p_available s)) < cap (p_available s)"
  shows "flow {#} {#Some a#} s (release_or_park a from s)"
proof (cases "releaseWorkerToAvailable (Some a) s")
  case (Pair r s1)
  from release_not_blocked [OF assms, of a] Pair flow_release [OF Pair]
  show ?thesis
    by (cases r) (auto simp: release_or_park_def intro: flow_weaken)
qed

lemma tidy_remove: "tidy s (removeWorkerFromSlice i s)"
  using remove_first_subset [of "\<lambda>a. w_ID (worker s a) = i" "p_workers s"]
  by (auto simp: removeWorkerFromSlice_def tidy_def now_def length_remove_first intro: remove_first_distinct)

lemma flow_removeWorker:
  assumes "length (buf (p_available s)) < cap (p_available s)"
  shows "flow {#} {#Some a#} s (removeWorker a s)"
proof -
  let ?s2 = "add_active (- 1) (destroyWorker a (removeWorkerFromSlice (w_ID (worker s a)) s))"
  have "flow {#} {#} s ?s2"
    by (rule flow_trans0 [OF flow_trans0 [OF flow_tidy [OF tidy_remove] flow_destroy] flow_tidy [OF tidy_add_active]])
  then have "flow {#} {#Some a#} s ?s2" "flow {#} {#Some a#} s (?s2\<lparr>p_activeWorkers := n\<rparr>)" for n
    by (auto intro: flow_weaken flow_field(2))
  then show ?thesis
    using flow_release_room [OF assms, of a FromScaler] by (simp add: removeWorker_def Let_def)
qed

lemma flow_take_idle:
  assumes recv: "try_recv (p_available s) = Some (w, c)" and t: "take_idle w (s\<lparr>p_available := c\<rparr>) = Some s'"
    and len: "length (buf (p_available s)) \<le> cap (p_available s)"
  shows "flow {#} {#} s s'"
proof -
  let ?s0 = "s\<lparr>p_available := c\<rparr>"
  obtain a where w: "w = Some a" and s': "s' = (if state_of ?s0 a = WorkerStateIdle then removeWorker a ?s0
      else snd (tryPushAvailable a ?s0))"
    using t by (auto simp: take_idle_def split: option.splits)
  have room: "length (buf (p_available ?s0)) < cap (p_available ?s0)"
    using gochan.recv_bounded [OF recv len] by simp
  have "flow {#} {#Some a#} ?s0 (snd (tryPushAvailable a ?s0))"
    by (rule flow_weaken [OF flow_tryPush]) simp_all
  with flow_removeWorker [OF room] s' have "flow {#} {#Some a#} ?s0 s'" by simp
  from flow_trans [OF flow_recv [OF recv] this] w show ?thesis by (auto intro: flow_cancel)
qed


section \<open>The background ticks\<close>

lemma tidy_health_check: "tidy s (health_check a s)"
proof -
  obtain d s1 where h: "shouldHealthRespawn a s = (d, s1)" by fastforce
  have "tidy s (snd (shouldHealthRespawn a s))"
    using tidy_only_worker [OF only_worker_isWorkerDead [of a s]] by (simp add: shouldHealthRespawn_def)
  with h have "tidy s s1" by simp
  with h show ?thesis
    by (auto simp: health_check_def split: bool.split intro: tidy_trans [OF _ tidy_schedule])
qed

lemma flow_health_tick: "flow {#} {#} s (checkAndRespawnDeadWorkers s)"
proof -
  let ?s1 = "snd (compactAvailableQueue s)"
  obtain pruned s2 where p: "pruneDeadWorkers ?s1 = (pruned, s2)" by fastforce
  with flow_trans0 [OF flow_compact flow_tidy [OF tidy_prune]] have f2: "flow {#} {#} s s2" by (metis snd_conv)
  have f3: "flow {#} {#} s (reconcileStuckWorkers s2)" by (rule flow_trans0 [OF f2 flow_tidy [OF tidy_reconcile]])
  have f4: "flow {#} {#} s (if pruned > 0 then syncActiveWorkersCount (reconcileStuckWorkers s2) else reconcileStuckWorkers s2)"
    using f3 flow_trans0 [OF f3 flow_tidy [OF tidy_sync]] by simp
  show ?thesis
    unfolding checkAndRespawnDeadWorkers_def Let_def p prod.case
    by (rule flow_trans0 [OF flow_trans0 [OF f4 flow_tidy [OF tidy_rel.fold_op [OF tidy_health_check]]] flow_ensureMin])
qed

lemma flow_scale_up: "flow {#} {#} s (scale_up_tick living minW maxW s)"
proof -
  have "flow {#} {#} s (go GoAddWorker (s\<lparr>p_lastScaleUp := t\<rparr>))" for t
    using flow_trans0 [OF flow_field(5) [OF flow_refl] flow_go [of GoAddWorker _ 1]] by (simp add: calm_tasks_def)
  then show ?thesis by (simp add: scale_up_tick_def Let_def)
qed

lemma flow_aggressive:
  assumes "aggressive_loop minW s = Some (b, s')" and "length (buf (p_available s)) \<le> cap (p_available s)"
  shows "flow {#} {#} s s'"
proof -
  have "length (buf (p_available s)) \<le> cap (p_available s) \<longrightarrow> flow {#} {#} s (snd (b, s'))"
  proof (rule aggressive_loop.raw_induct [OF _ assms(1),
        where P = "\<lambda>m s r. length (buf (p_available s)) \<le> cap (p_available s) \<longrightarrow> flow {#} {#} s (snd r)"])
    fix f :: "int \<Rightarrow> pool \<Rightarrow> (bool \<times> pool) option" and m s and r :: "bool \<times> pool"
    assume IH: "\<And>m s r. f m s = Some r \<Longrightarrow>
        length (buf (p_available s)) \<le> cap (p_available s) \<longrightarrow> flow {#} {#} s (snd r)"
      and body: "(if livingWorkerCount s \<le> m then Some (False, s)
        else case try_recv (p_available s) of None \<Rightarrow> Some (False, s)
        | Some (w, c) \<Rightarrow> (case take_idle w (s\<lparr>p_available := c\<rparr>) of
             None \<Rightarrow> Some (True, s\<lparr>p_available := c\<rparr>) | Some s1 \<Rightarrow> f m s1)) = Some r"
    show "length (buf (p_available s)) \<le> cap (p_available s) \<longrightarrow> flow {#} {#} s (snd r)"
    proof
      assume len: "length (buf (p_available s)) \<le> cap (p_available s)"
      show "flow {#} {#} s (snd r)"
      proof (cases "livingWorkerCount s \<le> m \<or> try_recv (p_available s) = None")
        case True
        with body show ?thesis by (auto split: if_splits)
      next
        case False
        then obtain w c where recv: "try_recv (p_available s) = Some (w, c)" by auto
        show ?thesis
        proof (cases "take_idle w (s\<lparr>p_available := c\<rparr>)")
          case None
          with body recv False have "r = (True, s\<lparr>p_available := c\<rparr>)" by simp
          then show ?thesis using flow_weaken [OF flow_recv [OF recv], of "{#}" "{#}"] by simp
        next
          case (Some s1)
          with body recv False have "f m s1 = Some r" by simp
          from IH [OF this] flow_take_idle [OF recv Some len] len show ?thesis
            by (metis flow_def flow_trans0)
        qed
      qed
    qed
  qed
  with assms(2) show ?thesis by simp
qed

lemma flow_scaler_tick:
  assumes t: "scaler_tick s = Some (b, s')" and len: "length (buf (p_available s)) \<le> cap (p_available s)"
  shows "flow {#} {#} s s'"
proof -
  define s1 where "s1 = scale_up_tick (livingWorkerCount s) (GetMinWorkers (p_runtime s)) (GetMaxWorkers (p_runtime s)) s"
  have f1: "flow {#} {#} s s1" unfolding s1_def by (rule flow_scale_up)
  have len1: "length (buf (p_available s1)) \<le> cap (p_available s1)" using f1 len by (simp add: flow_def)
  have fe: "flow {#} {#} s (ensureMinWorkers s2)" if "flow {#} {#} s s2" for s2
    by (rule flow_trans0 [OF that flow_ensureMin])
  have fl: "flow {#} {#} s (log_stable s1)" using f1 by (simp add: log_stable_def flow_field)
  have ag: "flow {#} {#} s s2" if "aggressive_loop (GetMinWorkers (p_runtime s)) s1 = Some (b2, s2)" for b2 s2
    by (rule flow_trans0 [OF f1 flow_aggressive [OF that len1]])
  have tk: "flow {#} {#} s s2"
    if "try_recv (p_available s1) = Some (w, c)" "take_idle w (s1\<lparr>p_available := c\<rparr>) = Some s2" for w c s2
    by (rule flow_trans0 [OF f1 flow_take_idle [OF that len1]])
  have nil: "flow {#} {#} s (s1\<lparr>p_available := c\<rparr>)" if "try_recv (p_available s1) = Some (w, c)" for w c
    by (rule flow_trans0 [OF f1 flow_weaken [OF flow_recv [OF that]]]) simp_all
  show ?thesis
    using t unfolding scaler_tick_def Let_def s1_def [symmetric]
    by (auto split: if_splits option.splits intro: fe f1 fl ag) (use nil tk fe in \<open>blast+\<close>)
qed

end
