(* ===== verification/Config.thy ===== *)
theory Config
  imports GoText
begin

text \<open>
  \<open>config.go\<close>: the configuration file's schema, its defaults, loading with normalisation, and
  validation. Reading the file is the operating system's and decoding it is package \<open>yaml.v3\<close>'s:
  what the file system answers is the argument \<open>file\<close> of \<open>LoadConfig\<close>, and the decoder, which
  overwrites the fields present in the document, is its argument \<open>unmarshal\<close>.
\<close>

record ServerConfig =
  sc_Host :: string
  sc_Port :: int
  sc_ReadTimeout :: int
  sc_WriteTimeout :: int
  sc_EnableHTTP2 :: bool
  sc_ReadTimeoutSecs :: int
  sc_WriteTimeoutSecs :: int
  sc_Backlog :: int

record BackpressureConfig =
  bp_Enabled :: bool
  bp_MaxQueue :: int

record QueueTimeoutConfig =
  qt_Enabled :: bool
  qt_TimeoutMs :: int

record WorkersConfig =
  wc_Count :: int
  wc_MinWorkers :: int
  wc_MaxWorkers :: int
  wc_ScaleDownIdleSecs :: int
  wc_AggressiveScaleDownSecs :: int
  wc_KeepWarm :: bool
  wc_MaxRequests :: int
  wc_Timeout :: int
  wc_TimeoutSecs :: int
  wc_SocketDir :: string
  wc_WarmupStaggerMs :: int
  wc_FastWarmup :: bool
  wc_SpawnTimeoutSecs :: int
  wc_HandshakeTimeoutSecs :: int
  wc_MaxParallelSpawns :: int
  wc_EnsureMinDebounceMs :: int
  wc_RespawnBackoffMs :: int
  wc_RespawnTimeoutSecs :: int
  wc_Backpressure :: BackpressureConfig
  wc_QueueTimeout :: QueueTimeoutConfig

record PHPConfig =
  php_Binary :: string
  php_WorkerScript :: string

record LoggingConfig =
  lc_Level :: string
  lc_Format :: string

record Config =
  c_Server :: ServerConfig
  c_Workers :: WorkersConfig
  c_PHP :: PHPConfig
  c_Logging :: LoggingConfig

section \<open>Defaults\<close>

definition DefaultConfig :: Config where
  "DefaultConfig =
     \<lparr>c_Server = \<lparr>sc_Host = ''0.0.0.0'', sc_Port = 8888,
        sc_ReadTimeout = 60 * Second, sc_WriteTimeout = 60 * Second, sc_EnableHTTP2 = True,
        sc_ReadTimeoutSecs = 60, sc_WriteTimeoutSecs = 60, sc_Backlog = 4096\<rparr>,
      c_Workers = \<lparr>wc_Count = 4, wc_MinWorkers = 4, wc_MaxWorkers = 4,
        wc_ScaleDownIdleSecs = 0, wc_AggressiveScaleDownSecs = 0, wc_KeepWarm = False,
        wc_MaxRequests = 1000, wc_Timeout = 30 * Second, wc_TimeoutSecs = 30,
        wc_SocketDir = '''', wc_WarmupStaggerMs = 0, wc_FastWarmup = False,
        wc_SpawnTimeoutSecs = 120, wc_HandshakeTimeoutSecs = 15, wc_MaxParallelSpawns = 4,
        wc_EnsureMinDebounceMs = 500, wc_RespawnBackoffMs = 400, wc_RespawnTimeoutSecs = 120,
        wc_Backpressure = \<lparr>bp_Enabled = False, bp_MaxQueue = 0\<rparr>,
        wc_QueueTimeout = \<lparr>qt_Enabled = False, qt_TimeoutMs = 0\<rparr>\<rparr>,
      c_PHP = \<lparr>php_Binary = ''php'', php_WorkerScript = ''worker.php''\<rparr>,
      c_Logging = \<lparr>lc_Level = ''info'', lc_Format = ''text''\<rparr>\<rparr>"

section \<open>Loading\<close>

datatype file_result = FileMissing | FileError error | FileData string

definition default_to :: "int \<Rightarrow> int \<Rightarrow> int" where
  "default_to d n = (if n \<le> 0 then d else n)"

definition secs_to_duration :: "int \<Rightarrow> int \<Rightarrow> int" where
  "secs_to_duration secs old = (if secs > 0 then wrap64 (secs * Second) else old)"

definition normalize_server :: "ServerConfig \<Rightarrow> ServerConfig" where
  "normalize_server s =
     s\<lparr>sc_ReadTimeout := secs_to_duration (sc_ReadTimeoutSecs s) (sc_ReadTimeout s),
       sc_WriteTimeout := secs_to_duration (sc_WriteTimeoutSecs s) (sc_WriteTimeout s),
       sc_Backlog := default_to 4096 (sc_Backlog s)\<rparr>"

definition normalize_workers :: "WorkersConfig \<Rightarrow> WorkersConfig" where
  "normalize_workers w =
     w\<lparr>wc_Timeout := secs_to_duration (wc_TimeoutSecs w) (wc_Timeout w),
       wc_SpawnTimeoutSecs := default_to 120 (wc_SpawnTimeoutSecs w),
       wc_HandshakeTimeoutSecs := default_to 15 (wc_HandshakeTimeoutSecs w),
       wc_MaxParallelSpawns := default_to 4 (wc_MaxParallelSpawns w),
       wc_EnsureMinDebounceMs := default_to 500 (wc_EnsureMinDebounceMs w),
       wc_RespawnBackoffMs := default_to 400 (wc_RespawnBackoffMs w),
       wc_RespawnTimeoutSecs := default_to 120 (wc_RespawnTimeoutSecs w),
       wc_MinWorkers := default_to (wc_Count w) (wc_MinWorkers w),
       wc_MaxWorkers := default_to (wc_Count w) (wc_MaxWorkers w)\<rparr>"

definition LoadConfig ::
  "(string \<Rightarrow> Config \<Rightarrow> error + Config) \<Rightarrow> file_result \<Rightarrow> error + Config" where
  "LoadConfig unmarshal file =
     (case file of
        FileMissing \<Rightarrow> Inr DefaultConfig
      | FileError e \<Rightarrow> Inl (Wrap ''failed to read config file'' e)
      | FileData d \<Rightarrow>
          (case unmarshal d DefaultConfig of
             Inl e \<Rightarrow> Inl (Wrap ''failed to parse YAML'' e)
           | Inr c \<Rightarrow> Inr (c\<lparr>c_Server := normalize_server (c_Server c),
                             c_Workers := normalize_workers (c_Workers c)\<rparr>)))"

section \<open>Validation\<close>

text \<open>The messages of \<open>Validate\<close>, one constructor each; the first check that fails decides.\<close>

datatype config_error =
    InvalidPort int
  | CountTooSmall
  | MinMaxTooSmall
  | BadOrder int int int
  | TimeoutTooLow int
  | NegativeMaxQueue
  | BadQueueTimeout

definition Validate :: "Config \<Rightarrow> config_error option" where
  "Validate c =
     (let s = c_Server c; w = c_Workers c in
      if sc_Port s < 1 \<or> sc_Port s > 65535 then Some (InvalidPort (sc_Port s))
      else if wc_Count w < 1 then Some CountTooSmall
      else if wc_MinWorkers w < 1 \<or> wc_MaxWorkers w < 1 then Some MinMaxTooSmall
      else if wc_MinWorkers w > wc_Count w \<or> wc_Count w > wc_MaxWorkers w
        then Some (BadOrder (wc_MinWorkers w) (wc_Count w) (wc_MaxWorkers w))
      else if wc_Timeout w < 1 * Second then Some (TimeoutTooLow (wc_Timeout w))
      else if bp_Enabled (wc_Backpressure w) \<and> bp_MaxQueue (wc_Backpressure w) < 0
        then Some NegativeMaxQueue
      else if qt_Enabled (wc_QueueTimeout w) \<and> qt_TimeoutMs (wc_QueueTimeout w) \<le> 0
        then Some BadQueueTimeout
      else None)"

definition Address :: "Config \<Rightarrow> string" where
  "Address c = sc_Host (c_Server c) @ '':'' @ itoa (sc_Port (c_Server c))"

section \<open>Lemmas\<close>

text \<open>What a configuration that passed \<open>Validate\<close> satisfies.\<close>

definition config_valid :: "Config \<Rightarrow> bool" where
  "config_valid c \<longleftrightarrow>
     1 \<le> sc_Port (c_Server c) \<and> sc_Port (c_Server c) \<le> 65535 \<and>
     1 \<le> wc_MinWorkers (c_Workers c) \<and>
     wc_MinWorkers (c_Workers c) \<le> wc_Count (c_Workers c) \<and>
     wc_Count (c_Workers c) \<le> wc_MaxWorkers (c_Workers c) \<and>
     Second \<le> wc_Timeout (c_Workers c) \<and>
     (bp_Enabled (wc_Backpressure (c_Workers c)) \<longrightarrow> 0 \<le> bp_MaxQueue (wc_Backpressure (c_Workers c))) \<and>
     (qt_Enabled (wc_QueueTimeout (c_Workers c)) \<longrightarrow> 0 < qt_TimeoutMs (wc_QueueTimeout (c_Workers c)))"

lemma Validate_None_iff: "Validate c = None \<longleftrightarrow> config_valid c"
  by (auto simp: Validate_def config_valid_def Let_def)

lemma default_to_pos: "0 < d \<Longrightarrow> 0 < default_to d n"
  by (simp add: default_to_def)

lemma default_to_cases: "default_to d n = (if 0 < n then n else d)"
  by (simp add: default_to_def)

lemma secs_to_duration_exact:
  "0 < secs \<Longrightarrow> secs \<le> 9223372036 \<Longrightarrow> secs_to_duration secs old = secs * Second"
  by (simp add: secs_to_duration_def Second_def)

end
