(* ===== verification/Logger.thy ===== *)
theory Logger
  imports GoText
begin

text \<open>
  \<open>logger.go\<close>: the log levels with their order, the parsing of the configured level, the filter
  every message passes, and loggers with a prefix. A message that passes the filter is the line
  \<open>[timestamp] LEVEL: text\<close> (the formatting of the time and of the arguments is \<open>fmt\<close>'s and is
  given here as the finished strings); \<open>None\<close> is a message that is not written.
\<close>

datatype LogLevel = LogLevelDebug | LogLevelInfo | LogLevelWarn | LogLevelError | LogLevelSilent

text \<open>The constants are numbered by \<open>iota\<close> and compared as integers.\<close>

fun level_number :: "LogLevel \<Rightarrow> int" where
  "level_number LogLevelDebug = 0"
| "level_number LogLevelInfo = 1"
| "level_number LogLevelWarn = 2"
| "level_number LogLevelError = 3"
| "level_number LogLevelSilent = 4"

lemma level_number_inj: "level_number a = level_number b \<Longrightarrow> a = b"
  by (cases a; cases b) simp_all

instantiation LogLevel :: linorder
begin

definition less_eq_LogLevel :: "LogLevel \<Rightarrow> LogLevel \<Rightarrow> bool" where
  "a \<le> b \<longleftrightarrow> level_number a \<le> level_number b"

definition less_LogLevel :: "LogLevel \<Rightarrow> LogLevel \<Rightarrow> bool" where
  "a < b \<longleftrightarrow> level_number a < level_number b"

instance
  by standard (auto simp: less_eq_LogLevel_def less_LogLevel_def level_number_inj)

end

lemma silent_top [simp]: "l \<le> LogLevelSilent"
  by (cases l) (simp_all add: less_eq_LogLevel_def)

record Logger =
  level :: LogLevel
  prefix :: string

definition parseLogLevel :: "string \<Rightarrow> LogLevel" where
  "parseLogLevel s =
     (let l = to_lower s in
      if l = ''debug'' then LogLevelDebug
      else if l = ''info'' then LogLevelInfo
      else if l = ''warn'' \<or> l = ''warning'' then LogLevelWarn
      else if l = ''error'' then LogLevelError
      else if l = ''silent'' \<or> l = ''none'' \<or> l = ''off'' then LogLevelSilent
      else LogLevelInfo)"

definition NewLogger :: "string \<Rightarrow> Logger" where
  "NewLogger s = \<lparr>level = parseLogLevel s, prefix = ''''\<rparr>"

definition IsDebugEnabled :: "Logger \<Rightarrow> bool" where
  "IsDebugEnabled l \<longleftrightarrow> level l \<le> LogLevelDebug"

definition log_line :: "Logger \<Rightarrow> LogLevel \<Rightarrow> string \<Rightarrow> string \<Rightarrow> string \<Rightarrow> string option" where
  "log_line l lvl levelStr timestamp msg =
     (if lvl < level l then None
      else Some (''['' @ timestamp @ ''] '' @ levelStr @ '': '' @ msg))"

definition Debug :: "Logger \<Rightarrow> string \<Rightarrow> string \<Rightarrow> string option" where
  "Debug l timestamp msg = log_line l LogLevelDebug ''DEBUG'' timestamp msg"

definition Info :: "Logger \<Rightarrow> string \<Rightarrow> string \<Rightarrow> string option" where
  "Info l timestamp msg = log_line l LogLevelInfo ''INFO'' timestamp msg"

definition Warn :: "Logger \<Rightarrow> string \<Rightarrow> string \<Rightarrow> string option" where
  "Warn l timestamp msg = log_line l LogLevelWarn ''WARN'' timestamp msg"

definition LogError :: "Logger \<Rightarrow> string \<Rightarrow> string \<Rightarrow> string option" where
  "LogError l timestamp msg = log_line l LogLevelError ''ERROR'' timestamp msg"

definition WithPrefix :: "Logger \<Rightarrow> string \<Rightarrow> Logger" where
  "WithPrefix l p = \<lparr>level = level l, prefix = p\<rparr>"

lemma log_line_None_iff: "log_line l lvl s t m = None \<longleftrightarrow> lvl < level l"
  by (simp add: log_line_def)

lemmas log_defs = Debug_def Info_def Warn_def LogError_def

end
