(* ===== verification/Server.thy ===== *)
theory Server
  imports Monitor Config Logger
begin

text \<open>
  \<open>main.go\<close>, the server: \<open>NewServer\<close>, \<open>handleRequest\<close>, \<open>BuildServerParamsInto\<close>, \<open>buildFullURI\<close>,
  \<open>httpToRequest\<close>, \<open>handleHealth\<close>, \<open>handleMetrics\<close>, \<open>handleConfig\<close>. The parsed HTTP request is a
  record; what a handler answers is an \<open>http_reply\<close>.
\<close>

section \<open>Requests and replies\<close>

record http_request =
  hr_Method :: string
  hr_Host :: string
  hr_TLS :: bool
  hr_RemoteAddr :: string
  hr_Proto :: string
  hr_Path :: string
  hr_RawQuery :: string
  hr_RequestURI :: string
  hr_Header :: "(string, string list) gomap"
  hr_Body :: "reader option"

text \<open>
  What a handler does with its \<open>ResponseWriter\<close>: \<open>http.Error\<close>, the status, headers and body given to
  \<open>WriteHeader\<close>, \<open>Add\<close> and \<open>Write\<close>, no reply at all, and the panic of \<open>WriteHeader\<close> on a status that has
  not three digits, which the HTTP server recovers from by closing the connection.
\<close>

datatype http_reply =
    HttpError int string
  | HttpResponse int "(string \<times> string) list" "byte list"
  | NoReply
  | ReplyPanic

record Metrics =
  m_RequestsTotal :: int
  m_RequestsSuccess :: int
  m_RequestsError :: int
  m_RequestsActive :: int
  m_LastRequestDurMs :: int

definition add_total :: "Metrics \<Rightarrow> Metrics" where
  "add_total m = m\<lparr>m_RequestsTotal := wrap64 (m_RequestsTotal m + 1)\<rparr>"

definition add_active_request :: "int \<Rightarrow> Metrics \<Rightarrow> Metrics" where
  "add_active_request n m = m\<lparr>m_RequestsActive := wrap32 (m_RequestsActive m + n)\<rparr>"

definition add_error :: "Metrics \<Rightarrow> Metrics" where
  "add_error m = m\<lparr>m_RequestsError := wrap64 (m_RequestsError m + 1)\<rparr>"

definition add_success :: "int \<Rightarrow> Metrics \<Rightarrow> Metrics" where
  "add_success durMs m =
     m\<lparr>m_RequestsSuccess := wrap64 (m_RequestsSuccess m + 1), m_LastRequestDurMs := durMs\<rparr>"

section \<open>Building the server\<close>

definition pool_config :: "Config \<Rightarrow> RuntimeConfig \<Rightarrow> WorkerPoolConfig" where
  "pool_config cfg runtimeConfig =
     (let w = c_Workers cfg in
      \<lparr>pc_NumWorkers = wc_Count w, pc_MinWorkers = wc_MinWorkers w, pc_MaxWorkers = wc_MaxWorkers w,
       pc_MaxRequests = wc_MaxRequests w, pc_WorkerTimeout = wc_Timeout w,
       pc_PHPBinary = php_Binary (c_PHP cfg), pc_WorkerScript = php_WorkerScript (c_PHP cfg),
       pc_SocketDir = wc_SocketDir w, pc_ScaleDownIdleSecs = wc_ScaleDownIdleSecs w,
       pc_AggressiveScaleDownSecs = wc_AggressiveScaleDownSecs w,
       pc_WarmupStaggerMs = wc_WarmupStaggerMs w, pc_FastWarmup = wc_FastWarmup w,
       pc_BackpressureEnabled = bp_Enabled (wc_Backpressure w),
       pc_BackpressureMaxQueue = bp_MaxQueue (wc_Backpressure w),
       pc_QueueTimeoutEnabled = qt_Enabled (wc_QueueTimeout w),
       pc_QueueTimeoutMs = qt_TimeoutMs (wc_QueueTimeout w),
       pc_KeepWarm = False, pc_Runtime = Some runtimeConfig,
       pc_SpawnTimeout = wrap64 (wc_SpawnTimeoutSecs w * Second),
       pc_HandshakeTimeout = wrap64 (wc_HandshakeTimeoutSecs w * Second),
       pc_MaxParallelSpawns = wc_MaxParallelSpawns w,
       pc_EnsureMinDebounce = wrap64 (wc_EnsureMinDebounceMs w * Millisecond),
       pc_RespawnBackoff = wrap64 (wc_RespawnBackoffMs w * Millisecond),
       pc_RespawnTimeout = wrap64 (wc_RespawnTimeoutSecs w * Second)\<rparr>)"

definition new_runtime_config :: "Config \<Rightarrow> RuntimeConfig" where
  "new_runtime_config cfg =
     (let w = c_Workers cfg in
      NewRuntimeConfig (wc_MinWorkers w) (wc_MaxWorkers w) (bp_Enabled (wc_Backpressure w))
        (bp_MaxQueue (wc_Backpressure w)) (wc_KeepWarm w))"

text \<open>The pool of \<open>NewServer\<close>; its other fields are the configuration and zero metrics.\<close>

definition NewServer :: "string \<Rightarrow> OS \<Rightarrow> Config \<Rightarrow> pool \<times> Metrics \<times> Logger" where
  "NewServer tempDir os cfg =
     (NewWorkerPool tempDir os (pool_config cfg (new_runtime_config cfg)),
      \<lparr>m_RequestsTotal = 0, m_RequestsSuccess = 0, m_RequestsError = 0, m_RequestsActive = 0,
       m_LastRequestDurMs = 0\<rparr>, NewLogger (lc_Level (c_Logging cfg)))"

section \<open>Addresses\<close>

text \<open>\<open>net.SplitHostPort\<close>: the reason of an error, or host and port.\<close>

definition last_colon :: "string \<Rightarrow> nat option" where
  "last_colon s =
     (if CHR '':'' \<in> set s then Some (length s - 1 - length (takeWhile (\<lambda>c. c \<noteq> CHR '':'') (rev s))) else None)"

definition index_of :: "char \<Rightarrow> string \<Rightarrow> nat option" where
  "index_of c s = (if c \<in> set s then Some (length (takeWhile (\<lambda>d. d \<noteq> c) s)) else None)"

definition split_at_port :: "string \<Rightarrow> nat \<Rightarrow> string \<Rightarrow> nat \<Rightarrow> nat \<Rightarrow> string + (string \<times> string)" where
  "split_at_port hostport i host j k =
     (if CHR ''['' \<in> set (drop j hostport) then Inl ''unexpected '[' in address''
      else if CHR '']'' \<in> set (drop k hostport) then Inl ''unexpected ']' in address''
      else Inr (host, drop (i + 1) hostport))"

definition SplitHostPort :: "string \<Rightarrow> string + (string \<times> string)" where
  "SplitHostPort hostport =
     (case last_colon hostport of
        None \<Rightarrow> Inl ''missing port in address''
      | Some i \<Rightarrow>
          if hostport ! 0 = CHR ''['' then
            (case index_of (CHR '']'') hostport of
               None \<Rightarrow> Inl ''missing ']' in address''
             | Some e \<Rightarrow>
                 if e + 1 = length hostport then Inl ''missing port in address''
                 else if e + 1 = i then split_at_port hostport i (take (e - 1) (drop 1 hostport)) 1 (e + 1)
                 else if hostport ! (e + 1) = CHR '':'' then Inl ''too many colons in address''
                 else Inl ''missing port in address'')
          else if CHR '':'' \<in> set (take i hostport) then Inl ''too many colons in address''
          else split_at_port hostport i (take i hostport) 0 0)"

text \<open>The text of the \<open>AddrError\<close>.\<close>

definition addr_error :: "string \<Rightarrow> string \<Rightarrow> string" where
  "addr_error addr_text why = (if addr_text = '''' then why else ''address '' @ addr_text @ '': '' @ why)"

section \<open>Server parameters\<close>

definition host_and_port :: "http_request \<Rightarrow> string \<times> string" where
  "host_and_port r =
     (let default_port = (if hr_TLS r then ''443'' else ''80'');
          (host, port) =
            (if hr_Host r = '''' then (hr_Host r, '''')
             else case SplitHostPort (hr_Host r) of
               Inr hp \<Rightarrow> hp
             | Inl why \<Rightarrow>
                 if contains (addr_error (hr_Host r) why) ''missing port''
                 then (hr_Host r, default_port) else (hr_Host r, ''80''))
      in (host, if port = '''' then default_port else port))"

definition remote_host_port :: "http_request \<Rightarrow> string \<times> string" where
  "remote_host_port r =
     (if hr_RemoteAddr r = '''' then ('''', '''')
      else let (h, p) = (case SplitHostPort (hr_RemoteAddr r) of Inr hp \<Rightarrow> hp | Inl e \<Rightarrow> ('''', ''''))
           in (h, if p = '''' then ''0'' else p))"

definition header_get :: "http_request \<Rightarrow> string \<Rightarrow> string" where
  "header_get r k =
     (case map_of (hr_Header r) k of Some (v # vs) \<Rightarrow> v | _ \<Rightarrow> '''')"

text \<open>The time comes as its seconds and as the printed decimal number.\<close>

definition server_params :: "int \<Rightarrow> string \<Rightarrow> http_request \<Rightarrow> (string \<times> string) list" where
  "server_params unixSecs timeFloat r =
     (let (host, port) = host_and_port r; (remoteHost, remotePort) = remote_host_port r in
      [(''REQUEST_METHOD'', hr_Method r), (''REQUEST_URI'', hr_RequestURI r),
       (''QUERY_STRING'', hr_RawQuery r), (''SERVER_PROTOCOL'', hr_Proto r),
       (''HTTP_HOST'', hr_Host r), (''SERVER_NAME'', host), (''SERVER_PORT'', port),
       (''REMOTE_ADDR'', remoteHost), (''REMOTE_PORT'', remotePort),
       (''REQUEST_SCHEME'', if hr_TLS r then ''https'' else ''http''),
       (''HTTPS'', if hr_TLS r then ''on'' else ''off''),
       (''CONTENT_TYPE'', header_get r ''Content-Type''),
       (''CONTENT_LENGTH'', header_get r ''Content-Length''),
       (''REQUEST_TIME'', itoa unixSecs), (''REQUEST_TIME_FLOAT'', timeFloat),
       (''SCRIPT_NAME'', ''''), (''SCRIPT_FILENAME'', ''''), (''DOCUMENT_ROOT'', '''')])"

definition put_all :: "('k \<times> 'v) list \<Rightarrow> ('k, 'v) gomap \<Rightarrow> ('k, 'v) gomap" where
  "put_all kvs m = fold (\<lambda>(k, v). AList.update k v) kvs m"

definition BuildServerParamsInto ::
  "int \<Rightarrow> string \<Rightarrow> http_request \<Rightarrow> (string, string) gomap \<Rightarrow> (string, string) gomap" where
  "BuildServerParamsInto unixSecs timeFloat r m = put_all (server_params unixSecs timeFloat r) m"

section \<open>From HTTP to a request\<close>

definition buildFullURI :: "http_request \<Rightarrow> string \<Rightarrow> string \<Rightarrow> string" where
  "buildFullURI r scheme host =
     (let h = (if host = '''' then hr_Host r else host);
          path = (if hr_Path r = '''' then ''/'' else hr_Path r);
          uri = scheme @ ''://'' @ h @ path
      in if hr_RawQuery r \<noteq> '''' then uri @ ''?'' @ hr_RawQuery r else uri)"

text \<open>\<open>io.ReadAll\<close> of a reader limited to \<open>MaxPayloadSize\<close> bytes: what comes after them is not read.\<close>

definition read_limited :: "reader \<Rightarrow> error + byte list" where
  "read_limited b =
     (if MaxPayloadSize \<le> length (rd_data b) then Inr (take MaxPayloadSize (rd_data b))
      else if rd_end b = EOF then Inr (rd_data b) else Inl (rd_end b))"

definition request_protocol :: "string \<Rightarrow> string" where
  "request_protocol proto =
     (if has_prefix (to_upper proto) ''HTTP/'' then trim_prefix (to_upper proto) ''HTTP/'' else ''1.1'')"

definition fill_request :: "int \<Rightarrow> int \<Rightarrow> string \<Rightarrow> http_request \<Rightarrow> 64 word \<Rightarrow> Request \<Rightarrow> Request" where
  "fill_request timeoutMs unixSecs timeFloat r i req =
     (let scheme = (if hr_TLS r then ''https'' else ''http'') in
      req\<lparr>req_ID := i, req_Method := hr_Method r, req_URI := buildFullURI r scheme (hr_Host r),
          req_Path := hr_Path r, req_Query := hr_RawQuery r, req_Protocol := request_protocol (hr_Proto r),
          req_RemoteAddr := hr_RemoteAddr r, req_Host := hr_Host r, req_Scheme := scheme,
          req_TimeoutMs := timeoutMs, req_Headers := put_all (hr_Header r) (req_Headers req),
          req_Server := BuildServerParamsInto unixSecs timeFloat r (req_Server req)\<rparr>)"

text \<open>
  \<open>httpToRequest\<close> over the pool of request structs and the request counter. On a read error the bytes
  read so far are in the struct when it goes back to the pool, where it is reset. \<open>readCap\<close> is the
  capacity of a slice of a given length that \<open>io.ReadAll\<close> returns.
\<close>

definition httpToRequest ::
  "(nat \<Rightarrow> nat) \<Rightarrow> int \<Rightarrow> int \<Rightarrow> string \<Rightarrow> http_request \<Rightarrow> Request list \<Rightarrow> 64 word \<Rightarrow>
   (error + Request) \<times> Request list \<times> 64 word" where
  "httpToRequest readCap timeoutMs unixSecs timeFloat r requestPool counter =
     (case AcquireRequest requestPool of
        (req, pool1) \<Rightarrow>
          (case (case hr_Body r of None \<Rightarrow> Inr (req_Body req)
                 | Some b \<Rightarrow> map_sum (\<lambda>e. e) (\<lambda>data. Slice data (readCap (length data))) (read_limited b)) of
             Inl e \<Rightarrow>
               (Inl (Wrap ''failed to read body'' e),
                ReleaseRequest (req\<lparr>req_Body := (case hr_Body r of Some b \<Rightarrow> Slice (rd_data b) (readCap (length (rd_data b)))
                                                | None \<Rightarrow> NilSlice)\<rparr>) pool1, counter)
           | Inr body \<Rightarrow>
               (case NextRequestID counter of
                  (i, counter1) \<Rightarrow>
                    (Inr (fill_request timeoutMs unixSecs timeFloat r i (req\<lparr>req_Body := body\<rparr>)), pool1, counter1))))"

section \<open>Answering a request\<close>

text \<open>How the handler maps the text of an error of \<open>Execute\<close>; the flag says that it counts as an error.\<close>

definition error_reply :: "string \<Rightarrow> http_reply \<times> bool" where
  "error_reply errMsg =
     (if contains errMsg ''service unavailable'' \<or> contains errMsg ''queue full'' \<or>
         contains errMsg ''no worker available'' \<or> contains errMsg ''queue timeout''
      then (HttpError 503 ''Service Unavailable'', True)
      else if contains errMsg ''client cancelled'' \<or> contains errMsg ''context canceled''
      then (NoReply, False)
      else if contains errMsg ''deadline exceeded''
      then (HttpError 503 ''timeout waiting for worker'', True)
      else if contains errMsg ''failed to read response'' \<or> contains errMsg ''connection'' \<or>
              contains errMsg ''handshake''
      then (HttpError 503 ''Service Unavailable'', True)
      else (HttpError 500 ''Internal Server Error'', True))"

definition add_headers :: "(string, string list) gomap \<Rightarrow> (string \<times> string) list" where
  "add_headers hs = concat (map (\<lambda>(name, values). map (Pair name) values) hs)"

definition response_reply :: "Response \<Rightarrow> http_reply \<times> bool" where
  "response_reply resp =
     (if resp_Error resp \<noteq> '''' then (HttpError 500 (resp_Error resp), True)
      else if resp_Status resp < 100 \<or> resp_Status resp > 999 then (ReplyPanic, False)
      else (HttpResponse (resp_Status resp) (add_headers (resp_Headers resp)) (resp_Body resp), False))"

text \<open>
  The end of \<open>handleRequest\<close>, after \<open>Execute\<close>: the reply, and the metrics with the deferred
  decrement.
\<close>

definition handle_result :: "int \<Rightarrow> (error + Response) \<Rightarrow> Metrics \<Rightarrow> http_reply \<times> Metrics" where
  "handle_result durMs res m =
     (let (reply, is_error) = (case res of Inl e \<Rightarrow> error_reply (Error e) | Inr resp \<Rightarrow> response_reply resp);
          m1 = (if is_error then add_error m
                else case reply of HttpResponse st hs body \<Rightarrow> add_success durMs m | _ \<Rightarrow> m)
      in (reply, add_active_request (- 1) m1))"

text \<open>
  The whole handler around \<open>Execute\<close>, which is the argument \<open>execute\<close>: from a request it produces the
  result, acting on the state of the pool.
\<close>

definition handleRequest ::
  "(Request \<Rightarrow> 'p \<Rightarrow> (error + Response) \<times> 'p) \<Rightarrow> (nat \<Rightarrow> nat) \<Rightarrow> int \<Rightarrow> int \<Rightarrow> string \<Rightarrow> int \<Rightarrow>
   http_request \<Rightarrow> Request list \<times> 64 word \<times> Metrics \<times> 'p \<Rightarrow>
   http_reply \<times> Request list \<times> 64 word \<times> Metrics \<times> 'p" where
  "handleRequest execute readCap timeoutMs unixSecs timeFloat durMs r st =
     (case st of (requestPool, counter, m, p) \<Rightarrow>
        let m1 = add_active_request 1 (add_total m) in
        case httpToRequest readCap timeoutMs unixSecs timeFloat r requestPool counter of
          (Inl e, pool1, counter1) \<Rightarrow>
            (HttpError 500 ''Internal Server Error'', pool1, counter1,
             add_active_request (- 1) (add_error m1), p)
        | (Inr req, pool1, counter1) \<Rightarrow>
            (case execute req p of
               (res, p1) \<Rightarrow>
                 (case handle_result durMs res m1 of
                    (reply, m2) \<Rightarrow> (reply, ReleaseRequest req pool1, counter1, m2, p1))))"

section \<open>The engine's own endpoints\<close>

definition handleHealth :: "pool \<Rightarrow> http_reply \<times> pool" where
  "handleHealth s =
     (case Stats s of
        (stats, s1) \<Rightarrow>
          (if st_ActiveWorkers stats = 0 then HttpError 503 ''No active workers''
           else HttpResponse 200 [(''Content-Type'', ''application/json'')]
             (bytes_of (''{\"status\":\"ok\",\"workers\":'' @ itoa (st_ActiveWorkers stats) @ '',\"active\":'' @
                        itoa (st_AvailableWorkers stats) @ ''}'')), s1))"

text \<open>The lines of one metric. Accented letters are their UTF-8 bytes.\<close>

definition metric :: "string \<Rightarrow> string \<Rightarrow> string \<Rightarrow> int \<Rightarrow> string" where
  "metric name help kind n =
     ''# HELP '' @ name @ '' '' @ help @ [CHR 0x0A] @ ''# TYPE '' @ name @ '' '' @ kind @ [CHR 0x0A] @
     name @ '' '' @ itoa n @ [CHR 0x0A]"

definition metrics_text :: "PoolStats \<Rightarrow> Metrics \<Rightarrow> string" where
  "metrics_text st m = concat [
     metric ''narya_requests_total'' ''Total de requests processados'' ''counter'' (m_RequestsTotal m),
     metric ''narya_requests_success'' ''Requests com sucesso'' ''counter'' (m_RequestsSuccess m),
     metric ''narya_requests_error'' ''Requests com erro'' ''counter'' (m_RequestsError m),
     metric ''narya_requests_active'' ''Requests ativos'' ''gauge'' (m_RequestsActive m),
     metric ''narya_workers_active'' ''Workers ativos'' ''gauge'' (st_ActiveWorkers st),
     metric ''narya_workers_available'' (''Workers dispon'' @ [CHR 0xC3, CHR 0xAD] @ ''veis'') ''gauge''
       (st_AvailableWorkers st),
     metric ''narya_pool_requests_total'' ''Total de requests no pool'' ''counter'' (st_TotalRequests st),
     metric ''narya_workers_min'' (''M'' @ [CHR 0xC3, CHR 0xAD] @ ''nimo de workers configurado'') ''gauge''
       (st_MinWorkers st),
     metric ''narya_workers_max'' (''M'' @ [CHR 0xC3, CHR 0xA1] @ ''ximo de workers configurado'') ''gauge''
       (st_MaxWorkers st),
     metric ''narya_request_duration_ms_last'' ''Last request duration (ms)'' ''gauge'' (m_LastRequestDurMs m),
     metric ''narya_worker_spawn_in_flight'' ''Worker spawns in progress'' ''gauge'' (st_SpawnInFlight st),
     metric ''narya_worker_spawn_timeouts_total'' ''Worker spawn connection timeouts'' ''counter''
       (st_SpawnTimeoutsTotal st),
     metric ''narya_worker_spawn_handshake_failures_total'' ''Worker spawn handshake failures'' ''counter''
       (st_SpawnHandshakeFailures st),
     metric ''narya_worker_spawn_bind_errors_total'' ''UDS bind errors during spawn'' ''counter''
       (st_SpawnBindErrorsTotal st),
     metric ''narya_worker_stuck_respawning_total'' ''Workers evicted after stuck respawning'' ''counter''
       (st_StuckRespawningTotal st),
     metric ''narya_workers_ready'' ''Workers idle or busy (serviceable)'' ''gauge'' (st_ReadyWorkers st),
     metric ''narya_worker_available_queue_dropped_total''
       ''Workers destroyed when available queue was saturated'' ''counter'' (st_AvailableQueueDroppedTotal st)]"

definition handleMetrics :: "Metrics \<Rightarrow> pool \<Rightarrow> http_reply \<times> pool" where
  "handleMetrics m s =
     (case Stats s of
        (stats, s1) \<Rightarrow> (HttpResponse 200 [(''Content-Type'', ''text/plain'')] (bytes_of (metrics_text stats m)), s1))"

text \<open>
  The JSON bodies of \<open>handleConfig\<close> are objects of the snapshot's fields. \<open>decoded\<close> is what the JSON
  decoder makes of the body: the entries of an object, none for \<open>null\<close>, or \<open>None\<close> when it fails.
\<close>

datatype config_reply =
    ConfigSnapshot bool "int \<times> int \<times> bool \<times> int \<times> bool"
  | ConfigError int string

definition handleConfig ::
  "(int \<Rightarrow> int) \<Rightarrow> string \<Rightarrow> (string \<rightharpoonup> goval) option \<Rightarrow> RuntimeConfig \<Rightarrow> config_reply \<times> RuntimeConfig" where
  "handleConfig oob meth decoded rc =
     (if meth = ''GET'' then (ConfigSnapshot False (Snapshot rc), rc)
      else if meth = ''PATCH'' \<or> meth = ''PUT'' then
        (case decoded of
           None \<Rightarrow> (ConfigError 400 ''{\"error\":\"invalid json\"}'', rc)
         | Some body \<Rightarrow>
             (case Update oob body rc of
                (Some e, rc1) \<Rightarrow> (ConfigError 400 ''{\"error\":\"invalid config value\"}'', rc1)
              | (None, rc1) \<Rightarrow> (ConfigSnapshot True (Snapshot rc1), rc1)))
      else (ConfigError 405 ''method not allowed'', rc))"

section \<open>Debugging, stopping, and the routes\<close>

text \<open>The JSON object of \<open>handleDebugWorkers\<close>, by its entries.\<close>

datatype debug_value = DebugInt int | DebugBool bool | DebugWorkers "WorkerInfo list"

definition debug_entries :: "PoolStats \<Rightarrow> (string \<times> debug_value) list" where
  "debug_entries stats =
     [(''min_workers'', DebugInt (st_MinWorkers stats)),
      (''max_workers'', DebugInt (st_MaxWorkers stats)),
      (''active_workers'', DebugInt (st_ActiveWorkers stats)),
      (''dead_workers'', DebugInt (st_DeadWorkers stats)),
      (''ready_workers'', DebugInt (st_ReadyWorkers stats)),
      (''available_workers'', DebugInt (st_AvailableWorkers stats)),
      (''spawn_in_flight'', DebugInt (st_SpawnInFlight stats)),
      (''spawn_circuit_open'', DebugBool (st_SpawnCircuitOpen stats)),
      (''consecutive_spawn_failures'', DebugInt (st_ConsecutiveSpawnFailures stats)),
      (''total_requests'', DebugInt (st_TotalRequests stats)),
      (''workers'', DebugWorkers (st_WorkersDetail stats))]"

definition handleDebugWorkers :: "pool \<Rightarrow> (string \<times> debug_value) list \<times> pool" where
  "handleDebugWorkers s = (case Stats s of (stats, s1) \<Rightarrow> (debug_entries stats, s1))"

text \<open>
  \<open>Server.Stop\<close>: the result of \<open>Shutdown\<close> is only logged, the pool is stopped in any case, and there is
  no error.
\<close>

definition server_Stop :: "error option \<Rightarrow> pool \<Rightarrow> error option \<times> pool" where
  "server_Stop shutdownErr s = (None, Stop s)"

text \<open>The handler that the routes of \<open>Server.Start\<close> choose for a cleaned path.\<close>

datatype endpoint = ToWorkers | ToHealth | ToMetrics | ToDebugWorkers | ToConfig

definition route :: "string \<Rightarrow> endpoint" where
  "route path =
     (if path = ''/narya/health'' then ToHealth
      else if path = ''/narya/metrics'' then ToMetrics
      else if path = ''/narya/debug/workers'' then ToDebugWorkers
      else if path = ''/narya/config'' then ToConfig
      else ToWorkers)"

end
