(* ===== verification/Runtime.thy ===== *)
theory Runtime
  imports Flow Server
begin

text \<open>
  The engine as a transition system. Requests, the goroutines of the pool, processes that die, time
  and changes of the configuration interleave in any order; one step is one operation of the source
  between two points where it can block. A spawn is three steps, so that any number of other steps
  may happen while it waits and while the worker boots: the lock of the id with the in-flight count,
  the spawn slot, and the rest. A respawn first terminates the old worker and then waits for the lock. The bounds of the model: fewer than \<open>2 ^ 31 - 1\<close> requests at a time and worker ids below
  \<open>2 ^ 31 - 1\<close>, so that the 32-bit counters do not wrap.
\<close>

section \<open>States\<close>

text \<open>
  Beside the pool: the workers held by requests in execution, the waiting requests with the flag
  whether they are counted in \<open>queuedRequests\<close>, the spawns that hold the lock of their id, each with
  its worker id and, for a respawn, the worker it replaces, the ids of those that have a spawn slot,
  and the workers whose respawn waits for the lock.
\<close>

record system =
  sys_pool :: pool
  sys_held :: "addr list"
  sys_waiting :: "bool list"
  sys_spawning :: "(int \<times> addr option) list"
  sys_slotted :: "int list"
  sys_locking :: "addr list"

definition initial :: "string \<Rightarrow> OS \<Rightarrow> WorkerPoolConfig \<Rightarrow> system" where
  "initial tempDir os cfg =
     \<lparr>sys_pool = snd (Start None (NewWorkerPool tempDir os cfg)), sys_held = [], sys_waiting = [],
      sys_spawning = [], sys_slotted = [], sys_locking = []\<rparr>"

definition take_task :: "task \<Rightarrow> pool \<Rightarrow> pool" where
  "take_task t s = s\<lparr>p_tasks := remove1 t (p_tasks s)\<rparr>"

definition settle :: "get_result \<Rightarrow> bool \<Rightarrow> system \<Rightarrow> system" where
  "settle r counted z =
     (case r of
        Got a \<Rightarrow> z\<lparr>sys_held := a # sys_held z\<rparr>
      | Waiting \<Rightarrow> z\<lparr>sys_waiting := counted # sys_waiting z\<rparr>
      | Refused e \<Rightarrow> z)"

section \<open>Steps\<close>

text \<open>What the environment may do: time, deaths of processes, signals obeyed or not.\<close>

definition os_step :: "OS \<Rightarrow> OS \<Rightarrow> bool" where
  "os_step o1 o2 \<longleftrightarrow> os_now o1 \<le> os_now o2 \<and> (\<forall>pid. os_alive o2 pid \<longrightarrow> os_alive o1 pid)"

inductive step :: "system \<Rightarrow> system \<Rightarrow> bool" where
  request: "GetWorker takeDone ctx (sys_pool z) = ((r, counted), s') \<Longrightarrow>
    int (length (sys_held z)) + int (length (sys_waiting z)) < 2147483646 \<Longrightarrow>
    step z (settle r counted (z\<lparr>sys_pool := s'\<rparr>))"
| resume: "counted \<in> set (sys_waiting z) \<Longrightarrow>
    get_resume counted takeDone ctx (sys_pool z) = (r, s') \<Longrightarrow>
    step z (settle r counted (z\<lparr>sys_pool := s', sys_waiting := remove1 counted (sys_waiting z)\<rparr>))"
| finish: "a \<in> set (sys_held z) \<Longrightarrow> finishExecute a r (sys_pool z) = (Some res, s') \<Longrightarrow>
    step z (z\<lparr>sys_pool := s', sys_held := remove1 a (sys_held z)\<rparr>)"
| unblock: "resume_sender (sys_pool z) = Some s' \<Longrightarrow> step z (z\<lparr>sys_pool := s'\<rparr>)"
| add_worker: "GoAddWorker \<in> set (p_tasks (sys_pool z)) \<Longrightarrow>
    addWorker (take_task GoAddWorker (sys_pool z)) = Some s' \<Longrightarrow>
    p_nextWorkerID (sys_pool z) < 2147483647 \<Longrightarrow>
    step z (z\<lparr>sys_pool := s'\<rparr>)"
| spawn_begin: "GoSpawnWorker i \<in> set (p_tasks (sys_pool z)) \<Longrightarrow>
    spawn_lock i (take_task (GoSpawnWorker i) (sys_pool z)) = Some s' \<Longrightarrow>
    step z (z\<lparr>sys_pool := s', sys_spawning := (i, None) # sys_spawning z\<rparr>)"
| spawn_slot: "(i, x) \<in> set (sys_spawning z) \<Longrightarrow> i \<notin> set (sys_slotted z) \<Longrightarrow>
    acquireSpawnSlot (sys_pool z) = Some s' \<Longrightarrow>
    step z (z\<lparr>sys_pool := s', sys_slotted := i # sys_slotted z\<rparr>)"
| spawn_end: "(i, None) \<in> set (sys_spawning z) \<Longrightarrow> i \<in> set (sys_slotted z) \<Longrightarrow>
    spawnWorker i env (sys_pool z) = (r, s1) \<Longrightarrow>
    step z (z\<lparr>sys_pool := afterSpawn r (spawn_leave i s1),
              sys_spawning := remove1 (i, None) (sys_spawning z), sys_slotted := remove1 i (sys_slotted z)\<rparr>)"
| respawn_begin: "GoRespawn a \<in> set (p_tasks (sys_pool z)) \<Longrightarrow>
    acquireRespawnSlot (take_task (GoRespawn a) (sys_pool z)) = Some s1 \<Longrightarrow>
    step z (z\<lparr>sys_pool := respawn_begin a s1, sys_locking := a # sys_locking z\<rparr>)"
| respawn_lock: "a \<in> set (sys_locking z) \<Longrightarrow> i = w_ID (worker (sys_pool z) a) \<Longrightarrow>
    spawn_lock i (sys_pool z) = Some s' \<Longrightarrow>
    step z (z\<lparr>sys_pool := s', sys_spawning := (i, Some a) # sys_spawning z,
              sys_locking := remove1 a (sys_locking z)\<rparr>)"
| respawn_end: "(i, Some a) \<in> set (sys_spawning z) \<Longrightarrow> i \<in> set (sys_slotted z) \<Longrightarrow>
    spawnWorker i env (sys_pool z) = (r, s1) \<Longrightarrow>
    step z (z\<lparr>sys_pool := afterRespawn a r (respawn_end i r (spawn_leave i s1)),
              sys_spawning := remove1 (i, Some a) (sys_spawning z), sys_slotted := remove1 i (sys_slotted z)\<rparr>)"
| process_exit: "GoProcessExit a \<in> set (p_tasks (sys_pool z)) \<Longrightarrow>
    step z (z\<lparr>sys_pool := onWorkerProcessExit a (take_task (GoProcessExit a) (sys_pool z))\<rparr>)"
| fast_warmup: "GoFastWarmup \<in> set (p_tasks (sys_pool z)) \<Longrightarrow>
    step z (z\<lparr>sys_pool := runFastWarmup ready (take_task GoFastWarmup (sys_pool z))\<rparr>)"
| reaper: "w_reaping (worker (sys_pool z) a) \<Longrightarrow> isProcessDead a (sys_pool z) \<Longrightarrow>
    step z (z\<lparr>sys_pool := reap a (sys_pool z)\<rparr>)"
| health: "GoHealthMonitor \<in> set (p_tasks (sys_pool z)) \<Longrightarrow> \<not> p_ctxDone (sys_pool z) \<Longrightarrow>
    step z (z\<lparr>sys_pool := checkAndRespawnDeadWorkers (sys_pool z)\<rparr>)"
| scaler: "GoScalerLoop \<in> set (p_tasks (sys_pool z)) \<Longrightarrow> \<not> p_ctxDone (sys_pool z) \<Longrightarrow>
    scaler_tick (sys_pool z) = Some (returned, s') \<Longrightarrow>
    step z (z\<lparr>sys_pool := (if returned then take_task GoScalerLoop s' else s')\<rparr>)"
| statistics: "Stats (sys_pool z) = (stats, s') \<Longrightarrow> step z (z\<lparr>sys_pool := s'\<rparr>)"
| configure: "handleConfig oob meth decoded (p_runtime (sys_pool z)) = (reply, rc) \<Longrightarrow>
    step z (z\<lparr>sys_pool := (sys_pool z)\<lparr>p_runtime := rc\<rparr>\<rparr>)"
| environment: "os_step (p_os (sys_pool z)) os' \<Longrightarrow> step z (z\<lparr>sys_pool := (sys_pool z)\<lparr>p_os := os'\<rparr>\<rparr>)"
| stop: "step z (z\<lparr>sys_pool := Stop (sys_pool z)\<rparr>)"

inductive reachable :: "system \<Rightarrow> bool" where
  start: "reachable (initial tempDir os cfg)"
| steps: "reachable z \<Longrightarrow> step z z' \<Longrightarrow> reachable z'"

inductive_cases stepE: "step z z'"

section \<open>The invariant\<close>

text \<open>Slots hold allocated workers, and no two of them have the same id.\<close>

definition slot_ids :: "pool \<Rightarrow> int list" where
  "slot_ids s = map (\<lambda>a. w_ID (worker s a)) (p_workers s)"

definition slots_ok :: "pool \<Rightarrow> bool" where
  "slots_ok s \<longleftrightarrow> distinct (slot_ids s) \<and> (\<forall>a \<in> set (p_workers s). a < p_nextAddr s)"

text \<open>The ids handed out for workers that do not exist yet.\<close>

definition spawn_ids :: "task list \<Rightarrow> int list" where
  "spawn_ids ts = concat (map (\<lambda>t. case t of GoSpawnWorker i \<Rightarrow> [i] | _ \<Rightarrow> []) ts)"

definition adding :: "(int \<times> addr option) list \<Rightarrow> int list" where
  "adding sp = map fst (filter (\<lambda>p. snd p = None) sp)"

definition new_ids :: "system \<Rightarrow> int list" where
  "new_ids z = spawn_ids (p_tasks (sys_pool z)) @ adding (sys_spawning z)"

definition used_ids :: "system \<Rightarrow> int set" where
  "used_ids z = range (\<lambda>a. w_ID (worker (sys_pool z) a)) \<union> {i. \<exists>a. (i, Some a) \<in> set (sys_spawning z)}"

definition ids_ok :: "system \<Rightarrow> bool" where
  "ids_ok z \<longleftrightarrow>
     0 \<le> p_nextWorkerID (sys_pool z) \<and> distinct (new_ids z) \<and>
     (\<forall>i \<in> set (new_ids z) \<union> used_ids z. i < p_nextWorkerID (sys_pool z)) \<and>
     set (new_ids z) \<inter> used_ids z = {}"

text \<open>One spawn per id at a time, at most as many with a slot as there are slots, and exact counts.\<close>

definition spawns_ok :: "system \<Rightarrow> bool" where
  "spawns_ok z \<longleftrightarrow>
     distinct (map fst (sys_spawning z)) \<and>
     (\<forall>i. p_slotLocks (sys_pool z) i = Some True \<longleftrightarrow> i \<in> fst ` set (sys_spawning z)) \<and>
     distinct (sys_slotted z) \<and> set (sys_slotted z) \<subseteq> fst ` set (sys_spawning z) \<and>
     (\<not> p_ctxDone (sys_pool z) \<longrightarrow> length (buf (p_spawnSemaphore (sys_pool z))) = length (sys_slotted z)) \<and>
     length (buf (p_spawnSemaphore (sys_pool z))) \<le> cap (p_spawnSemaphore (sys_pool z)) \<and>
     p_spawnInFlight (sys_pool z) = wrap32 (int (length (sys_spawning z)))"

text \<open>Every worker is in at most one place: the queue, a request, or a goroutine blocked on the queue.\<close>

definition owned :: "system \<Rightarrow> addr option multiset" where
  "owned z = mset (buf (p_available (sys_pool z))) + mset (map Some (sys_held z)) +
     mset (map (\<lambda>p. Some (fst p)) (p_parked (sys_pool z)))"

definition owners_ok :: "system \<Rightarrow> bool" where
  "owners_ok z \<longleftrightarrow>
     (\<forall>x. count (owned z) x \<le> 1) \<and>
     (\<forall>x \<in># owned z. \<exists>a. x = Some a \<and> a < p_nextAddr (sys_pool z)) \<and>
     length (buf (p_available (sys_pool z))) \<le> cap (p_available (sys_pool z))"

definition counts_ok :: "system \<Rightarrow> bool" where
  "counts_ok z \<longleftrightarrow>
     p_busyWorkers (sys_pool z) = int (length (sys_held z)) \<and>
     p_queuedRequests (sys_pool z) = int (length (filter (\<lambda>c. c) (sys_waiting z))) \<and>
     int (length (sys_held z)) + int (length (sys_waiting z)) < 2147483647"

definition inv :: "system \<Rightarrow> bool" where
  "inv z \<longleftrightarrow> slots_ok (sys_pool z) \<and> ids_ok z \<and> spawns_ok z \<and> owners_ok z \<and> counts_ok z"


section \<open>Preservation: operations that only move or lose workers\<close>

lemma spawn_ids_simps [simp]:
  "spawn_ids [] = []" "spawn_ids (ts @ us) = spawn_ids ts @ spawn_ids us"
  "spawn_ids (t # ts) = (case t of GoSpawnWorker i \<Rightarrow> [i] | _ \<Rightarrow> []) @ spawn_ids ts"
  by (simp_all add: spawn_ids_def)

lemma spawn_ids_calm: "set ts \<subseteq> calm_tasks \<Longrightarrow> spawn_ids ts = []"
  by (induction ts) (auto simp: calm_tasks_def)

lemma starts_calm_ids: "starts_only calm_tasks s s' \<Longrightarrow> spawn_ids (p_tasks s') = spawn_ids (p_tasks s)"
  by (auto simp: starts_only_def spawn_ids_calm)

lemma slot_ids_sub:
  assumes "distinct (slot_ids s)" and "set (p_workers s') \<subseteq> set (p_workers s)" "distinct (p_workers s')"
    and "\<And>a. a \<in> set (p_workers s') \<Longrightarrow> w_ID (worker s' a) = w_ID (worker s a)"
  shows "distinct (slot_ids s')"
proof -
  have "inj_on (\<lambda>a. w_ID (worker s a)) (set (p_workers s))"
    using assms(1) by (simp add: slot_ids_def distinct_map)
  then have "inj_on (\<lambda>a. w_ID (worker s' a)) (set (p_workers s'))"
    using assms(2,4) by (auto simp: inj_on_def)
  with assms(3) show ?thesis by (simp add: slot_ids_def distinct_map)
qed

lemma slots_flow: "flow out inn s s' \<Longrightarrow> slots_ok s \<Longrightarrow> slots_ok s'"
  unfolding slots_ok_def
proof (elim conjE, intro conjI)
  assume f: "flow out inn s s'" and d: "distinct (slot_ids s)" and b: "\<forall>a\<in>set (p_workers s). a < p_nextAddr s"
  from d have "distinct (p_workers s)" by (simp add: slot_ids_def distinct_map)
  with f have "distinct (p_workers s')" "set (p_workers s') \<subseteq> set (p_workers s)" by (auto simp: flow_def)
  then show "distinct (slot_ids s')" using f d by (intro slot_ids_sub [OF d]) (auto simp: flow_def)
  show "\<forall>a\<in>set (p_workers s'). a < p_nextAddr s'" using f b by (auto simp: flow_def)
qed

lemma ids_flow: "flow out inn (sys_pool z) s' \<Longrightarrow> ids_ok z \<Longrightarrow> ids_ok (z\<lparr>sys_pool := s'\<rparr>)"
proof -
  assume f: "flow out inn (sys_pool z) s'" and ok: "ids_ok z"
  then have "starts_only calm_tasks (sys_pool z) s'" by (simp add: flow_def)
  then have "new_ids (z\<lparr>sys_pool := s'\<rparr>) = new_ids z" by (simp add: new_ids_def starts_calm_ids)
  moreover have "used_ids (z\<lparr>sys_pool := s'\<rparr>) = used_ids z"
    by (simp add: used_ids_def flow_frame_simps(10) [OF f])
  ultimately show ?thesis using ok flow_frame_simps(2) [OF f] by (simp add: ids_ok_def)
qed

lemma spawns_flow: "flow out inn (sys_pool z) s' \<Longrightarrow> spawns_ok z \<Longrightarrow> spawns_ok (z\<lparr>sys_pool := s'\<rparr>)"
  by (simp add: spawns_ok_def flow_def)

text \<open>The parts of the invariant that do not look at requests.\<close>

definition core_ok :: "system \<Rightarrow> bool" where
  "core_ok z \<longleftrightarrow> slots_ok (sys_pool z) \<and> ids_ok z \<and> spawns_ok z"

lemma inv_core: "inv z \<longleftrightarrow> core_ok z \<and> owners_ok z \<and> counts_ok z"
  by (auto simp: inv_def core_ok_def)

lemma core_flow: "flow out inn (sys_pool z) s' \<Longrightarrow> core_ok z \<Longrightarrow> core_ok (z\<lparr>sys_pool := s'\<rparr>)"
  by (simp add: core_ok_def slots_flow ids_flow spawns_flow)

lemma core_requests [simp]:
  "core_ok (z\<lparr>sys_held := h\<rparr>) = core_ok z" "core_ok (z\<lparr>sys_waiting := ws\<rparr>) = core_ok z"
  "core_ok (z\<lparr>sys_locking := l\<rparr>) = core_ok z"
  by (simp_all add: core_ok_def ids_ok_def new_ids_def used_ids_def spawns_ok_def)

lemma core_counters [simp]:
  "core_ok (z\<lparr>sys_pool := busy_at n s\<rparr>) = core_ok (z\<lparr>sys_pool := s\<rparr>)"
  "core_ok (z\<lparr>sys_pool := queued_at n s\<rparr>) = core_ok (z\<lparr>sys_pool := s\<rparr>)"
  by (simp_all add: core_ok_def ids_ok_def new_ids_def used_ids_def spawns_ok_def slots_ok_def slot_ids_def
      busy_at_def queued_at_def)

lemma core_settle [simp]: "core_ok (settle r c z) = core_ok z"
  by (cases r) (simp_all add: settle_def)

lemma core_pool: "core_ok z \<Longrightarrow> flow out inn s0 s' \<Longrightarrow> core_ok (z\<lparr>sys_pool := s0\<rparr>) \<Longrightarrow> core_ok (z\<lparr>sys_pool := s'\<rparr>)"
  using core_flow [of out inn "z\<lparr>sys_pool := s0\<rparr>" s'] by simp

lemma core_self [simp]: "core_ok (z\<lparr>sys_pool := sys_pool z\<rparr>) = core_ok z"
  by simp

text \<open>The owners: nothing may appear that was not there.\<close>

lemma owners_sub:
  assumes "owners_ok z" and "owned z' \<subseteq># owned z"
    and "p_nextAddr (sys_pool z) \<le> p_nextAddr (sys_pool z')"
    and "length (buf (p_available (sys_pool z'))) \<le> cap (p_available (sys_pool z'))"
  shows "owners_ok z'"
  unfolding owners_ok_def
proof (intro conjI allI ballI)
  show "count (owned z') x \<le> 1" for x
    using assms(1) mset_subset_eq_count [OF assms(2), of x] by (auto simp: owners_ok_def intro: order_trans)
  fix x assume "x \<in># owned z'"
  then have "x \<in># owned z" using assms(2) by (rule mset_subset_eqD [rotated])
  then show "\<exists>a. x = Some a \<and> a < p_nextAddr (sys_pool z')"
    using assms(1,3) by (fastforce simp: owners_ok_def)
qed (rule assms(4))

lemma flow_room:
  "flow out inn s s' \<Longrightarrow> length (buf (p_available s)) \<le> cap (p_available s) \<Longrightarrow>
   length (buf (p_available s')) \<le> cap (p_available s')"
  by (simp add: flow_def)

lemma flow_queue: "flow out inn s s' \<Longrightarrow> mset (buf (p_available s')) + out \<subseteq># mset (buf (p_available s)) + inn"
  by (simp add: flow_def)

lemma owners_flow0:
  assumes "flow {#} {#} s0 s'" and "owners_ok z" and "p_available s0 = p_available (sys_pool z)"
    "p_parked s0 = p_parked (sys_pool z)" "p_nextAddr s0 = p_nextAddr (sys_pool z)"
  shows "owners_ok (z\<lparr>sys_pool := s'\<rparr>)"
proof (rule owners_sub [OF assms(2)])
  show "owned (z\<lparr>sys_pool := s'\<rparr>) \<subseteq># owned z"
    using flow_queue [OF assms(1)] assms(3-) flow_frame_simps(3) [OF assms(1)]
    by (simp add: owned_def)
  show "length (buf (p_available (sys_pool (z\<lparr>sys_pool := s'\<rparr>)))) \<le> cap (p_available (sys_pool (z\<lparr>sys_pool := s'\<rparr>)))"
    using flow_room [OF assms(1)] assms(2,3) by (simp add: owners_ok_def)
qed (use assms(5) flow_frame_simps(1) [OF assms(1)] in simp)

lemma inv_flow:
  assumes "inv z" and f: "flow {#} {#} s0 s'" and core: "core_ok (z\<lparr>sys_pool := s0\<rparr>)"
    and "p_available s0 = p_available (sys_pool z)" "p_parked s0 = p_parked (sys_pool z)"
      "p_nextAddr s0 = p_nextAddr (sys_pool z)" "p_busyWorkers s0 = p_busyWorkers (sys_pool z)"
      "p_queuedRequests s0 = p_queuedRequests (sys_pool z)"
  shows "inv (z\<lparr>sys_pool := s'\<rparr>)"
  using assms owners_flow0 [OF f, of z] core_flow [of "{#}" "{#}" "z\<lparr>sys_pool := s0\<rparr>" s'] flow_frame_simps(8,9) [OF f]
  by (simp add: inv_core counts_ok_def)

lemma inv_flow_self: "inv z \<Longrightarrow> flow {#} {#} (sys_pool z) s' \<Longrightarrow> inv (z\<lparr>sys_pool := s'\<rparr>)"
  by (rule inv_flow) (simp_all add: inv_core)


section \<open>Preservation: requests\<close>

text \<open>The workers in the queue and with parked goroutines.\<close>

definition pool_owned :: "pool \<Rightarrow> addr option multiset" where
  "pool_owned s = mset (buf (p_available s)) + mset (map (\<lambda>p. Some (fst p)) (p_parked s))"

lemma owned_pool: "owned z = pool_owned (sys_pool z) + mset (map Some (sys_held z))"
  by (simp add: owned_def pool_owned_def)

lemma pool_owned_counters [simp]:
  "pool_owned (busy_at n s) = pool_owned s" "pool_owned (queued_at n s) = pool_owned s"
  by (simp_all add: pool_owned_def busy_at_def queued_at_def)

lemma flow_owned: "flow out inn s s' \<Longrightarrow> pool_owned s' + out \<subseteq># pool_owned s + inn"
  using flow_queue [of out inn s s'] flow_frame_simps(3) [of out inn s s']
  by (simp add: pool_owned_def ac_simps)

lemma nextAddr_counters [simp]:
  "p_nextAddr (busy_at n s) = p_nextAddr s" "p_nextAddr (queued_at n s) = p_nextAddr s"
  by (simp_all add: busy_at_def queued_at_def)

lemma got_settle:
  assumes g: "got (worker_got r) (queued_at q (sys_pool z)) s'"
    and core: "core_ok z" and own: "owners_ok z"
    and b: "p_busyWorkers (sys_pool z) = int (length (sys_held z))" "int (length (sys_held z)) < 2147483647"
  shows "core_ok (settle r c (z\<lparr>sys_pool := s'\<rparr>))" and "owners_ok (settle r c (z\<lparr>sys_pool := s'\<rparr>))"
    and "p_queuedRequests s' = q"
    and "p_busyWorkers s' = int (length (sys_held (settle r c (z\<lparr>sys_pool := s'\<rparr>))))"
proof -
  define out where "out = (case r of Got a \<Rightarrow> {#Some a#} | _ \<Rightarrow> {#})"
  define n where "n = (case r of Got a \<Rightarrow> p_busyWorkers (sys_pool z) + 1 | _ \<Rightarrow> p_busyWorkers (sys_pool z))"
  let ?s0 = "busy_at n (queued_at q (sys_pool z))" and ?z = "settle r c (z\<lparr>sys_pool := s'\<rparr>)"
  have self: "busy_at (p_busyWorkers (sys_pool z)) (queued_at q (sys_pool z)) = queued_at q (sys_pool z)"
    by (simp add: busy_at_def queued_at_def)
  have f: "flow out {#} ?s0 s'"
    using g b self [unfolded b(1)] by (cases r) (simp_all add: got_def out_def n_def)
  have core0: "core_ok (z\<lparr>sys_pool := ?s0\<rparr>)" using core by simp
  show "core_ok ?z" using core_pool [OF core f core0] by simp
  have pool: "sys_pool ?z = s'" by (cases r) (simp_all add: settle_def)
  show "owners_ok ?z"
  proof (rule owners_sub [OF own])
    have "pool_owned s' + out \<subseteq># pool_owned (sys_pool z)" using flow_owned [OF f] by simp
    then have "pool_owned s' + out + mset (map Some (sys_held z)) \<subseteq># owned z"
      unfolding owned_pool by (rule subset_mset.add_right_mono)
    moreover have "owned ?z = pool_owned s' + out + mset (map Some (sys_held z))"
      by (cases r) (simp_all add: owned_pool settle_def out_def)
    ultimately show "owned ?z \<subseteq># owned z" by simp
    show "p_nextAddr (sys_pool z) \<le> p_nextAddr (sys_pool ?z)"
      using flow_frame_simps(1) [OF f] pool by simp
    show "length (buf (p_available (sys_pool ?z))) \<le> cap (p_available (sys_pool ?z))"
      using flow_room [OF f] own pool by (simp add: owners_ok_def)
  qed
  show "p_queuedRequests s' = q" using flow_frame_simps(9) [OF f] by simp
  show "p_busyWorkers s' = int (length (sys_held ?z))"
    using flow_frame_simps(8) [OF f] b by (cases r) (simp_all add: n_def settle_def)
qed

lemma waiting_settle: "sys_waiting (settle r c z) = (if r = Waiting then c # sys_waiting z else sys_waiting z)"
  by (cases r) (simp_all add: settle_def)

lemma held_settle: "length (sys_held (settle r c z)) = length (sys_held z) + (case r of Got a \<Rightarrow> 1 | _ \<Rightarrow> 0)"
  by (cases r) (simp_all add: settle_def)

lemma pool_settle [simp]: "sys_pool (settle r c z) = sys_pool z"
  by (cases r) (simp_all add: settle_def)

lemma inv_request:
  assumes i: "inv z" and g: "GetWorker takeDone ctx (sys_pool z) = ((r, counted), s')"
    and lim: "int (length (sys_held z)) + int (length (sys_waiting z)) < 2147483646"
  shows "inv (settle r counted (z\<lparr>sys_pool := s'\<rparr>))"
proof -
  from i have core: "core_ok z" and own: "owners_ok z"
    and b: "p_busyWorkers (sys_pool z) = int (length (sys_held z))"
    and q: "p_queuedRequests (sys_pool z) = int (length (filter (\<lambda>c. c) (sys_waiting z)))"
    by (auto simp: inv_core counts_ok_def)
  have "length (filter (\<lambda>c. c) (sys_waiting z)) \<le> length (sys_waiting z)" by simp
  with q lim have range: "- 2147483648 \<le> p_queuedRequests (sys_pool z)" "p_queuedRequests (sys_pool z) < 2147483647"
    by linarith+
  let ?q = "if counted \<and> r = Waiting then p_queuedRequests (sys_pool z) + 1 else p_queuedRequests (sys_pool z)"
  have "int (length (sys_held z)) < 2147483647" using lim by simp
  note s = got_settle(1,2,4) [OF GetWorker_got [OF g range] core own b this, where c = counted]
    got_settle(3) [OF GetWorker_got [OF g range] core own b this]
  have "counts_ok (settle r counted (z\<lparr>sys_pool := s'\<rparr>))"
    using s(3,4) q lim
    by (auto simp: counts_ok_def waiting_settle held_settle split: get_result.splits)
  with s(1,2) show ?thesis by (simp add: inv_core)
qed

lemma filter_remove1_true: "True \<in> set ws \<Longrightarrow> length (filter (\<lambda>c. c) (remove1 True ws)) = length (filter (\<lambda>c. c) ws) - 1"
  and filter_remove1_false: "length (filter (\<lambda>c. c) (remove1 False ws)) = length (filter (\<lambda>c. c) ws)"
  by (induction ws) auto

lemma inv_resume:
  assumes i: "inv z" and c: "counted \<in> set (sys_waiting z)"
    and g: "get_resume counted takeDone ctx (sys_pool z) = (r, s')"
  shows "inv (settle r counted (z\<lparr>sys_pool := s', sys_waiting := remove1 counted (sys_waiting z)\<rparr>))"
proof -
  let ?ws = "remove1 counted (sys_waiting z)"
  let ?z0 = "z\<lparr>sys_waiting := ?ws\<rparr>"
  from i have core: "core_ok ?z0" and own: "owners_ok ?z0"
    and b: "p_busyWorkers (sys_pool ?z0) = int (length (sys_held ?z0))"
    and q: "p_queuedRequests (sys_pool z) = int (length (filter (\<lambda>c. c) (sys_waiting z)))"
    and lim: "int (length (sys_held z)) + int (length (sys_waiting z)) < 2147483647"
    by (auto simp: inv_core counts_ok_def owners_ok_def owned_def)
  have "length (filter (\<lambda>c. c) (sys_waiting z)) \<le> length (sys_waiting z)" by simp
  with q lim have range: "p_queuedRequests (sys_pool z) < 2147483647" by linarith
  let ?n = "length (filter (\<lambda>c. c) (sys_waiting z))"
  have len: "length ?ws = length (sys_waiting z) - 1" "0 < length (sys_waiting z)"
    using c by (auto simp: length_remove1)
  have "counted \<Longrightarrow> 0 < ?n" using c by (auto simp: filter_empty_conv)
  then have q': "(if counted \<and> r \<noteq> Waiting then wrap32 (p_queuedRequests (sys_pool z) - 1) else p_queuedRequests (sys_pool z))
      = (if counted \<and> r \<noteq> Waiting then p_queuedRequests (sys_pool z) - 1 else p_queuedRequests (sys_pool z))"
    using q range by simp
  have "int (length (sys_held ?z0)) < 2147483647" using lim by simp
  have g': "got (worker_got r) (queued_at (if counted \<and> r \<noteq> Waiting then p_queuedRequests (sys_pool z) - 1
      else p_queuedRequests (sys_pool z)) (sys_pool ?z0)) s'"
    using get_resume_got [OF g] unfolding q' by simp
  note s = got_settle(1,2,4) [OF g' core own b \<open>int (length (sys_held ?z0)) < 2147483647\<close>, where c = counted]
    got_settle(3) [OF g' core own b \<open>int (length (sys_held ?z0)) < 2147483647\<close>]
  have e: "z\<lparr>sys_pool := s', sys_waiting := ?ws\<rparr> = ?z0\<lparr>sys_pool := s'\<rparr>" by simp
  have ilen: "int (length ?ws) = int (length (sys_waiting z)) - 1"
    using len by (simp add: Suc_le_eq)
  have ifil: "int (length (filter (\<lambda>c. c) ?ws)) = int ?n - (if counted then 1 else 0)"
    using \<open>counted \<Longrightarrow> 0 < ?n\<close> c
    by (cases counted) (simp_all only: filter_remove1_true filter_remove1_false of_nat_diff Suc_le_eq One_nat_def, simp_all)
  have "counts_ok (settle r counted (?z0\<lparr>sys_pool := s'\<rparr>))"
    using s(3,4) q lim ilen ifil
    by (cases counted; cases r) (auto simp: counts_ok_def waiting_settle held_settle simp del: length_remove1)
  with s(1,2) show ?thesis unfolding e by (simp add: inv_core)
qed


text \<open>A worker handed to the queue keeps exactly one owner, which it has lost before.\<close>

lemma pool_owned_park: "pool_owned (park a from s) = add_mset (Some a) (pool_owned s)"
  by (simp add: pool_owned_def park_def)

lemma given_owned: "given a from s s' \<Longrightarrow> pool_owned s' \<subseteq># pool_owned s + {#Some a#}"
  by (auto simp: given_def pool_owned_park dest!: flow_owned)

lemma park_frame [simp]:
  "p_busyWorkers (park a from s) = p_busyWorkers s" "p_queuedRequests (park a from s) = p_queuedRequests s"
  "p_nextAddr (park a from s) = p_nextAddr s" "p_available (park a from s) = p_available s"
  "p_workers (park a from s) = p_workers s" "p_heap (park a from s) = p_heap s"
  by (simp_all add: park_def)

lemma core_park [simp]: "core_ok (z\<lparr>sys_pool := park a from s\<rparr>) = core_ok (z\<lparr>sys_pool := s\<rparr>)"
  by (simp add: core_ok_def ids_ok_def new_ids_def used_ids_def spawns_ok_def slots_ok_def slot_ids_def park_def)

lemma given_frame:
  assumes "given a from s s'"
  shows "p_busyWorkers s' = p_busyWorkers s" "p_queuedRequests s' = p_queuedRequests s"
    "p_nextAddr s' = p_nextAddr s"
    "length (buf (p_available s)) \<le> cap (p_available s) \<Longrightarrow> length (buf (p_available s')) \<le> cap (p_available s')"
    "core_ok (z\<lparr>sys_pool := s\<rparr>) \<Longrightarrow> core_ok (z\<lparr>sys_pool := s'\<rparr>)"
  using assms flow_frame_simps flow_room core_flow [of _ _ "z\<lparr>sys_pool := s\<rparr>"]
  by (auto simp: given_def)

lemma finish_given:
  assumes "finishExecute a r s = (Some res, s')"
  obtains s0 where "flow {#} {#} s s0" "given a FromRequest (busy_at (busy_after_release s0) s0) s'"
proof (cases r)
  case (ExecErr e)
  with assms have "s' = ReleaseWorker a None (set_state WorkerStateDead a s)" by (simp add: finishExecute_def)
  with that [of "set_state WorkerStateDead a s"] ReleaseWorker_given flow_tidy [OF tidy_only_worker [OF only_worker_set_state]]
  show ?thesis by simp
next
  case (ExecOk resp)
  with assms have "s' = ReleaseWorker a (Some resp) s" by (simp add: finishExecute_def)
  with that [of s] ReleaseWorker_given show ?thesis by simp
qed (use assms in \<open>simp add: finishExecute_def\<close>)

lemma mset_map_remove1: "a \<in> set xs \<Longrightarrow> mset (map f xs) = add_mset (f a) (mset (map f (remove1 a xs)))"
  by (induction xs) auto

lemma length_remove1_Suc: "a \<in> set xs \<Longrightarrow> length xs = Suc (length (remove1 a xs))"
  by (induction xs) (auto simp del: length_remove1)

lemma inv_finish:
  assumes i: "inv z" and a: "a \<in> set (sys_held z)" and f: "finishExecute a r (sys_pool z) = (Some res, s')"
  shows "inv (z\<lparr>sys_pool := s', sys_held := remove1 a (sys_held z)\<rparr>)"
proof -
  obtain s0 where fl: "flow {#} {#} (sys_pool z) s0"
    and g: "given a FromRequest (busy_at (busy_after_release s0) s0) s'"
    by (rule finish_given [OF f])
  from i have core: "core_ok z" and own: "owners_ok z" and cnt: "counts_ok z" by (auto simp: inv_core)
  let ?z = "z\<lparr>sys_pool := s', sys_held := remove1 a (sys_held z)\<rparr>"
  have "core_ok (z\<lparr>sys_pool := busy_at (busy_after_release s0) s0\<rparr>)" using core_flow [OF fl core] by simp
  from given_frame(5) [OF g this] have "core_ok (z\<lparr>sys_pool := s'\<rparr>)" .
  then have "core_ok ((z\<lparr>sys_pool := s'\<rparr>)\<lparr>sys_held := remove1 a (sys_held z)\<rparr>)" by (simp only: core_requests)
  then have c: "core_ok ?z" by simp
  have o: "owners_ok ?z"
  proof (rule owners_sub [OF own])
    have "pool_owned s0 \<subseteq># pool_owned (sys_pool z)" using flow_owned [OF fl] by simp
    then have "pool_owned s0 + {#Some a#} \<subseteq># pool_owned (sys_pool z) + {#Some a#}"
      by (rule subset_mset.add_right_mono)
    with given_owned [OF g] have "pool_owned s' \<subseteq># pool_owned (sys_pool z) + {#Some a#}"
      unfolding pool_owned_counters by (rule subset_mset.order_trans)
    moreover have "mset (map Some (sys_held z)) = {#Some a#} + mset (map Some (remove1 a (sys_held z)))"
      using mset_map_remove1 [OF a, of Some] by simp
    ultimately show "owned ?z \<subseteq># owned z" by (simp add: owned_pool)
    show "p_nextAddr (sys_pool z) \<le> p_nextAddr (sys_pool ?z)"
      using given_frame(3) [OF g] flow_frame_simps(1) [OF fl] by simp
    show "length (buf (p_available (sys_pool ?z))) \<le> cap (p_available (sys_pool ?z))"
      using given_frame(4) [OF g] flow_room [OF fl] own by (simp add: owners_ok_def)
  qed
  have "p_busyWorkers s' = int (length (sys_held z)) - 1"
    using given_frame(1) [OF g] flow_frame_simps(8) [OF fl] cnt a
    by (cases "sys_held z") (auto simp: counts_ok_def busy_after_release_def Let_def)
  moreover have "int (length (remove1 a (sys_held z))) = int (length (sys_held z)) - 1"
    using length_remove1_Suc [OF a] by simp
  ultimately have "counts_ok ?z"
    using given_frame(2) [OF g] flow_frame_simps(9) [OF fl] cnt by (simp add: counts_ok_def)
  with c o show ?thesis by (simp add: inv_core)
qed

section \<open>Preservation: blocked senders and background work\<close>

lemma after_release_flow: "flow {#} {#} s (after_release from a r s)"
  using flow_field(7) [OF flow_refl] flow_tidy [OF tidy_add_active] flow_destroy
  by (cases "from") (auto simp: after_release_def releaseRespawnSlot_def)

text \<open>The first blocked sender leaves the list, and its worker may enter the queue.\<close>

lemma resume_sender_flow:
  assumes "resume_sender s = Some s'"
  obtains a "from" rest where "p_parked s = (a, from) # rest" "flow {#} {#Some a#} (s\<lparr>p_parked := rest\<rparr>) s'"
proof -
  from assms obtain a "from" rest res s1 where p: "p_parked s = (a, from) # rest"
    and sel: "release_select a (s\<lparr>p_parked := rest\<rparr>) = (res, s1)"
    and s': "s' = after_release from a res s1"
    by (auto simp: resume_sender_def split: list.splits prod.splits push_result.splits)
  have "flow {#} (pushed_in res a) (s\<lparr>p_parked := rest\<rparr>) s'"
    unfolding s' by (rule flow_trans1 [OF flow_release_select [OF sel] after_release_flow])
  then have "flow {#} {#Some a#} (s\<lparr>p_parked := rest\<rparr>) s'" by (rule flow_weaken) auto
  with p show ?thesis by (rule that)
qed

lemma inv_unblock:
  assumes i: "inv z" and r: "resume_sender (sys_pool z) = Some s'"
  shows "inv (z\<lparr>sys_pool := s'\<rparr>)"
proof -
  obtain a "from" rest where p: "p_parked (sys_pool z) = (a, from) # rest"
    and f: "flow {#} {#Some a#} ((sys_pool z)\<lparr>p_parked := rest\<rparr>) s'"
    by (rule resume_sender_flow [OF r])
  let ?s0 = "(sys_pool z)\<lparr>p_parked := rest\<rparr>"
  from i have core: "core_ok z" and own: "owners_ok z" and cnt: "counts_ok z" by (auto simp: inv_core)
  have core0: "core_ok (z\<lparr>sys_pool := ?s0\<rparr>)"
    using core by (simp add: core_ok_def ids_ok_def new_ids_def used_ids_def spawns_ok_def slots_ok_def slot_ids_def)
  from core_pool [OF core f core0] have "core_ok (z\<lparr>sys_pool := s'\<rparr>)" .
  moreover have "owners_ok (z\<lparr>sys_pool := s'\<rparr>)"
  proof (rule owners_sub [OF own])
    have "pool_owned s' \<subseteq># pool_owned ?s0 + {#Some a#}" using flow_owned [OF f] by (auto split: if_splits intro: subset_mset.order_trans)
    also have "\<dots> = pool_owned (sys_pool z)" by (simp add: pool_owned_def p)
    finally show "owned (z\<lparr>sys_pool := s'\<rparr>) \<subseteq># owned z" by (simp add: owned_pool)
    show "p_nextAddr (sys_pool z) \<le> p_nextAddr (sys_pool (z\<lparr>sys_pool := s'\<rparr>))"
      using flow_frame_simps(1) [OF f] by simp
    show "length (buf (p_available (sys_pool (z\<lparr>sys_pool := s'\<rparr>)))) \<le> cap (p_available (sys_pool (z\<lparr>sys_pool := s'\<rparr>)))"
      using flow_room [OF f] own by (simp add: owners_ok_def)
  qed
  moreover have "counts_ok (z\<lparr>sys_pool := s'\<rparr>)"
    using cnt flow_frame_simps(8,9) [OF f] by (simp add: counts_ok_def)
  ultimately show ?thesis by (simp add: inv_core)
qed

text \<open>A started goroutine that begins to run is no longer in the list.\<close>

lemma spawn_ids_remove1:
  "(\<And>i. t \<noteq> GoSpawnWorker i) \<Longrightarrow> spawn_ids (remove1 t ts) = spawn_ids ts"
  by (induction ts) (auto split: task.splits)

lemma take_task_frame [simp]:
  "p_available (take_task t s) = p_available s" "p_parked (take_task t s) = p_parked s"
  "p_nextAddr (take_task t s) = p_nextAddr s" "p_busyWorkers (take_task t s) = p_busyWorkers s"
  "p_queuedRequests (take_task t s) = p_queuedRequests s" "p_heap (take_task t s) = p_heap s"
  "p_workers (take_task t s) = p_workers s" "p_nextWorkerID (take_task t s) = p_nextWorkerID s"
  "p_slotLocks (take_task t s) = p_slotLocks s" "p_spawnSemaphore (take_task t s) = p_spawnSemaphore s"
  "p_spawnInFlight (take_task t s) = p_spawnInFlight s" "p_ctxDone (take_task t s) = p_ctxDone s"
  "p_tasks (take_task t s) = remove1 t (p_tasks s)"
  by (simp_all add: take_task_def)

lemma core_take_task:
  "(\<And>i. t \<noteq> GoSpawnWorker i) \<Longrightarrow> core_ok (z\<lparr>sys_pool := take_task t s\<rparr>) = core_ok (z\<lparr>sys_pool := s\<rparr>)"
  by (simp add: core_ok_def ids_ok_def new_ids_def used_ids_def spawns_ok_def slots_ok_def slot_ids_def
      spawn_ids_remove1)

lemma inv_task_flow:
  "inv z \<Longrightarrow> (\<And>i. t \<noteq> GoSpawnWorker i) \<Longrightarrow> flow {#} {#} (take_task t (sys_pool z)) s' \<Longrightarrow> inv (z\<lparr>sys_pool := s'\<rparr>)"
  by (rule inv_flow [of z "take_task t (sys_pool z)"]) (simp_all add: core_take_task inv_core)

lemma flow_warmup: "flow {#} {#} s (runFastWarmup ready s)"
  by (auto simp: runFastWarmup_def warmUpToMax_def calm_tasks_def intro: flow_go)

lemma flow_reap: "flow {#} {#} s (reap a s)"
  by (rule flow_tidy [OF tidy_only_worker [OF only_worker_reap]])

lemma flow_stats: "Stats s = (st, s') \<Longrightarrow> flow {#} {#} s s'"
  using flow_tidy [OF tidy_circuit [of s]] by (auto simp: Stats_def Let_def split: prod.splits)

lemma inv_scaler:
  assumes i: "inv z" and t: "scaler_tick (sys_pool z) = Some (returned, s')"
  shows "inv (z\<lparr>sys_pool := (if returned then take_task GoScalerLoop s' else s')\<rparr>)"
proof -
  have "length (buf (p_available (sys_pool z))) \<le> cap (p_available (sys_pool z))"
    using i by (simp add: inv_def owners_ok_def)
  from inv_flow_self [OF i flow_scaler_tick [OF t this]] have j: "inv (z\<lparr>sys_pool := s'\<rparr>)" .
  from inv_task_flow [OF j, of GoScalerLoop "take_task GoScalerLoop s'"] j show ?thesis by simp
qed

lemma flow_fold_terminate: "flow {#} {#} s (fold terminateWorker as s)"
  by (rule flow_tidy [OF tidy_rel.fold_op [OF tidy_only_worker [OF only_worker_terminate]]])

lemma inv_stop: "inv z \<Longrightarrow> inv (z\<lparr>sys_pool := Stop (sys_pool z)\<rparr>)"
proof (cases "p_running (sys_pool z)")
  case True
  assume i: "inv z"
  let ?s1 = "(sys_pool z)\<lparr>p_running := False, p_ctxDone := True\<rparr>"
  have "core_ok (z\<lparr>sys_pool := ?s1\<rparr>)"
    using i by (simp add: inv_core core_ok_def ids_ok_def new_ids_def used_ids_def spawns_ok_def slots_ok_def slot_ids_def)
  then have "inv (z\<lparr>sys_pool := fold terminateWorker (p_workers ?s1) ?s1\<rparr>)"
    by (intro inv_flow [OF i flow_fold_terminate]) simp_all
  with True show ?thesis by (simp add: Stop_def Let_def)
qed (simp add: Stop_def)

end
