(* ===== verification/Spawning.thy ===== *)
theory Spawning
  imports Runtime
begin

text \<open>
  The steps that create workers keep the invariant of the transition system: \<open>addWorker\<close>, the two
  parts of a spawn and of a respawn; then the invariant holds in every reachable state.
\<close>

section \<open>The flow of a spawn\<close>

lemma flow_allocate:
  "flow {#} {#} s s1 \<Longrightarrow> flow {#} {#} (snd (allocate w s)) (snd (allocate w s1))"
  by (simp add: flow_def allocate_def starts_only_def)

lemma flow_abort: "flow {#} {#} s (abortSpawn w l p s)"
  by (auto simp: flow_def abortSpawn_def Let_def kill_process_def upd_worker_def split: option.split)

lemma flow_spawn_select: "flow {#} {#} s (snd (spawn_select a pid ev s))"
proof -
  let ?s1 = "upd_worker a (\<lambda>w. w\<lparr>w_listener := NilHandle, w_conn := OpenHandle\<rparr>) s"
  have u: "flow {#} {#} s ?s1" by (rule flow_tidy [OF tidy_upd]) simp
  have c: "flow {#} {#} r (r\<lparr>p_spawnHandshakeFails := n\<rparr>)" "flow {#} {#} r (r\<lparr>p_spawnTimeoutsTotal := n\<rparr>)" for r n
    by (simp_all add: flow_def)
  show ?thesis
    using flow_trans0 [OF u flow_trans0 [OF c(1) flow_abort]] flow_trans0 [OF c(2) flow_abort] flow_abort
      flow_trans0 [OF u flow_tidy [OF tidy_only_worker [OF only_worker_set_state]]]
    by (simp add: spawn_select_def Let_def split: spawn_event.split option.split)
qed

lemma flow_spawn_running:
  "flow {#} {#} (snd (allocate (new_worker i pid s) s)) (spawn_running i pid crashed s)"
proof -
  let ?s0 = "snd (allocate (new_worker i pid s) s)"
  let ?s1 = "snd (allocate (new_worker i pid s) (process_started pid s))"
  have "flow {#} {#} ?s0 ?s1"
    by (rule flow_allocate) (auto simp: process_started_def intro: flow_field(8))
  moreover have "flow {#} {#} ?s1 (startReaper a ?s1)" for a
    unfolding startReaper_def by (rule flow_tidy [OF tidy_upd]) simp
  ultimately have r: "flow {#} {#} ?s0 (startReaper a ?s1)" for a by (rule flow_trans0)
  have "flow {#} {#} ?s0 (process_exited pid (startReaper a ?s1))" for a
    unfolding process_exited_def by (rule flow_field(8) [OF r])
  then have "flow {#} {#} ?s0 (reap b (process_exited pid (startReaper a ?s1)))" for a b
    by (rule flow_trans0 [OF _ flow_reap])
  with r show ?thesis by (simp add: spawn_running_def Let_def)
qed

text \<open>A spawn either allocates nothing, or it allocates one struct with the id it was given.\<close>

lemma spawnWorker_flow:
  assumes "spawnWorker i env s = (r, s1)"
  obtains (nothing) e where "r = Inl e" "flow {#} {#} s s1"
  | (made) w where "w_ID w = i" "flow {#} {#} (snd (allocate w s)) s1"
      "\<And>b. r = Inr b \<Longrightarrow> b = p_nextAddr s"
proof (cases rule: spawnWorker_cases [of i env s])
  case (failed e s1')
  with assms flow_tidy [OF tidy_listenUnix] have "r = Inl e" "flow {#} {#} s s1" by auto
  then show ?thesis by (rule nothing)
next
  case (running pid l)
  let ?w = "new_worker i pid l"
  have l: "flow {#} {#} s l" unfolding running(2) by (rule flow_tidy [OF tidy_listenUnix])
  have "flow {#} {#} (snd (allocate ?w l)) s1"
    using flow_trans0 [OF flow_spawn_running flow_spawn_select] running(3) assms by (metis snd_conv)
  then have "flow {#} {#} (snd (allocate ?w s)) s1" by (rule flow_trans0 [OF flow_allocate [OF l]])
  moreover have "b = p_nextAddr s" if "r = Inr b" for b
    using spawnWorker_ok(1) [of i env s b s1] assms that by simp
  ultimately show ?thesis by (intro made [of ?w]) (simp_all add: new_worker_def)
qed

lemma flow_leave: "flow {#} {#} s s1 \<Longrightarrow> flow {#} {#} (spawn_leave i s) (spawn_leave i s1)"
  by (simp add: flow_def spawn_leave_def Let_def releaseSpawnSlot_def unlockWorkerSlot_def starts_only_def)

section \<open>Ids\<close>

lemma spawn_ids_take: "GoSpawnWorker i \<in> set ts \<Longrightarrow>
    mset (spawn_ids ts) = add_mset i (mset (spawn_ids (remove1 (GoSpawnWorker i) ts)))"
  by (induction ts) (auto split: task.split)

lemma adding_simps [simp]:
  "adding [] = []" "adding ((i, None) # sp) = i # adding sp" "adding ((i, Some a) # sp) = adding sp"
  by (simp_all add: adding_def)

lemma adding_take: "(i, None) \<in> set sp \<Longrightarrow> mset (adding sp) = add_mset i (mset (adding (remove1 (i, None) sp)))"
  by (induction sp) (auto simp: adding_def)

lemma adding_replace: "adding (remove1 (i, Some a) sp) = adding sp"
  by (induction sp) (auto simp: adding_def)

lemma distinct_keys_remove1:
  assumes "distinct (map fst sp)" "(i, x) \<in> set sp"
  shows "distinct (map fst (remove1 (i, x) sp))" and "fst ` set (remove1 (i, x) sp) = fst ` set sp - {i}"
  using assms by (induction sp) (auto simp: image_iff)

text \<open>The distinctness of the new ids, by their multiset.\<close>

lemma new_ids_mset: "mset (new_ids z) = mset (spawn_ids (p_tasks (sys_pool z))) + mset (adding (sys_spawning z))"
  by (simp add: new_ids_def)

lemma ids_ok_mset:
  assumes "mset (new_ids z') = mset (new_ids z)" and "used_ids z' = used_ids z"
    and "p_nextWorkerID (sys_pool z') = p_nextWorkerID (sys_pool z)"
  shows "ids_ok z' = ids_ok z"
proof -
  have "distinct (new_ids z') = distinct (new_ids z)"
    using assms(1) by (metis mset_eq_imp_distinct_iff)
  moreover have "set (new_ids z') = set (new_ids z)" using assms(1) by (rule mset_eq_setD)
  ultimately show ?thesis using assms(2,3) by (simp add: ids_ok_def)
qed

section \<open>Leaving a spawn\<close>

lemma spawn_leave_frame [simp]:
  "p_workers (spawn_leave i s) = p_workers s" "p_heap (spawn_leave i s) = p_heap s"
  "p_tasks (spawn_leave i s) = p_tasks s" "p_nextAddr (spawn_leave i s) = p_nextAddr s"
  "p_nextWorkerID (spawn_leave i s) = p_nextWorkerID s" "p_available (spawn_leave i s) = p_available s"
  "p_parked (spawn_leave i s) = p_parked s" "p_busyWorkers (spawn_leave i s) = p_busyWorkers s"
  "p_queuedRequests (spawn_leave i s) = p_queuedRequests s" "p_ctxDone (spawn_leave i s) = p_ctxDone s"
  by (simp_all add: spawn_leave_def Let_def releaseSpawnSlot_def unlockWorkerSlot_def)

lemma allocate_frame [simp]:
  "p_workers (snd (allocate w s)) = p_workers s" "p_tasks (snd (allocate w s)) = p_tasks s"
  "p_nextWorkerID (snd (allocate w s)) = p_nextWorkerID s" "p_available (snd (allocate w s)) = p_available s"
  "p_parked (snd (allocate w s)) = p_parked s" "p_busyWorkers (snd (allocate w s)) = p_busyWorkers s"
  "p_queuedRequests (snd (allocate w s)) = p_queuedRequests s" "p_ctxDone (snd (allocate w s)) = p_ctxDone s"
  "p_slotLocks (snd (allocate w s)) = p_slotLocks s" "p_spawnSemaphore (snd (allocate w s)) = p_spawnSemaphore s"
  "p_spawnInFlight (snd (allocate w s)) = p_spawnInFlight s"
  "p_nextAddr (snd (allocate w s)) = Suc (p_nextAddr s)"
  "p_heap (snd (allocate w s)) = (p_heap s)(p_nextAddr s := w)"
  by (simp_all add: allocate_def)

lemma sem_release_length: "length (buf (sem_release c)) = length (buf c) - 1"
  by (auto simp: sem_release_def try_recv_def split: list.split)

lemma wrap32_dec: "wrap32 (wrap32 m - 1) = wrap32 (m - 1)"
  by (simp add: wrap32_def mod_simps algebra_simps)

lemma wrap32_inc: "wrap32 (wrap32 m + 1) = wrap32 (m + 1)"
  by (simp add: wrap32_def mod_simps algebra_simps)

text \<open>What \<open>spawns_ok\<close> reads of the pool.\<close>

lemma spawns_ok_cong:
  "p_slotLocks s' = p_slotLocks s \<Longrightarrow> p_spawnSemaphore s' = p_spawnSemaphore s \<Longrightarrow>
   p_spawnInFlight s' = p_spawnInFlight s \<Longrightarrow> p_ctxDone s' = p_ctxDone s \<Longrightarrow>
   spawns_ok (z\<lparr>sys_pool := s', sys_spawning := sp, sys_slotted := sl\<rparr>) =
   spawns_ok (z\<lparr>sys_pool := s, sys_spawning := sp, sys_slotted := sl\<rparr>)"
  by (simp add: spawns_ok_def)

lemma spawns_leave:
  assumes ok: "spawns_ok z" and i: "(i, x) \<in> set (sys_spawning z)" and slot: "i \<in> set (sys_slotted z)"
  shows "spawns_ok (z\<lparr>sys_pool := spawn_leave i (sys_pool z), sys_spawning := remove1 (i, x) (sys_spawning z), sys_slotted := remove1 i (sys_slotted z)\<rparr>)"
proof -
  let ?s = "sys_pool z" and ?sp = "remove1 (i, x) (sys_spawning z)"
  note keys = distinct_keys_remove1 [of "sys_spawning z" i x]
  from ok have d: "distinct (map fst (sys_spawning z))"
    and locks: "\<And>j. p_slotLocks ?s j = Some True \<longleftrightarrow> j \<in> fst ` set (sys_spawning z)"
    and sl: "distinct (sys_slotted z)" "set (sys_slotted z) \<subseteq> fst ` set (sys_spawning z)"
    and sem: "\<not> p_ctxDone ?s \<Longrightarrow> length (buf (p_spawnSemaphore ?s)) = length (sys_slotted z)"
    and room: "length (buf (p_spawnSemaphore ?s)) \<le> cap (p_spawnSemaphore ?s)"
    and fl: "p_spawnInFlight ?s = wrap32 (int (length (sys_spawning z)))"
    by (auto simp: spawns_ok_def)
  have len: "length (sys_spawning z) = Suc (length ?sp)" by (rule length_remove1_Suc [OF i])
  have 1: "distinct (map fst ?sp)" using keys d i by blast
  have 2: "p_slotLocks (spawn_leave i ?s) j = Some True \<longleftrightarrow> j \<in> fst ` set ?sp" for j
    using keys(2) [OF d i] locks [of j] by (auto simp: spawn_leave_def Let_def releaseSpawnSlot_def unlockWorkerSlot_def)
  have 3: "p_spawnSemaphore (spawn_leave i ?s) = sem_release (p_spawnSemaphore ?s)"
    by (simp add: spawn_leave_def Let_def releaseSpawnSlot_def unlockWorkerSlot_def)
  have "p_spawnInFlight (spawn_leave i ?s) = wrap32 (p_spawnInFlight ?s - 1)"
    by (simp add: spawn_leave_def Let_def releaseSpawnSlot_def unlockWorkerSlot_def)
  then have 4: "p_spawnInFlight (spawn_leave i ?s) = wrap32 (int (length ?sp))"
    using fl len by (simp only: wrap32_dec) simp
  have "set (remove1 i (sys_slotted z)) \<subseteq> fst ` set ?sp" using sl keys(2) [OF d i] by auto
  moreover have "length (sys_slotted z) = Suc (length (remove1 i (sys_slotted z)))" by (rule length_remove1_Suc [OF slot])
  ultimately show ?thesis
    using 1 2 sem room sl(1)
    by (simp add: spawns_ok_def 3 4 sem_release_length del: length_remove1 set_remove1_eq)
qed

lemma distinct_submset: "mset xs \<subseteq># mset ys \<Longrightarrow> distinct ys \<Longrightarrow> distinct xs"
proof -
  assume s: "mset xs \<subseteq># mset ys" and d: "distinct ys"
  have "count (mset ys) a \<le> 1" for a
    using d count_mset_0_iff [of ys a] by (cases "a \<in> set ys") (auto simp: distinct_count_atmost_1)
  then have "count (mset xs) a \<le> 1" for a
    using mset_subset_eq_count [OF s, of a] order_trans by blast
  then show "distinct xs"
    by (metis One_nat_def count_mset_0_iff distinct_count_atmost_1 le_Suc_eq le_zero_eq)
qed

text \<open>Ids that are no longer new, and ids that are used from now on.\<close>

lemma ids_ok_sub:
  assumes "ids_ok z" and sub: "mset (new_ids z') \<subseteq># mset (new_ids z)"
    and "used_ids z' \<subseteq> used_ids z \<union> U" "p_nextWorkerID (sys_pool z') = p_nextWorkerID (sys_pool z)"
    and "\<And>i. i \<in> U \<Longrightarrow> i < p_nextWorkerID (sys_pool z) \<and> i \<notin> set (new_ids z')"
  shows "ids_ok z'"
proof -
  have "set (new_ids z') \<subseteq> set (new_ids z)" using set_mset_mono [OF sub] by simp
  moreover have "distinct (new_ids z')"
    using distinct_submset [OF sub] assms(1) by (simp add: ids_ok_def)
  ultimately show ?thesis using assms(1,3-) unfolding ids_ok_def by fastforce
qed

lemma leave_new_ids:
  assumes "(i, x) \<in> set (sys_spawning z)" and "p_tasks s = p_tasks (sys_pool z)"
  shows "mset (new_ids (z\<lparr>sys_pool := s, sys_spawning := remove1 (i, x) (sys_spawning z), sys_slotted := remove1 i (sys_slotted z)\<rparr>)) \<subseteq># mset (new_ids z)"
    and "ids_ok z \<Longrightarrow> i < p_nextWorkerID (sys_pool z) \<and>
       i \<notin> set (new_ids (z\<lparr>sys_pool := s, sys_spawning := remove1 (i, x) (sys_spawning z), sys_slotted := remove1 i (sys_slotted z)\<rparr>))"
proof -
  let ?z = "z\<lparr>sys_pool := s, sys_spawning := remove1 (i, x) (sys_spawning z), sys_slotted := remove1 i (sys_slotted z)\<rparr>"
  have new: "mset (new_ids z) = mset (new_ids ?z) + (if x = None then {#i#} else {#})"
    using adding_take [of i "sys_spawning z"] adding_replace [of i] assms
    by (cases x) (simp_all add: new_ids_mset)
  then show "mset (new_ids ?z) \<subseteq># mset (new_ids z)" by simp
  assume ok: "ids_ok z"
  show "i < p_nextWorkerID (sys_pool z) \<and> i \<notin> set (new_ids ?z)"
  proof (cases x)
    case None
    with new have m: "mset (new_ids z) = mset (i # new_ids ?z)" by simp
    then have "distinct (i # new_ids ?z)" using ok by (metis ids_ok_def mset_eq_imp_distinct_iff)
    moreover have "i \<in> set (new_ids z)" using mset_eq_setD [OF m] by simp
    ultimately show ?thesis using ok by (auto simp: ids_ok_def)
  next
    case (Some a)
    with assms(1) have "i \<in> used_ids z" by (auto simp: used_ids_def)
    moreover have "mset (new_ids ?z) = mset (new_ids z)" using new Some by simp
    then have "set (new_ids ?z) = set (new_ids z)" by (rule mset_eq_setD)
    ultimately show ?thesis using ok by (auto simp: ids_ok_def)
  qed
qed

text \<open>The state after a spawn without a struct, and after one with a struct of the spawn's id.\<close>

lemma core_leave:
  assumes "core_ok z" and i: "(i, x) \<in> set (sys_spawning z)" and slot: "i \<in> set (sys_slotted z)"
    and s: "s = sys_pool z \<or> (\<exists>w. s = snd (allocate w (sys_pool z)) \<and> w_ID w = i)"
  shows "core_ok (z\<lparr>sys_pool := spawn_leave i s, sys_spawning := remove1 (i, x) (sys_spawning z), sys_slotted := remove1 i (sys_slotted z)\<rparr>)"
proof -
  let ?z = "z\<lparr>sys_pool := spawn_leave i s, sys_spawning := remove1 (i, x) (sys_spawning z), sys_slotted := remove1 i (sys_slotted z)\<rparr>"
  from assms(1) have ids: "ids_ok z" and sl: "slots_ok (sys_pool z)" and sp: "spawns_ok z"
    by (auto simp: core_ok_def)
  have t: "p_tasks (spawn_leave i s) = p_tasks (sys_pool z)" using s by auto
  have "spawns_ok ?z"
    using spawns_leave [OF sp i slot] s
    by (subst spawns_ok_cong [of _ "spawn_leave i (sys_pool z)"])
       (auto simp: spawn_leave_def Let_def releaseSpawnSlot_def unlockWorkerSlot_def)
  moreover have "ids_ok ?z"
  proof (rule ids_ok_sub [OF ids, of _ "{i}"])
    show "mset (new_ids ?z) \<subseteq># mset (new_ids z)" by (rule leave_new_ids(1) [OF i t])
    show "used_ids ?z \<subseteq> used_ids z \<union> {i}"
      using s by (auto simp: used_ids_def dest: notin_set_remove1)
    show "p_nextWorkerID (sys_pool ?z) = p_nextWorkerID (sys_pool z)" using s by auto
  qed (use leave_new_ids(2) [OF i t ids] in simp)
  moreover have "slot_ids (spawn_leave i s) = slot_ids (sys_pool z)"
    using sl s by (auto simp: slot_ids_def slots_ok_def)
  then have "slots_ok (spawn_leave i s)"
    using sl s by (auto simp: slots_ok_def less_Suc_eq)
  ultimately show ?thesis by (simp add: core_ok_def)
qed

section \<open>The end of a spawn\<close>

lemma core_slots:
  "core_ok z \<Longrightarrow> slots_ok ((sys_pool z)\<lparr>p_workers := ws\<rparr>) \<Longrightarrow>
   core_ok (z\<lparr>sys_pool := (sys_pool z)\<lparr>p_workers := ws\<rparr>\<rparr>)"
  by (simp add: core_ok_def ids_ok_def new_ids_def used_ids_def spawns_ok_def)

lemma inv_slots:
  "inv z \<Longrightarrow> slots_ok ((sys_pool z)\<lparr>p_workers := ws\<rparr>) \<Longrightarrow>
   inv (z\<lparr>sys_pool := (sys_pool z)\<lparr>p_workers := ws\<rparr>\<rparr>)"
  using core_slots [of z ws] by (simp add: inv_core owners_ok_def owned_def counts_ok_def)

text \<open>What a spawn leaves behind; \<open>fresh\<close> says that the new worker has no owner and no slot.\<close>

definition fresh :: "addr \<Rightarrow> int \<Rightarrow> system \<Rightarrow> bool" where
  "fresh b i z \<longleftrightarrow>
     b < p_nextAddr (sys_pool z) \<and> Some b \<notin># owned z \<and> w_ID (worker (sys_pool z) b) = i \<and>
     b \<notin> set (p_workers (sys_pool z))"

lemma owned_bound: "owners_ok z \<Longrightarrow> p_nextAddr (sys_pool z) \<le> b \<Longrightarrow> Some b \<notin># owned z"
  by (auto simp: owners_ok_def)

lemma inv_spawned_flow:
  assumes inv: "inv z" and i: "(i, x) \<in> set (sys_spawning z)" and slot: "i \<in> set (sys_slotted z)"
    and s0: "s0 = sys_pool z \<or> (\<exists>w. s0 = snd (allocate w (sys_pool z)) \<and> w_ID w = i)"
    and f: "flow {#} {#} s0 s1"
  defines "z1 \<equiv> z\<lparr>sys_pool := spawn_leave i s1, sys_spawning := remove1 (i, x) (sys_spawning z), sys_slotted := remove1 i (sys_slotted z)\<rparr>"
  shows "inv z1" and "owned z1 \<subseteq># owned z" and "set (p_workers (sys_pool z1)) \<subseteq> set (p_workers (sys_pool z))"
    and "p_nextAddr (sys_pool z1) = p_nextAddr s0"
    and "a \<in> set (p_workers (sys_pool z)) \<Longrightarrow> w_ID (worker (sys_pool z1) a) = w_ID (worker (sys_pool z) a)"
proof -
  let ?z0 = "z\<lparr>sys_pool := spawn_leave i s0, sys_spawning := remove1 (i, x) (sys_spawning z), sys_slotted := remove1 i (sys_slotted z)\<rparr>"
  have z1: "z1 = ?z0\<lparr>sys_pool := spawn_leave i s1\<rparr>" by (simp add: z1_def)
  from inv have core: "core_ok z" and own: "owners_ok z" and cnt: "counts_ok z" by (auto simp: inv_core)
  note leave = flow_leave [OF f, of i]
  have core0: "core_ok ?z0" by (rule core_leave [OF core i slot s0])
  have "owned ?z0 = owned z" using s0 by (auto simp: owned_def)
  moreover have "p_nextAddr (sys_pool z) \<le> p_nextAddr s0" using s0 by auto
  ultimately have own0: "owners_ok ?z0" using owners_sub [OF own, of ?z0] own s0 by (auto simp: owners_ok_def)
  have "counts_ok ?z0" using cnt s0 by (auto simp: counts_ok_def)
  with core0 own0 have "inv ?z0" by (simp add: inv_core)
  then show "inv z1" unfolding z1 using leave by (intro inv_flow_self) simp_all
  have "owned z1 \<subseteq># owned ?z0" using flow_owned [OF leave] by (simp add: z1 owned_pool)
  then show "owned z1 \<subseteq># owned z" using \<open>owned ?z0 = owned z\<close> by simp
  show "set (p_workers (sys_pool z1)) \<subseteq> set (p_workers (sys_pool z))"
    using leave s0 by (auto simp: z1 flow_def)
  show "p_nextAddr (sys_pool z1) = p_nextAddr s0" using flow_frame_simps(1) [OF leave] by (simp add: z1)
  assume "a \<in> set (p_workers (sys_pool z))"
  then have "a < p_nextAddr (sys_pool z)" using core by (simp add: core_ok_def slots_ok_def)
  then show "w_ID (worker (sys_pool z1) a) = w_ID (worker (sys_pool z) a)"
    using flow_frame_simps(10) [OF leave, of a] s0 by (auto simp: z1)
qed

lemma inv_spawned:
  assumes inv: "inv z" and i: "(i, x) \<in> set (sys_spawning z)" and slot: "i \<in> set (sys_slotted z)"
    and sp: "spawnWorker i env (sys_pool z) = (r, s1)"
  defines "z1 \<equiv> z\<lparr>sys_pool := spawn_leave i s1, sys_spawning := remove1 (i, x) (sys_spawning z), sys_slotted := remove1 i (sys_slotted z)\<rparr>"
  shows "inv z1" and "r = Inr b \<Longrightarrow> fresh b i z1"
    and "set (slot_ids (sys_pool z1)) \<subseteq> set (slot_ids (sys_pool z))"
proof -
  obtain s0 where s0: "s0 = sys_pool z \<or> (\<exists>w. s0 = snd (allocate w (sys_pool z)) \<and> w_ID w = i)"
    and f: "flow {#} {#} s0 s1" and b: "\<And>b. r = Inr b \<Longrightarrow> b = p_nextAddr (sys_pool z) \<and> p_nextAddr s0 = Suc b"
    by (rule spawnWorker_flow [OF sp]) (auto, metis allocate_frame(12))
  note * = inv_spawned_flow [OF inv i slot s0 f, folded z1_def]
  show "inv z1" by (rule *(1))
  show "set (slot_ids (sys_pool z1)) \<subseteq> set (slot_ids (sys_pool z))"
    using *(3,5) by (fastforce simp: slot_ids_def)
  assume r: "r = Inr b"
  have "Some b \<notin># owned z" using b [OF r] inv by (intro owned_bound) (auto simp: inv_core)
  then have "Some b \<notin># owned z1" using *(2) by (metis mset_subset_eqD)
  moreover have "w_ID (worker (sys_pool z1) b) = i"
    using spawnWorker_ok(2) [of i env "sys_pool z" b s1] sp r by (simp add: z1_def)
  moreover have "b \<notin> set (p_workers (sys_pool z1))"
    using *(3) b [OF r] inv by (auto simp: inv_core core_ok_def slots_ok_def)
  ultimately show "fresh b i z1" using *(4) b [OF r] by (simp add: fresh_def)
qed


text \<open>A fresh worker that gets its slot, and then is handed to the queue.\<close>

lemma fresh_flow:
  assumes "fresh b i z" and "flow {#} {#} (sys_pool z) s'"
  shows "fresh b i (z\<lparr>sys_pool := s'\<rparr>)"
proof -
  have "owned (z\<lparr>sys_pool := s'\<rparr>) \<subseteq># owned z" using flow_owned [OF assms(2)] by (simp add: owned_pool)
  then have "Some b \<notin># owned (z\<lparr>sys_pool := s'\<rparr>)" using assms(1) by (auto simp: fresh_def dest: mset_subset_eqD)
  with assms show ?thesis
    by (auto simp: fresh_def flow_frame_simps(1) [OF assms(2)] flow_frame_simps(10) [OF assms(2)]) (auto simp: flow_def)
qed

lemma fresh_slots:
  assumes "fresh b i z" and "inv z"
    and ws: "(i \<notin> set (slot_ids (sys_pool z)) \<and> ws = p_workers (sys_pool z) @ [b]) \<or>
             (i \<in> set (slot_ids (sys_pool z)) \<and>
              ws = replace_first (\<lambda>a. w_ID (worker (sys_pool z) a) = i) b (p_workers (sys_pool z)))"
  shows "inv (z\<lparr>sys_pool := (sys_pool z)\<lparr>p_workers := ws\<rparr>\<rparr>)"
proof (rule inv_slots [OF assms(2)])
  let ?s = "sys_pool z"
  from assms(2) have sl: "distinct (slot_ids ?s)" "\<forall>a\<in>set (p_workers ?s). a < p_nextAddr ?s"
    by (auto simp: inv_core core_ok_def slots_ok_def)
  from assms(1) have b: "b < p_nextAddr ?s" "w_ID (worker ?s b) = i" by (auto simp: fresh_def)
  have "set ws \<subseteq> insert b (set (p_workers ?s))" using ws set_replace_first by fastforce
  moreover have "distinct (map (\<lambda>a. w_ID (worker ?s a)) ws)"
    using ws sl(1) b map_replace_first_same [of "p_workers ?s" "\<lambda>a. w_ID (worker ?s a) = i" "\<lambda>a. w_ID (worker ?s a)" b]
    by (auto simp: slot_ids_def)
  ultimately show "slots_ok (?s\<lparr>p_workers := ws\<rparr>)" using sl(2) b by (auto simp: slots_ok_def slot_ids_def)
qed

lemma inv_given:
  assumes inv: "inv z" and g: "given b from (sys_pool z) s'"
    and b: "b < p_nextAddr (sys_pool z)" "Some b \<notin># owned z"
  shows "inv (z\<lparr>sys_pool := s'\<rparr>)"
proof -
  from inv have core: "core_ok z" and own: "owners_ok z" and cnt: "counts_ok z" by (auto simp: inv_core)
  note frame = given_frame(1-3) [OF g]
  have "core_ok (z\<lparr>sys_pool := s'\<rparr>)" using given_frame(5) [OF g, of z] core by simp
  moreover have "owners_ok (z\<lparr>sys_pool := s'\<rparr>)"
    unfolding owners_ok_def
  proof (intro conjI allI ballI)
    have sub: "owned (z\<lparr>sys_pool := s'\<rparr>) \<subseteq># owned z + {#Some b#}"
      using given_owned [OF g] by (simp add: owned_pool)
    show "count (owned (z\<lparr>sys_pool := s'\<rparr>)) x \<le> 1" for x
      using mset_subset_eq_count [OF sub, of x] own b(2)
      by (cases "x = Some b") (auto simp: owners_ok_def not_in_iff intro: order_trans)
    show "length (buf (p_available (sys_pool (z\<lparr>sys_pool := s'\<rparr>)))) \<le> cap (p_available (sys_pool (z\<lparr>sys_pool := s'\<rparr>)))"
      using given_frame(4) [OF g] own by (simp add: owners_ok_def)
    fix x assume "x \<in># owned (z\<lparr>sys_pool := s'\<rparr>)"
    with sub have "x \<in># owned z \<or> x = Some b" by (auto dest: mset_subset_eqD)
    then show "\<exists>a. x = Some a \<and> a < p_nextAddr (sys_pool (z\<lparr>sys_pool := s'\<rparr>))"
      using own b(1) frame(3) by (auto simp: owners_ok_def)
  qed
  moreover have "counts_ok (z\<lparr>sys_pool := s'\<rparr>)" using frame cnt by (simp add: counts_ok_def)
  ultimately show ?thesis by (simp add: inv_core)
qed

text \<open>\<open>addWorker\<close>'s goroutine and the respawn goroutine, after the spawn.\<close>

lemma release_given:
  assumes "releaseWorkerToAvailable (Some b) s = (r, s1)"
    and "s' = (if r = Blocked then park b from s1 else g s1)" and "\<And>s. flow {#} {#} s (g s)"
  shows "given b from s s'"
proof (cases "r = Blocked")
  case True
  with flow_release [OF assms(1)] assms(2) show ?thesis by (auto simp: given_def)
next
  case False
  with flow_trans1 [OF flow_release [OF assms(1)] assms(3)] assms(2) show ?thesis
    by (intro given_pushed [of r]) simp
qed

lemma finish_add_given:
  assumes "s1 = snd (pruneDeadWorkersLocked (noteSpawnSuccess s))"
  shows "flow {#} {#} s s1" and "given b FromAddWorker (s1\<lparr>p_workers := p_workers s1 @ [b]\<rparr>) (finishAddWorker b s)"
proof -
  show "flow {#} {#} s s1"
    unfolding assms by (rule flow_tidy [OF tidy_trans [OF tidy_success tidy_pruneLocked]])
  obtain r s3 where rel: "releaseWorkerToAvailable (Some b) (s1\<lparr>p_workers := p_workers s1 @ [b]\<rparr>) = (r, s3)" by fastforce
  show "given b FromAddWorker (s1\<lparr>p_workers := p_workers s1 @ [b]\<rparr>) (finishAddWorker b s)"
  proof (rule release_given [OF rel, where g = "\<lambda>s. if r = Pushed then s else add_active (- 1) s"])
    show "finishAddWorker b s =
        (if r = Blocked then park b FromAddWorker s3 else if r = Pushed then s3 else add_active (- 1) s3)"
      using rel assms by (cases r) (simp_all add: finishAddWorker_def Let_def)
    show "flow {#} {#} s (if r = Pushed then s else add_active (- 1) s)" for s
      using flow_tidy [OF tidy_add_active] by simp
  qed
qed

lemma after_respawn_given:
  "given b FromRespawn (noteSpawnSuccess (add_active 1 (put_in_slot i b s)))
     (afterRespawn a (Inr b) (respawn_end i (Inr b) s))"
proof -
  obtain r s3 where rel: "releaseWorkerToAvailable (Some b) (noteSpawnSuccess (add_active 1 (put_in_slot i b s))) = (r, s3)"
    by fastforce
  show ?thesis
  proof (rule release_given [OF rel, where g = releaseRespawnSlot])
    show "afterRespawn a (Inr b) (respawn_end i (Inr b) s) =
        (if r = Blocked then park b FromRespawn s3 else releaseRespawnSlot s3)"
      using rel by (cases r) (simp_all add: afterRespawn_def respawn_end_def)
    show "flow {#} {#} s (releaseRespawnSlot s)" for s
      unfolding releaseRespawnSlot_def by (rule flow_field(7)) simp
  qed
qed

lemma inv_finish_add:
  assumes "fresh b i z" and inv: "inv z" and i: "i \<notin> set (slot_ids (sys_pool z))"
  shows "inv (z\<lparr>sys_pool := finishAddWorker b (sys_pool z)\<rparr>)"
proof -
  let ?s1 = "snd (pruneDeadWorkersLocked (noteSpawnSuccess (sys_pool z)))"
  let ?s2 = "?s1\<lparr>p_workers := p_workers ?s1 @ [b]\<rparr>"
  note f = finish_add_given(1) [OF refl, of "sys_pool z"]
  have fresh: "fresh b i (z\<lparr>sys_pool := ?s1\<rparr>)" by (rule fresh_flow [OF assms(1) f])
  have "set (slot_ids ?s1) \<subseteq> set (slot_ids (sys_pool z))"
    using f by (auto simp: slot_ids_def flow_def)
  then have "inv (z\<lparr>sys_pool := ?s2\<rparr>)"
    using fresh_slots [OF fresh inv_flow_self [OF inv f], of "p_workers ?s1 @ [b]"] i by auto
  then show ?thesis
    using finish_add_given(2) [OF refl, of b "sys_pool z"] fresh inv_given [of "z\<lparr>sys_pool := ?s2\<rparr>" b] by (auto simp: fresh_def owned_def)
qed

lemma inv_after_respawn:
  assumes "fresh b i z" and inv: "inv z"
  shows "inv (z\<lparr>sys_pool := afterRespawn a (Inr b) (respawn_end i (Inr b) (sys_pool z))\<rparr>)"
proof -
  let ?s1 = "put_in_slot i b (sys_pool z)"
  let ?s2 = "noteSpawnSuccess (add_active 1 ?s1)"
  have "inv (z\<lparr>sys_pool := ?s1\<rparr>)"
    using fresh_slots [OF assms] by (auto simp: put_in_slot_def slot_ids_def)
  moreover have f: "flow {#} {#} ?s1 ?s2"
    by (rule flow_tidy [OF tidy_trans [OF tidy_add_active tidy_success]])
  ultimately have i2: "inv (z\<lparr>sys_pool := ?s2\<rparr>)" using inv_flow_self [of "z\<lparr>sys_pool := ?s1\<rparr>" ?s2] by simp
  show ?thesis
    using after_respawn_given [of b i "sys_pool z" a] inv_given [OF i2, of b] assms(1)
    by (auto simp: fresh_def owned_def noteSpawnSuccess_def add_active_def put_in_slot_def)
qed

lemma flow_after_failure:
  "flow {#} {#} s (afterSpawn (Inl e) s)" "flow {#} {#} s (afterRespawn a (Inl e) (respawn_end i (Inl e) s))"
proof -
  have "flow {#} {#} s (snd (pruneDeadWorkers (noteSpawnFailure (add_active (- 1) s))))"
    by (rule flow_tidy [OF tidy_trans [OF tidy_trans [OF tidy_add_active tidy_failure] tidy_prune]])
  from flow_trans0 [OF this flow_ensureMin] show "flow {#} {#} s (afterSpawn (Inl e) s)"
    by (simp add: afterSpawn_def)
  let ?s1 = "snd (removeWorkerFromSliceIfPresent i s)"
  have "flow {#} {#} s (syncActiveWorkersCount (evictDeadWorker a (noteSpawnFailure ?s1)))"
    unfolding evictDeadWorker_def
    by (rule flow_tidy [OF tidy_trans [OF tidy_trans [OF tidy_trans [OF tidy_removeIfPresent tidy_failure] tidy_evict] tidy_sync]])
  from flow_field(7) [OF flow_trans0 [OF this flow_ensureMin]]
  show "flow {#} {#} s (afterRespawn a (Inl e) (respawn_end i (Inl e) s))"
    by (simp add: afterRespawn_def respawn_end_def releaseRespawnSlot_def)
qed

lemma inv_spawn_end:
  assumes inv: "inv z" and i: "(i, None) \<in> set (sys_spawning z)" and slot: "i \<in> set (sys_slotted z)"
    and sp: "spawnWorker i env (sys_pool z) = (r, s1)"
  shows "inv (z\<lparr>sys_pool := afterSpawn r (spawn_leave i s1), sys_spawning := remove1 (i, None) (sys_spawning z), sys_slotted := remove1 i (sys_slotted z)\<rparr>)"
proof -
  note s = inv_spawned [OF inv i slot sp]
  have pool: "z\<lparr>sys_pool := p, sys_spawning := sp, sys_slotted := sl\<rparr> =
      (z\<lparr>sys_pool := q, sys_spawning := sp, sys_slotted := sl\<rparr>)\<lparr>sys_pool := p\<rparr>" for p q sp sl by simp
  show ?thesis
  proof (cases r)
    case (Inl e)
    show ?thesis unfolding Inl
      by (subst pool [where q = "spawn_leave i s1"], rule inv_flow_self [OF s(1)]) (simp add: flow_after_failure)
  next
    case (Inr b)
    have "i \<in> set (new_ids z)" using i by (force simp: new_ids_def adding_def)
    moreover have "set (slot_ids (sys_pool z)) \<subseteq> used_ids z" by (auto simp: slot_ids_def used_ids_def)
    ultimately have "i \<notin> set (slot_ids (sys_pool z))" using inv by (auto simp: inv_core core_ok_def ids_ok_def)
    with s(3) inv_finish_add [OF s(2) [OF Inr] s(1)]
    have "inv ((z\<lparr>sys_pool := spawn_leave i s1, sys_spawning := remove1 (i, None) (sys_spawning z), sys_slotted := remove1 i (sys_slotted z)\<rparr>)
        \<lparr>sys_pool := finishAddWorker b (spawn_leave i s1)\<rparr>)" by auto
    then show ?thesis unfolding Inr by (subst pool [where q = "spawn_leave i s1"]) (simp add: afterSpawn_def)
  qed
qed

lemma inv_respawn_end:
  assumes inv: "inv z" and i: "(i, Some a) \<in> set (sys_spawning z)" and slot: "i \<in> set (sys_slotted z)"
    and sp: "spawnWorker i env (sys_pool z) = (r, s1)"
  shows "inv (z\<lparr>sys_pool := afterRespawn a r (respawn_end i r (spawn_leave i s1)),
                sys_spawning := remove1 (i, Some a) (sys_spawning z), sys_slotted := remove1 i (sys_slotted z)\<rparr>)"
proof -
  note s = inv_spawned [OF inv i slot sp]
  have pool: "z\<lparr>sys_pool := p, sys_spawning := sp, sys_slotted := sl\<rparr> =
      (z\<lparr>sys_pool := q, sys_spawning := sp, sys_slotted := sl\<rparr>)\<lparr>sys_pool := p\<rparr>" for p q sp sl by simp
  show ?thesis
  proof (cases r)
    case (Inl e)
    show ?thesis unfolding Inl
      by (subst pool [where q = "spawn_leave i s1"], rule inv_flow_self [OF s(1)]) (simp add: flow_after_failure)
  next
    case (Inr b)
    have "inv ((z\<lparr>sys_pool := spawn_leave i s1, sys_spawning := remove1 (i, Some a) (sys_spawning z), sys_slotted := remove1 i (sys_slotted z)\<rparr>)
        \<lparr>sys_pool := afterRespawn a (Inr b) (respawn_end i (Inr b) (spawn_leave i s1))\<rparr>)"
      using inv_after_respawn [OF s(2) [OF Inr] s(1)] by simp
    then show ?thesis unfolding Inr by (subst pool [where q = "spawn_leave i s1"])
  qed
qed

section \<open>The beginning of a spawn\<close>

lemma spawn_enter_frame:
  assumes "spawn_enter i s = Some s'"
  shows "p_workers s' = p_workers s" "p_heap s' = p_heap s" "p_tasks s' = p_tasks s"
    "p_nextAddr s' = p_nextAddr s" "p_nextWorkerID s' = p_nextWorkerID s" "p_available s' = p_available s"
    "p_parked s' = p_parked s" "p_busyWorkers s' = p_busyWorkers s" "p_queuedRequests s' = p_queuedRequests s"
    "p_ctxDone s' = p_ctxDone s" "p_slotLocks s' = (p_slotLocks s)(i \<mapsto> True)" "p_slotLocks s i \<noteq> Some True"
    "p_spawnInFlight s' = wrap32 (p_spawnInFlight s + 1)"
    "sem_acquire (p_ctxDone s) (p_spawnSemaphore s) = Some (p_spawnSemaphore s')"
  using assms by (auto simp: spawn_enter_def spawn_lock_def lockWorkerSlot_def acquireSpawnSlot_def split: if_splits)

lemma sem_acquire_length:
  "sem_acquire False c = Some c' \<Longrightarrow> length (buf c') = Suc (length (buf c))"
  by (auto simp: sem_acquire_def gochan.sendD split: option.splits)

text \<open>The lock and the in-flight count, and then the slot.\<close>

lemma spawn_lock_frame:
  assumes "spawn_lock i s = Some s'"
  shows "p_workers s' = p_workers s" "p_heap s' = p_heap s" "p_tasks s' = p_tasks s"
    "p_nextAddr s' = p_nextAddr s" "p_nextWorkerID s' = p_nextWorkerID s" "p_available s' = p_available s"
    "p_parked s' = p_parked s" "p_busyWorkers s' = p_busyWorkers s" "p_queuedRequests s' = p_queuedRequests s"
    "p_ctxDone s' = p_ctxDone s" "p_slotLocks s' = (p_slotLocks s)(i \<mapsto> True)" "p_slotLocks s i \<noteq> Some True"
    "p_spawnInFlight s' = wrap32 (p_spawnInFlight s + 1)" "p_spawnSemaphore s' = p_spawnSemaphore s"
  using assms by (auto simp: spawn_lock_def lockWorkerSlot_def split: if_splits)

lemma spawns_lock:
  assumes ok: "spawns_ok z" and e: "spawn_lock i (sys_pool z) = Some s'"
  shows "spawns_ok (z\<lparr>sys_pool := s', sys_spawning := (i, x) # sys_spawning z\<rparr>)"
proof -
  note f = spawn_lock_frame [OF e]
  have "i \<notin> fst ` set (sys_spawning z)" using ok f(12) by (auto simp: spawns_ok_def)
  moreover have "p_spawnInFlight s' = wrap32 (int (Suc (length (sys_spawning z))))"
    using ok f(13) wrap32_inc [of "int (length (sys_spawning z))"] by (simp add: spawns_ok_def add.commute)
  ultimately show ?thesis using ok f(10,11,14) by (auto simp: spawns_ok_def)
qed

lemma inv_spawn_slot:
  assumes inv: "inv z" and i: "(i, x) \<in> set (sys_spawning z)" "i \<notin> set (sys_slotted z)"
    and e: "acquireSpawnSlot (sys_pool z) = Some s'"
  shows "inv (z\<lparr>sys_pool := s', sys_slotted := i # sys_slotted z\<rparr>)"
proof -
  from e obtain c where c: "sem_acquire (p_ctxDone (sys_pool z)) (p_spawnSemaphore (sys_pool z)) = Some c"
    and s': "s' = (sys_pool z)\<lparr>p_spawnSemaphore := c\<rparr>" by (auto simp: acquireSpawnSlot_def)
  have "length (buf c) \<le> cap c"
    using inv sem_acquire_bounded [OF c] by (simp add: inv_def spawns_ok_def)
  moreover have "\<not> p_ctxDone (sys_pool z) \<Longrightarrow> length (buf c) = Suc (length (buf (p_spawnSemaphore (sys_pool z))))"
    using sem_acquire_length c by simp
  moreover have "i \<in> fst ` set (sys_spawning z)" using i(1) by force
  ultimately have "spawns_ok (z\<lparr>sys_pool := s', sys_slotted := i # sys_slotted z\<rparr>)"
    using inv i(2) by (auto simp: inv_def spawns_ok_def s')
  then show ?thesis
    using inv by (simp add: inv_def s' slots_ok_def slot_ids_def ids_ok_def new_ids_def used_ids_def owners_ok_def
        owned_def counts_ok_def)
qed

text \<open>\<open>x\<close> is the worker that a respawn replaces; its id is then in use already.\<close>

lemma inv_lock:
  assumes inv: "inv z0" and e: "spawn_lock i (sys_pool z0) = Some s'"
    and ids: "ids_ok (z0\<lparr>sys_spawning := (i, x) # sys_spawning z0\<rparr>)"
  shows "inv (z0\<lparr>sys_pool := s', sys_spawning := (i, x) # sys_spawning z0\<rparr>)"
proof -
  let ?z = "z0\<lparr>sys_pool := s', sys_spawning := (i, x) # sys_spawning z0\<rparr>"
  note f = spawn_lock_frame [OF e]
  from inv have sl: "slots_ok (sys_pool z0)" and sp: "spawns_ok z0" and own: "owners_ok z0" and cnt: "counts_ok z0"
    by (auto simp: inv_def)
  have "slots_ok s'" using sl f by (simp add: slots_ok_def slot_ids_def)
  moreover have "ids_ok ?z" using ids f by (simp add: ids_ok_def new_ids_def used_ids_def)
  moreover have "owners_ok ?z" using own f by (simp add: owners_ok_def owned_def)
  moreover have "counts_ok ?z" using cnt f by (simp add: counts_ok_def)
  ultimately show ?thesis using spawns_lock [OF sp e, of x] by (simp add: inv_def)
qed

text \<open>A task that begins to spawn gives its id to the spawn.\<close>

lemma ids_spawn_begin:
  assumes "ids_ok z" and t: "GoSpawnWorker i \<in> set (p_tasks (sys_pool z))"
  shows "ids_ok (z\<lparr>sys_pool := take_task (GoSpawnWorker i) (sys_pool z), sys_spawning := (i, None) # sys_spawning z\<rparr>)"
proof (subst ids_ok_mset [of _ z])
  show "mset (new_ids (z\<lparr>sys_pool := take_task (GoSpawnWorker i) (sys_pool z),
      sys_spawning := (i, None) # sys_spawning z\<rparr>)) = mset (new_ids z)"
    using spawn_ids_take [OF t] by (simp add: new_ids_mset)
qed (use assms(1) in \<open>auto simp: used_ids_def\<close>)

lemma inv_spawn_begin:
  assumes inv: "inv z" and t: "GoSpawnWorker i \<in> set (p_tasks (sys_pool z))"
    and e: "spawn_lock i (take_task (GoSpawnWorker i) (sys_pool z)) = Some s'"
  shows "inv (z\<lparr>sys_pool := s', sys_spawning := (i, None) # sys_spawning z\<rparr>)"
proof -
  let ?s = "take_task (GoSpawnWorker i) (sys_pool z)"
  note f = spawn_lock_frame [OF e]
  from inv have ids: "ids_ok z" and sl: "slots_ok (sys_pool z)" and sp: "spawns_ok z" and own: "owners_ok z"
    and cnt: "counts_ok z" by (auto simp: inv_def)
  let ?z = "z\<lparr>sys_pool := s', sys_spawning := (i, None) # sys_spawning z\<rparr>"
  have "ids_ok ?z" using ids_spawn_begin [OF ids t] f by (simp add: ids_ok_def new_ids_def used_ids_def)
  moreover have "spawns_ok (z\<lparr>sys_pool := ?s\<rparr>)" using sp by (simp add: spawns_ok_def)
  from spawns_lock [OF this, of i s' None] e have "spawns_ok ?z" by simp
  moreover have "slots_ok s'" using sl f by (simp add: slots_ok_def slot_ids_def)
  moreover have "owners_ok ?z" using own f by (simp add: owners_ok_def owned_def)
  moreover have "counts_ok ?z" using cnt f by (simp add: counts_ok_def)
  ultimately show ?thesis by (simp add: inv_def)
qed

lemma respawn_begin_flow:
  assumes "acquireRespawnSlot s = Some s1"
  shows "flow {#} {#} s (respawn_begin a s1)"
proof -
  from assms obtain c where s1: "s1 = s\<lparr>p_respawnSemaphore := c\<rparr>" by (auto simp: acquireRespawnSlot_def)
  have "flow {#} {#} s s1" unfolding s1 by (rule flow_field(7)) simp
  moreover have "flow {#} {#} s1 (respawn_begin a s1)"
    unfolding respawn_begin_def
    by (rule flow_tidy [OF tidy_trans [OF tidy_only_worker [OF only_worker_terminate] tidy_add_active]])
  ultimately show ?thesis by (rule flow_trans0)
qed

lemma inv_locking: "inv (z\<lparr>sys_locking := l\<rparr>) = inv z"
  by (simp add: inv_core owners_ok_def owned_def counts_ok_def)

lemma inv_respawn_begin:
  assumes inv: "inv z" and acq: "acquireRespawnSlot (take_task (GoRespawn a) (sys_pool z)) = Some s1"
  shows "inv (z\<lparr>sys_pool := respawn_begin a s1, sys_locking := a # sys_locking z\<rparr>)"
proof -
  have "inv (z\<lparr>sys_pool := respawn_begin a s1\<rparr>)" by (rule inv_task_flow [OF inv _ respawn_begin_flow [OF acq]]) simp
  then have "inv ((z\<lparr>sys_pool := respawn_begin a s1\<rparr>)\<lparr>sys_locking := a # sys_locking z\<rparr>)" by (simp only: inv_locking)
  then show ?thesis by simp
qed

lemma inv_respawn_lock:
  assumes inv: "inv z" and i: "i = w_ID (worker (sys_pool z) a)" and e: "spawn_lock i (sys_pool z) = Some s'"
  shows "inv (z\<lparr>sys_pool := s', sys_spawning := (i, Some a) # sys_spawning z, sys_locking := l\<rparr>)"
proof -
  have "i \<in> used_ids z" using i by (auto simp: used_ids_def)
  then have "used_ids (z\<lparr>sys_spawning := (i, Some a) # sys_spawning z\<rparr>) = used_ids z" by (auto simp: used_ids_def)
  with inv have "ids_ok (z\<lparr>sys_spawning := (i, Some a) # sys_spawning z\<rparr>)"
    by (subst ids_ok_mset [of _ z]) (auto simp: new_ids_mset inv_def)
  from inv_lock [OF inv e this]
  have "inv ((z\<lparr>sys_pool := s', sys_spawning := (i, Some a) # sys_spawning z\<rparr>)\<lparr>sys_locking := l\<rparr>)" by (simp only: inv_locking)
  then show ?thesis by simp
qed

section \<open>Adding a worker\<close>

lemma reserve_slot_flow: "reserve_slot s = Some r \<Longrightarrow> flow {#} {#} s (snd r)"
proof (erule reserve_slot.raw_induct [rotated, where P = "\<lambda>s r. flow {#} {#} s (snd r)"])
  fix f :: "pool \<Rightarrow> (bool \<times> pool) option" and s and r :: "bool \<times> pool"
  assume IH: "\<And>s r. f s = Some r \<Longrightarrow> flow {#} {#} s (snd r)"
    and body: "(if p_activeWorkers s \<ge> wrap32 (GetMaxWorkers (p_runtime s)) then
        (if countOccupyingSlots s < GetMaxWorkers (p_runtime s) then f (syncActiveWorkersCount s)
         else Some (False, s)) else Some (True, add_active 1 s)) = Some r"
  have sync: "flow {#} {#} s (syncActiveWorkersCount s)" by (rule flow_tidy [OF tidy_sync])
  have "flow {#} {#} s (add_active 1 s)" by (rule flow_tidy [OF tidy_add_active])
  with body IH [of "syncActiveWorkersCount s" r] flow_trans0 [OF sync] show "flow {#} {#} s (snd r)"
    by (auto split: if_splits)
qed

lemma addWorker_cases:
  assumes "addWorker s = Some s'"
  obtains "flow {#} {#} s s'"
  | s1 i s2 where "flow {#} {#} s s1" "nextWorkerID s1 = (i, s2)" "s' = go (GoSpawnWorker i) s2"
proof (cases "spawnCircuitOpen s")
  case (Pair opened s1)
  with flow_tidy [OF tidy_circuit [of s]] have c: "flow {#} {#} s s1" by simp
  show ?thesis
  proof (cases "opened \<or> livingWorkerCount s1 \<ge> GetMaxWorkers (p_runtime s1)")
    case True
    with assms Pair have "s' = s1" by (auto simp: addWorker_def split: bool.splits if_splits)
    with c show ?thesis by (intro that(1)) simp
  next
    case False
    with assms Pair have "map_option (\<lambda>(reserved, s2).
        if reserved then (case nextWorkerID s2 of (i, s3) \<Rightarrow> go (GoSpawnWorker i) s3) else s2) (reserve_slot s1) = Some s'"
      by (simp add: addWorker_def)
    then obtain reserved s2 where r: "reserve_slot s1 = Some (reserved, s2)"
      and s': "(if reserved then (case nextWorkerID s2 of (i, s3) \<Rightarrow> go (GoSpawnWorker i) s3) else s2) = s'"
      by (cases "reserve_slot s1") (simp, cases "the (reserve_slot s1)", simp)
    have f: "flow {#} {#} s s2" using flow_trans0 [OF c reserve_slot_flow [OF r]] by simp
    show ?thesis
    proof (cases reserved)
      case True
      obtain i s3 where "nextWorkerID s2 = (i, s3)" by fastforce
      with True s' f show ?thesis by (intro that(2) [of s2 i s3]) simp_all
    qed (use f s' in \<open>intro that(1), simp\<close>)
  qed
qed

lemma inv_add_worker:
  assumes inv: "inv z" and a: "addWorker (take_task GoAddWorker (sys_pool z)) = Some s'"
    and lim: "p_nextWorkerID (sys_pool z) < 2147483647"
  shows "inv (z\<lparr>sys_pool := s'\<rparr>)"
proof (cases rule: addWorker_cases [OF a])
  case 1
  then show ?thesis by (intro inv_task_flow [OF inv]) simp_all
next
  case (2 s1 i s2)
  have inv1: "inv (z\<lparr>sys_pool := s1\<rparr>)" by (rule inv_task_flow [OF inv _ 2(1)]) simp
  then have n: "0 \<le> p_nextWorkerID s1" by (simp add: inv_def ids_ok_def)
  have "p_nextWorkerID s1 < 2147483647" using flow_frame_simps(2) [OF 2(1)] lim by simp
  with n 2(2) have i: "i = p_nextWorkerID s1" and s2: "s2 = s1\<lparr>p_nextWorkerID := p_nextWorkerID s1 + 1\<rparr>"
    by (auto simp: nextWorkerID_def Let_def)
  have s': "s' = s1\<lparr>p_nextWorkerID := p_nextWorkerID s1 + 1, p_tasks := p_tasks s1 @ [GoSpawnWorker i]\<rparr>"
    using 2(3) s2 by (simp add: go_def)
  let ?z1 = "z\<lparr>sys_pool := s1\<rparr>" and ?z = "z\<lparr>sys_pool := s'\<rparr>"
  have m: "mset (new_ids ?z) = mset (i # new_ids ?z1)" by (simp add: new_ids_mset s')
  from inv1 have ids1: "ids_ok ?z1" by (simp add: inv_def)
  then have "distinct (i # new_ids ?z1)" by (auto simp: ids_ok_def i)
  then have "distinct (new_ids ?z)" using m by (metis mset_eq_imp_distinct_iff)
  moreover have "set (new_ids ?z) = insert i (set (new_ids ?z1))" using mset_eq_setD [OF m] by simp
  moreover have "used_ids ?z = used_ids ?z1" by (simp add: used_ids_def s')
  moreover have "p_nextWorkerID (sys_pool ?z) = i + 1" "p_nextWorkerID (sys_pool ?z1) = i" by (simp_all add: s' i)
  moreover have "\<forall>j \<in> set (new_ids ?z1) \<union> used_ids ?z1. j < i" "set (new_ids ?z1) \<inter> used_ids ?z1 = {}"
    using ids1 unfolding ids_ok_def by (simp_all add: i)
  ultimately have "ids_ok ?z" using n unfolding ids_ok_def by (auto simp: i intro: less_imp_le)
  with inv1 show ?thesis
    by (simp add: s' inv_def slots_ok_def slot_ids_def spawns_ok_def owners_ok_def owned_def counts_ok_def)
qed

section \<open>Every reachable state\<close>

lemma inv_step: "step z z' \<Longrightarrow> inv z \<Longrightarrow> inv z'"
proof (induction rule: step.cases)
  case (request takeDone ctx z r counted s')
  then show ?case by (simp add: inv_request)
next
  case (resume counted z takeDone ctx r s')
  then show ?case by (simp add: inv_resume)
next
  case (finish a z r res s')
  then show ?case by (simp add: inv_finish)
next
  case (unblock z s')
  then show ?case by (simp add: inv_unblock)
next
  case (add_worker z s')
  then show ?case by (simp add: inv_add_worker)
next
  case (spawn_begin i z s')
  then show ?case by (simp add: inv_spawn_begin)
next
  case (spawn_slot i x z s')
  then show ?case by (simp add: inv_spawn_slot)
next
  case (spawn_end i z env r s1)
  then show ?case by (simp add: inv_spawn_end)
next
  case (respawn_begin a z s1)
  then show ?case by (simp add: inv_respawn_begin)
next
  case (respawn_lock a z i s')
  then show ?case by (simp add: inv_respawn_lock)
next
  case (respawn_end i a z env r s1)
  then show ?case by (simp add: inv_respawn_end)
next
  case (process_exit a z)
  then show ?case by (simp add: inv_task_flow [OF _ _ flow_onExit])
next
  case (fast_warmup z ready)
  then show ?case by (simp add: inv_task_flow [OF _ _ flow_warmup])
next
  case (reaper z a)
  then show ?case by (simp add: inv_flow_self [OF _ flow_reap])
next
  case (health z)
  then show ?case by (simp add: inv_flow_self [OF _ flow_health_tick])
next
  case (scaler z returned s')
  then show ?case by (simp only: inv_scaler)
next
  case (statistics z stats s')
  then show ?case by (simp add: inv_flow_self [OF _ flow_stats])
next
  case (configure oob meth decoded z reply rc)
  then show ?case by (simp add: inv_flow_self flow_field(9))
next
  case (environment z os')
  then show ?case by (simp add: inv_flow_self flow_field(8))
next
  case (stop z)
  then show ?case by (simp add: inv_stop)
qed

text \<open>What \<open>Start\<close> leaves of a new pool.\<close>

lemma new_pool:
  "p_running (NewWorkerPool tempDir os cfg) = False" "p_workers (NewWorkerPool tempDir os cfg) = []"
  "p_heap (NewWorkerPool tempDir os cfg) = (\<lambda>_. unallocated)" "buf (p_available (NewWorkerPool tempDir os cfg)) = []"
  "p_parked (NewWorkerPool tempDir os cfg) = []" "p_slotLocks (NewWorkerPool tempDir os cfg) = (\<lambda>_. None)"
  "buf (p_spawnSemaphore (NewWorkerPool tempDir os cfg)) = []" "p_spawnInFlight (NewWorkerPool tempDir os cfg) = 0"
  "p_busyWorkers (NewWorkerPool tempDir os cfg) = 0" "p_queuedRequests (NewWorkerPool tempDir os cfg) = 0"
  "p_tasks (NewWorkerPool tempDir os cfg) = []" "p_nextAddr (NewWorkerPool tempDir os cfg) = 0"
  by (simp_all add: NewWorkerPool_def Let_def)

lemma started_pool:
  assumes "\<not> p_running s"
  shows "p_workers (snd (Start None s)) = p_workers s" "p_heap (snd (Start None s)) = p_heap s"
    "p_nextWorkerID (snd (Start None s)) = 0" "p_available (snd (Start None s)) = p_available s"
    "p_parked (snd (Start None s)) = p_parked s" "p_slotLocks (snd (Start None s)) = p_slotLocks s"
    "p_spawnSemaphore (snd (Start None s)) = p_spawnSemaphore s"
    "p_spawnInFlight (snd (Start None s)) = p_spawnInFlight s"
    "p_busyWorkers (snd (Start None s)) = p_busyWorkers s"
    "p_queuedRequests (snd (Start None s)) = p_queuedRequests s"
    "spawn_ids (p_tasks (snd (Start None s))) = spawn_ids (p_tasks s)"
    "p_nextAddr (snd (Start None s)) = p_nextAddr s"
  using assms go_pow_rest [of 1 GoScalerLoop] go_pow_rest [of 1 GoHealthMonitor] go_pow_rest [of 1 GoFastWarmup]
    go_pow_frame(4) [of 1 GoScalerLoop] go_pow_frame(4) [of 1 GoHealthMonitor] go_pow_frame(4) [of 1 GoFastWarmup]
  by (simp_all add: Start_def Let_def) (simp add: spawn_ids_def concat_replicate_trivial)

lemma inv_initial: "inv (initial tempDir os cfg)"
proof -
  let ?z = "initial tempDir os cfg"
  have h: "sys_held ?z = []" "sys_waiting ?z = []" "sys_spawning ?z = []" "sys_slotted ?z = []"
    by (simp_all add: initial_def)
  have "sys_pool ?z = snd (Start None (NewWorkerPool tempDir os cfg))" by (simp add: initial_def)
  note z = h this new_pool [of tempDir os cfg] started_pool [of "NewWorkerPool tempDir os cfg"]
  have "slots_ok (sys_pool ?z)" by (simp add: slots_ok_def slot_ids_def z)
  moreover have "ids_ok ?z" by (auto simp: ids_ok_def new_ids_def used_ids_def z unallocated_def)
  moreover have "spawns_ok ?z" "owners_ok ?z" "counts_ok ?z"
    by (simp_all add: spawns_ok_def owners_ok_def owned_def counts_ok_def z)
  ultimately show ?thesis by (simp add: inv_def)
qed

lemma reachable_inv: "reachable z \<Longrightarrow> inv z"
  by (induction rule: reachable.induct) (auto intro: inv_initial inv_step)

end
