(* ===== verification/Locks.thy ===== *)
theory Locks
  imports Flow
begin

text \<open>
  The one wait for a mutex that can last: \<open>Worker.Execute\<close> (\<open>worker.go\<close>) holds the worker's mutex while it
  executes a request, and \<open>GetWorker\<close>, like all who walk the slots, locks the mutex of one worker after the
  other in \<open>pruneDeadWorkersLocked\<close> (\<open>worker_reconcile.go\<close>). The workers whose mutex is held by an
  execution are the list \<open>executing\<close>; \<open>None\<close> is a goroutine that waits for one of them. A worker in the
  queue is never among them, so that only the walks over the slots are guarded here. All other
  critical sections are short and are taken as a whole everywhere.
\<close>

text \<open>The walk: \<open>False\<close> when it stops at a worker that executes.\<close>

fun walk_slots :: "addr list \<Rightarrow> addr list \<Rightarrow> bool" where
  "walk_slots executing [] = True"
| "walk_slots executing (w # ws) = (w \<notin> set executing \<and> walk_slots executing ws)"

definition GetWorker_locked ::
  "addr list \<Rightarrow> (nat \<Rightarrow> bool) \<Rightarrow> ctx_state \<Rightarrow> pool \<Rightarrow> ((get_result \<times> bool) \<times> pool) option" where
  "GetWorker_locked executing takeDone ctx s =
     (case tryGetWorker s of
        (Some a, s1) \<Rightarrow> Some ((Got a, False), s1)
      | (None, s1) \<Rightarrow>
          if walk_slots executing (p_workers (snd (compactAvailableQueue s1)))
          then Some (GetWorker takeDone ctx s) else None)"

lemma walk_slots_iff: "walk_slots executing ws \<longleftrightarrow> set ws \<inter> set executing = {}"
  by (induction ws) auto

lemma GetWorker_locked_Some:
  "GetWorker_locked executing takeDone ctx s = Some r \<Longrightarrow> GetWorker takeDone ctx s = r"
  by (auto simp: GetWorker_locked_def GetWorker_def split: prod.splits option.splits if_splits)

text \<open>Looking for a queued worker and compacting the queue add no slot.\<close>

lemma slots_before_prune:
  assumes "tryGetWorker s = (None, s1)"
  shows "set (p_workers (snd (compactAvailableQueue s1))) \<subseteq> set (p_workers s)"
proof -
  have "flow {#} {#} s s1" using tryGet_got [OF assms] by (simp add: got_def)
  then have "set (p_workers s1) \<subseteq> set (p_workers s)" by (simp add: flow_def)
  moreover have "flow {#} {#} s1 (snd (compactAvailableQueue s1))" by (rule flow_compact)
  then have "set (p_workers (snd (compactAvailableQueue s1))) \<subseteq> set (p_workers s1)" by (simp add: flow_def)
  ultimately show ?thesis by blast
qed

lemma GetWorker_locked_free:
  assumes "set (p_workers s) \<inter> set executing = {}"
  shows "GetWorker_locked executing takeDone ctx s = Some (GetWorker takeDone ctx s)"
proof (cases "tryGetWorker s")
  case (Pair r s1)
  show ?thesis
  proof (cases r)
    case None
    with Pair slots_before_prune [of s s1] assms show ?thesis
      by (auto simp: GetWorker_locked_def walk_slots_iff)
  next
    case (Some a)
    with Pair show ?thesis by (simp add: GetWorker_locked_def GetWorker_def)
  qed
qed

lemma GetWorker_locked_waits:
  assumes "buf (p_available s) = []" and "a \<in> set (p_workers s)" "a \<in> set executing"
  shows "GetWorker_locked executing takeDone ctx s = None"
  using assms
  by (auto simp: GetWorker_locked_def tryGetWorker_def try_recv_def compactAvailableQueue_def Let_def drain_loop.simps
      walk_slots_iff)

end
