(* ===== verification/Runtime_Properties.thy ===== *)
theory Runtime_Properties
  imports Spawning Locks
begin

text \<open>
  Properties of the whole engine: what holds in every state that requests, goroutines, dying
  processes and configuration changes can lead to. They rest on the invariant of Spawning.

  The first section builds one run, from the start of a pool with one worker to a request that holds
  it; the witnesses apply the properties to its last state.
\<close>

section \<open>A run\<close>

definition demo_os :: OS where
  "demo_os = \<lparr>os_now = 0, os_alive = (\<lambda>_. False), os_obeysTerm = (\<lambda>_. True), os_obeysKill = (\<lambda>_. True)\<rparr>"

definition demo_config :: WorkerPoolConfig where
  "demo_config = (pool_config DefaultConfig (NewRuntimeConfig 1 1 True 1 False))
     \<lparr>pc_NumWorkers := 1, pc_MinWorkers := 1, pc_MaxWorkers := 1\<rparr>"

definition demo_start :: pool where
  "demo_start = (NewWorkerPool '''' demo_os demo_config)\<lparr>p_bootTime := Some 0, p_running := True\<rparr>"

definition demo_spawn :: spawn_env where
  "demo_spawn = \<lparr>se_hook = None, se_mkdir = None, se_listen = (\<lambda>_. \<lparr>la_listen = None, la_chmod = None\<rparr>),
     se_start = Inr 7, se_crashed = False,
     se_event = Connected \<lparr>rd_data = bytes_of ''OK'', rd_end = EOF\<rparr> None None\<rparr>"

lemma demo_fields:
  "p_runtime demo_start = \<lparr>rc_MinWorkers = 1, rc_MaxWorkers = 1, rc_BackpressureEnabled = True,
     rc_BackpressureMaxQueue = 1, rc_KeepWarm = False\<rparr>"
  "p_workers demo_start = []" "p_available demo_start = make_chan 1" "p_ctxDone demo_start = False"
  "p_spawnSemaphore demo_start = make_chan 4" "p_slotLocks demo_start = (\<lambda>_. None)"
  "p_spawnInFlight demo_start = 0" "p_activeWorkers demo_start = 0" "p_nextWorkerID demo_start = 0"
  "p_spawnCircuitOpenUntil demo_start = None" "p_heap demo_start = (\<lambda>_. unallocated)"
  "p_nextAddr demo_start = 0" "p_parked demo_start = []" "p_os demo_start = demo_os"
  "p_consecutiveSpawnFailures demo_start = 0" "p_tasks demo_start = []" "p_busyWorkers demo_start = 0"
  by (simp_all add: demo_start_def NewWorkerPool_def Let_def demo_config_def pool_config_def DefaultConfig_def
      pos_or_def NewRuntimeConfig_def)

lemma demo_initial:
  "initial '''' demo_os demo_config =
     \<lparr>sys_pool = demo_start\<lparr>p_tasks := [GoAddWorker, GoScalerLoop, GoHealthMonitor]\<rparr>, sys_held = [],
      sys_waiting = [], sys_spawning = [], sys_slotted = [], sys_locking = []\<rparr>"
  by (simp add: initial_def Start_def Let_def demo_start_def NewWorkerPool_def demo_config_def pool_config_def DefaultConfig_def
      pos_or_def NewRuntimeConfig_def GetMinWorkers_def GetMaxWorkers_def go_def demo_os_def now_def)

definition demo_worker :: "WorkerState \<Rightarrow> Worker" where
  "demo_worker st = (new_worker 0 7 demo_start)\<lparr>w_listener := NilHandle, w_conn := OpenHandle, w_waitOnce := True, w_reaping := True, w_state := st\<rparr>"

definition demo_alive :: OS where
  "demo_alive = demo_os\<lparr>os_alive := (\<lambda>_. False)(7 := True)\<rparr>"

definition demo_reserved :: pool where
  "demo_reserved = demo_start\<lparr>p_tasks := [GoScalerLoop, GoHealthMonitor], p_activeWorkers := 1, p_nextWorkerID := 1\<rparr>"

definition demo_spawned :: "WorkerState \<Rightarrow> pool" where
  "demo_spawned st = demo_reserved\<lparr>p_heap := (\<lambda>_. unallocated)(0 := demo_worker st), p_nextAddr := 1, p_os := demo_alive,
     p_slotLocks := (\<lambda>_. None)(0 \<mapsto> False)\<rparr>"

lemma demo_add:
  "addWorker (demo_start\<lparr>p_tasks := [GoScalerLoop, GoHealthMonitor]\<rparr>) =
     Some (demo_reserved\<lparr>p_tasks := [GoScalerLoop, GoHealthMonitor, GoSpawnWorker 0]\<rparr>)"
  by (simp add: addWorker_def spawnCircuitOpen_def demo_fields livingWorkerCount_def countLivingWorkersLocked_def
      count_if_def GetMaxWorkers_def reserve_slot_now nextWorkerID_def Let_def go_def add_active_def demo_reserved_def)

definition demo_entered :: pool where
  "demo_entered = demo_reserved\<lparr>p_slotLocks := (\<lambda>_. None)(0 \<mapsto> True), p_spawnInFlight := 1,
     p_spawnSemaphore := \<lparr>buf = [()], cap = 4\<rparr>\<rparr>"

definition demo_locked :: pool where
  "demo_locked = demo_reserved\<lparr>p_slotLocks := (\<lambda>_. None)(0 \<mapsto> True), p_spawnInFlight := 1\<rparr>"

lemma demo_enter: "spawn_lock 0 demo_reserved = Some demo_locked" "acquireSpawnSlot demo_locked = Some demo_entered"
  by (simp_all add: spawn_lock_def lockWorkerSlot_def acquireSpawnSlot_def demo_locked_def demo_entered_def
      demo_reserved_def demo_fields sem_acquire_def try_send_def make_chan_def)

lemma demo_spawnWorker:
  "spawnWorker 0 demo_spawn demo_entered =
     (Inr 0, demo_entered\<lparr>p_heap := (\<lambda>_. unallocated)(0 := demo_worker WorkerStateIdle), p_nextAddr := 1, p_os := demo_alive\<rparr>)"
proof -
  have h: "handshake_with ps \<lparr>rd_data = bytes_of ''OK'', rd_end = EOF\<rparr> None None = None" for ps
  proof -
    have "length (bytes_of ''OK'') = 2" by (simp add: bytes_of_def)
    then show ?thesis
      by (simp add: handshake_with_def HandshakeWithTimeout_def Handshake_def ReadFull_def HandshakeOK_def)
  qed
  show ?thesis
    by (simp add: spawnWorker_def demo_spawn_def listenUnix_def unixBindRetries_def numeral_eq_Suc Let_def allocate_def
        demo_entered_def demo_reserved_def demo_fields process_started_def startReaper_def upd_worker_def spawn_select_def h
        set_state_def demo_worker_def new_worker_def demo_alive_def demo_os_def now_def)
qed

lemma demo_release:
  "afterSpawn (Inr 0) (spawn_leave 0 (demo_entered\<lparr>p_heap := (\<lambda>_. unallocated)(0 := demo_worker WorkerStateIdle),
       p_nextAddr := 1, p_os := demo_alive\<rparr>)) =
     (demo_spawned WorkerStateIdle)\<lparr>p_workers := [0], p_available := \<lparr>buf = [Some 0], cap = 1\<rparr>\<rparr>"
  by (simp add: afterSpawn_def finishAddWorker_def spawn_leave_def releaseSpawnSlot_def unlockWorkerSlot_def Let_def
      noteSpawnSuccess_def pruneDeadWorkersLocked_filter demo_entered_def demo_reserved_def demo_spawned_def demo_fields
      sem_release_def try_recv_def releaseWorkerToAvailable_def tryPushAvailable_def try_send_def make_chan_def
      demo_worker_def new_worker_def set_state_def upd_worker_def isProcessDead_def signal0_def demo_alive_def)

lemma demo_get:
  "GetWorker (\<lambda>_. False) CtxActive
     ((demo_spawned WorkerStateIdle)\<lparr>p_workers := [0], p_available := \<lparr>buf = [Some 0], cap = 1\<rparr>\<rparr>) =
     ((Got 0, False),
      (demo_spawned WorkerStateBusy)\<lparr>p_workers := [0], p_available := \<lparr>buf = [], cap = 1\<rparr>, p_busyWorkers := 1\<rparr>)"
  by (simp add: GetWorker_def tryGetWorker_def try_recv_def validateAndPrepareWorker_def isWorkerDead_def
      demo_spawned_def demo_reserved_def demo_fields demo_worker_def new_worker_def demo_alive_def demo_os_def
      make_chan_def signal0_def upd_worker_def Let_def now_def)

definition demo_busy :: pool where
  "demo_busy = (demo_spawned WorkerStateBusy)\<lparr>p_workers := [0], p_available := \<lparr>buf = [], cap = 1\<rparr>, p_busyWorkers := 1\<rparr>"

lemma demo_busy_fields:
  "p_runtime demo_busy = p_runtime demo_start" "p_workers demo_busy = [0]" "p_available demo_busy = \<lparr>buf = [], cap = 1\<rparr>"
  "p_heap demo_busy = (\<lambda>_. unallocated)(0 := demo_worker WorkerStateBusy)" "p_spawnCircuitOpenUntil demo_busy = None"
  "p_queuedRequests demo_busy = 0"
  by (simp_all add: demo_busy_def demo_spawned_def demo_reserved_def demo_fields)
     (simp add: demo_start_def NewWorkerPool_def Let_def)

text \<open>A second request finds the only worker taken and waits.\<close>

lemma demo_wait: "GetWorker (\<lambda>_. False) CtxActive demo_busy = ((Waiting, True), demo_busy\<lparr>p_queuedRequests := 1\<rparr>)"
  by (simp add: GetWorker_def tryGetWorker_def try_recv_def compactAvailableQueue_def Let_def drain_loop.simps
      pruneDeadWorkers_def pruneDeadWorkersLocked_filter admit_def GetBackpressureEnabled_def GetBackpressureMaxQueue_def
      scale_on_demand_def spawnCircuitOpen_def livingWorkerCount_def countLivingWorkersLocked_def count_if_def
      GetMaxWorkers_def get_resume_def get_wait.simps leave_queue_def demo_busy_fields demo_fields demo_worker_def)

definition demo_at :: "pool \<Rightarrow> (int \<times> addr option) list \<Rightarrow> int list \<Rightarrow> system" where
  "demo_at s sp sl = \<lparr>sys_pool = s, sys_held = [], sys_waiting = [], sys_spawning = sp, sys_slotted = sl, sys_locking = []\<rparr>"

definition demo_idle :: system where
  "demo_idle = demo_at ((demo_spawned WorkerStateIdle)\<lparr>p_workers := [0], p_available := \<lparr>buf = [Some 0], cap = 1\<rparr>\<rparr>) [] []"

definition demo :: system where
  "demo = \<lparr>sys_pool = demo_busy, sys_held = [0], sys_waiting = [], sys_spawning = [],
     sys_slotted = [], sys_locking = []\<rparr>"

definition demo_waiting :: system where
  "demo_waiting = \<lparr>sys_pool = demo_busy\<lparr>p_queuedRequests := 1\<rparr>, sys_held = [0], sys_waiting = [True],
     sys_spawning = [], sys_slotted = [], sys_locking = []\<rparr>"

definition demo_spawning :: system where
  "demo_spawning = demo_at demo_entered [(0, None)] [0]"

text \<open>Steps that leave the configuration as it is, and the run up to the first spawn.\<close>

definition steady_step :: "system \<Rightarrow> system \<Rightarrow> bool" where
  "steady_step z z' \<longleftrightarrow> step z z' \<and> p_runtime (sys_pool z') = p_runtime (sys_pool z)"

lemma steadyI [intro]: "step z z' \<Longrightarrow> p_runtime (sys_pool z') = p_runtime (sys_pool z) \<Longrightarrow> steady_step z z'"
  by (simp add: steady_step_def)

lemma steady_reachable: "steady_step\<^sup>*\<^sup>* z z' \<Longrightarrow> reachable z \<Longrightarrow> reachable z'"
  by (induction rule: rtranclp_induct) (auto simp: steady_step_def intro: reachable.steps)

lemma demo_spawning_run: "steady_step\<^sup>*\<^sup>* (initial '''' demo_os demo_config) demo_spawning"
proof -
  let ?tasks = "[GoScalerLoop, GoHealthMonitor]"
  let ?z0 = "demo_at (demo_start\<lparr>p_tasks := GoAddWorker # ?tasks\<rparr>) [] []"
  let ?z1 = "demo_at (demo_reserved\<lparr>p_tasks := ?tasks @ [GoSpawnWorker 0]\<rparr>) [] []"
  let ?z2 = "demo_at demo_locked [(0, None)] []"
  have "steady_step ?z0 ?z1"
    using step.add_worker [of ?z0 "demo_reserved\<lparr>p_tasks := ?tasks @ [GoSpawnWorker 0]\<rparr>"] demo_add
    by (intro steadyI) (simp_all add: demo_at_def take_task_def demo_fields demo_reserved_def)
  moreover have "take_task (GoSpawnWorker 0) (sys_pool ?z1) = demo_reserved"
    by (simp add: demo_at_def take_task_def demo_reserved_def)
  then have "steady_step ?z1 ?z2"
    using step.spawn_begin [of 0 ?z1 demo_locked] demo_enter(1)
    by (intro steadyI) (simp_all add: demo_at_def demo_locked_def demo_reserved_def)
  moreover have "steady_step ?z2 demo_spawning"
    using step.spawn_slot [of 0 None ?z2 demo_entered] demo_enter(2)
    by (intro steadyI) (simp_all add: demo_at_def demo_spawning_def demo_entered_def demo_locked_def)
  moreover have "initial '''' demo_os demo_config = ?z0" by (simp add: demo_initial demo_at_def)
  ultimately show ?thesis by (simp add: rtranclp.rtrancl_into_rtrancl)
qed

lemma demo_spawning_reachable: "reachable demo_spawning"
  by (rule steady_reachable [OF demo_spawning_run reachable.start])

lemma demo_idle_reachable: "reachable demo_idle"
  using step.spawn_end [of 0 "demo_at demo_entered [(0, None)] [0]" demo_spawn] demo_spawnWorker demo_release
    demo_spawning_reachable
  unfolding demo_idle_def demo_spawning_def by (auto simp: demo_at_def intro: reachable.steps)

lemma demo_idle_get:
  "GetWorker (\<lambda>_. False) CtxActive (sys_pool demo_idle) = ((Got 0, False), demo_busy)"
  using demo_get by (simp add: demo_idle_def demo_at_def demo_busy_def)

lemma demo_reachable: "reachable demo"
  using step.request [OF demo_idle_get] demo_idle_reachable
  by (auto simp: demo_idle_def demo_at_def demo_def settle_def intro: reachable.steps)

lemma demo_waiting_reachable: "reachable demo_waiting"
  using step.request [of "\<lambda>_. False" CtxActive demo] demo_wait demo_reachable
  by (auto simp: demo_def demo_waiting_def settle_def intro: reachable.steps)

section \<open>Who has a worker\<close>

lemma distinct_counts: "(\<And>x. count (mset xs) x \<le> 1) \<Longrightarrow> distinct xs"
  by (metis One_nat_def count_mset_0_iff distinct_count_atmost_1 le_Suc_eq le_zero_eq)

lemma owners_distinct:
  assumes "owners_ok z"
  shows "distinct (buf (p_available (sys_pool z)) @ map Some (sys_held z) @ map (Some \<circ> fst) (p_parked (sys_pool z)))"
    (is "distinct ?l")
proof -
  have m: "mset ?l = owned z" by (simp add: owned_def comp_def)
  show ?thesis by (rule distinct_counts) (use assms m in \<open>simp only: owners_ok_def\<close>)
qed

text \<open>C1. In every reachable state each worker is in at most one place: once in the queue of available
  workers, or held by one request, or with one goroutine blocked on the queue. No two requests ever
  share a worker, the queue never holds one twice, never holds nil and never exceeds its capacity.\<close>

theorem one_owner:
  assumes "reachable z"
  shows "distinct (buf (p_available (sys_pool z)) @ map Some (sys_held z) @ map (Some \<circ> fst) (p_parked (sys_pool z))) \<and>
     None \<notin> set (buf (p_available (sys_pool z))) \<and>
     length (buf (p_available (sys_pool z))) \<le> cap (p_available (sys_pool z))"
proof -
  have own: "owners_ok z" using reachable_inv [OF assms] by (simp add: inv_core)
  then have "None \<notin># owned z" by (auto simp: owners_ok_def)
  with own owners_distinct [OF own] show ?thesis by (simp add: owners_ok_def owned_def)
qed

theorem one_owner_witness:
  "sys_held demo = [0] \<and> distinct (buf (p_available (sys_pool demo)) @ map Some [0] @ map (Some \<circ> fst) (p_parked (sys_pool demo)))"
  using one_owner [OF demo_reachable] by (simp add: demo_def)

text \<open>C2. A worker that a request is given comes out of the queue, was held by no other request, is marked
  busy, its process accepts signals, and it is not in the queue any more.\<close>

theorem handed_out_exclusively:
  assumes "reachable z" and "GetWorker takeDone ctx (sys_pool z) = ((Got a, counted), s')"
    and "int (length (sys_held z)) + int (length (sys_waiting z)) < 2147483646"
  shows "Some a \<in> set (buf (p_available (sys_pool z))) \<and> a \<notin> set (sys_held z) \<and>
     state_of s' a = WorkerStateBusy \<and> \<not> isProcessDead a s' \<and> Some a \<notin> set (buf (p_available s'))"
proof -
  from reachable_inv [OF assms(1)] have own: "owners_ok z" and cnt: "counts_ok z" by (auto simp: inv_core)
  have "length (filter (\<lambda>c. c) (sys_waiting z)) \<le> length (sys_waiting z)" by simp
  then have range: "- 2147483648 \<le> p_queuedRequests (sys_pool z)" "p_queuedRequests (sys_pool z) < 2147483647"
    using cnt assms(3) unfolding counts_ok_def by linarith+
  have g: "got (Some a) (queued_at (p_queuedRequests (sys_pool z)) (sys_pool z)) s'"
    using GetWorker_got [OF assms(2) range] by simp
  then have f: "flow {#Some a#} {#} (busy_at (wrap32 (p_busyWorkers (sys_pool z) + 1))
      (queued_at (p_queuedRequests (sys_pool z)) (sys_pool z))) s'"
    and s': "state_of s' a = WorkerStateBusy" "\<not> isProcessDead a s'" by (simp_all add: got_def)
  have q: "mset (buf (p_available s')) + {#Some a#} \<subseteq># mset (buf (p_available (sys_pool z)))"
    using flow_queue [OF f] by (simp add: queued_at_def busy_at_def)
  have one: "count (mset (buf (p_available (sys_pool z)))) (Some a) + count (mset (map Some (sys_held z))) (Some a) +
      count (mset (map (\<lambda>p. Some (fst p)) (p_parked (sys_pool z)))) (Some a) \<le> 1"
    using own unfolding owners_ok_def owned_def count_union by blast
  have "count (mset (buf (p_available s'))) (Some a) + 1 \<le> count (mset (buf (p_available (sys_pool z)))) (Some a)"
    using mset_subset_eq_count [OF q, of "Some a"] by simp
  with one have "count (mset (buf (p_available s'))) (Some a) = 0" "count (mset (map Some (sys_held z))) (Some a) = 0"
    "count (mset (buf (p_available (sys_pool z)))) (Some a) \<noteq> 0"
    by linarith+
  then have "Some a \<notin> set (buf (p_available s'))" "Some a \<notin> set (map Some (sys_held z))"
    "Some a \<in> set (buf (p_available (sys_pool z)))"
    unfolding count_mset_0_iff by blast+
  with s' show ?thesis by auto
qed

theorem handed_out_exclusively_witness:
  "Some 0 \<in> set (buf (p_available (sys_pool demo_idle))) \<and> 0 \<notin> set (sys_held demo_idle) \<and>
     state_of demo_busy 0 = WorkerStateBusy \<and> \<not> isProcessDead 0 demo_busy \<and> Some 0 \<notin> set (buf (p_available demo_busy))"
  by (rule handed_out_exclusively [OF demo_idle_reachable demo_idle_get]) (simp add: demo_idle_def demo_at_def)

section \<open>Slots and spawns\<close>

text \<open>C4. In every reachable state the slots hold workers with pairwise different ids, and an id that has
  been reserved for a new worker, whether its goroutine has started or its process is booting, is the
  id of no worker that exists and of no other reservation.\<close>

theorem ids_unique:
  assumes "reachable z"
  shows "distinct (map (\<lambda>a. w_ID (worker (sys_pool z) a)) (p_workers (sys_pool z))) \<and> distinct (new_ids z) \<and>
     (\<forall>i \<in> set (new_ids z). \<forall>a \<in> set (p_workers (sys_pool z)). w_ID (worker (sys_pool z) a) \<noteq> i)"
proof -
  have i: "slots_ok (sys_pool z)" "ids_ok z" using reachable_inv [OF assms] by (auto simp: inv_def)
  then have "distinct (map (\<lambda>a. w_ID (worker (sys_pool z) a)) (p_workers (sys_pool z)))" "distinct (new_ids z)"
    by (simp_all add: slots_ok_def slot_ids_def ids_ok_def)
  moreover have "w_ID (worker (sys_pool z) a) \<in> used_ids z" for a by (simp add: used_ids_def)
  then have "w_ID (worker (sys_pool z) a) \<noteq> i" if "i \<in> set (new_ids z)" for a i
    using i(2) that unfolding ids_ok_def by blast
  ultimately show ?thesis by blast
qed

theorem ids_unique_witness:
  "new_ids demo_spawning = [0] \<and> distinct (new_ids demo_spawning)"
  using ids_unique [OF demo_spawning_reachable]
  by (simp add: new_ids_def demo_spawning_def demo_at_def demo_entered_def demo_reserved_def)

text \<open>C5. In every reachable state no two spawns run for the same worker id, until the pool is stopped no
  more of them have a spawn slot than the spawn semaphore has places, and \<open>spawnInFlight\<close> counts exactly
  the spawns that have locked their id, with or without a slot.\<close>

theorem spawns_bounded:
  assumes "reachable z"
  shows "distinct (map fst (sys_spawning z)) \<and>
     distinct (sys_slotted z) \<and> set (sys_slotted z) \<subseteq> fst ` set (sys_spawning z) \<and>
     (\<not> p_ctxDone (sys_pool z) \<longrightarrow> length (sys_slotted z) \<le> cap (p_spawnSemaphore (sys_pool z))) \<and>
     p_spawnInFlight (sys_pool z) = wrap32 (int (length (sys_spawning z)))"
proof -
  have "spawns_ok z" using reachable_inv [OF assms] by (simp add: inv_def)
  then show ?thesis unfolding spawns_ok_def by metis
qed

theorem spawns_bounded_witness:
  "length (sys_slotted demo_spawning) = 1 \<and> 1 \<le> cap (p_spawnSemaphore (sys_pool demo_spawning)) \<and>
   p_spawnInFlight (sys_pool demo_spawning) = 1"
  using spawns_bounded [OF demo_spawning_reachable]
  by (simp add: demo_spawning_def demo_at_def demo_entered_def demo_reserved_def demo_fields)

section \<open>Counters and backpressure\<close>

text \<open>C6. In every reachable state \<open>busyWorkers\<close> is the number of requests that hold a worker, and
  \<open>queuedRequests\<close> is the number of waiting requests that admission has counted: every increment is
  paired with its decrement on every path.\<close>

theorem counters_exact:
  assumes "reachable z"
  shows "p_busyWorkers (sys_pool z) = int (length (sys_held z)) \<and>
     p_queuedRequests (sys_pool z) = int (length (filter (\<lambda>counted. counted) (sys_waiting z)))"
  using reachable_inv [OF assms] by (simp add: inv_def counts_ok_def)

theorem counters_exact_witness:
  "p_busyWorkers (sys_pool demo_waiting) = 1 \<and> p_queuedRequests (sys_pool demo_waiting) = 1"
  using counters_exact [OF demo_waiting_reachable] by (simp add: demo_waiting_def)


lemma runtime_tidy: "tidy s s' \<Longrightarrow> p_runtime s' = p_runtime s"
  by (simp add: tidy_def)

lemma runtime_tryGet: "tryGetWorker s = (None, s') \<Longrightarrow> p_runtime s' = p_runtime s"
proof (cases "try_recv (p_available s)")
  case (Some wc)
  then obtain w c where wc: "try_recv (p_available s) = Some (w, c)" by (cases wc) auto
  assume t: "tryGetWorker s = (None, s')"
  show ?thesis
  proof (cases w)
    case None
    with t wc show ?thesis by (auto simp: tryGetWorker_def)
  next
    case (Some a)
    obtain ok s1 where v: "validateAndPrepareWorker a (s\<lparr>p_available := c\<rparr>) = (ok, s1)" by fastforce
    with t wc Some have "\<not> ok" "s' = s1" by (auto simp: tryGetWorker_def split: bool.splits)
    with v runtime_tidy [OF validate_False [of a "s\<lparr>p_available := c\<rparr>" s1]] show ?thesis by simp
  qed
qed (simp add: tryGetWorker_def)

lemma runtime_before_admission: "p_runtime (before_admission s) = p_runtime s"
  unfolding before_admission_def
  using runtime_tidy [OF tidy_prune] tidyq_frame(2) [OF tidyq_compact [of s]] by simp

lemma full_queue_answers:
  assumes "reachable z" and "GetWorker takeDone ctx (sys_pool z) = ((r, counted), s')"
    and "int (length (sys_held z)) + int (length (sys_waiting z)) < 2147483646"
    and "GetBackpressureEnabled (p_runtime (sys_pool z))"
    and "GetBackpressureMaxQueue (p_runtime (sys_pool z)) = q" and "0 < q" "q < 2147483648"
    and "q \<le> int (length (filter (\<lambda>counted. counted) (sys_waiting z)))"
  shows "((\<exists>a. r = Got a) \<or>
      r = Refused (Msg (''service unavailable: queue full ('' @
        itoa (int (length (filter (\<lambda>counted. counted) (sys_waiting z)))) @ ''/'' @ itoa q @ '')''))) \<and>
     p_queuedRequests s' = p_queuedRequests (sys_pool z)"
proof -
  let ?n = "int (length (filter (\<lambda>counted. counted) (sys_waiting z)))"
  from reachable_inv [OF assms(1)] have n: "p_queuedRequests (sys_pool z) = ?n" by (simp add: inv_def counts_ok_def)
  obtain r0 s1 where t: "tryGetWorker (sys_pool z) = (r0, s1)" by fastforce
  show ?thesis
  proof (cases r0)
    case (Some a)
    with assms(2) t have "r = Got a" "s' = s1" by (auto simp: GetWorker_def)
    then show ?thesis using got_queued_eq [OF tryGet_got [OF t]] by simp
  next
    case None
    let ?s2 = "before_admission s1"
    have q2: "p_queuedRequests ?s2 = ?n"
      using got_queued_eq [OF tryGet_got [OF t]] flow_frame_simps(9) [OF flow_before_admission [of s1]] n by simp
    have "p_runtime ?s2 = p_runtime (sys_pool z)"
      using runtime_before_admission runtime_tryGet t None by simp
    then have "admit ?s2 = (Inl (Msg (''service unavailable: queue full ('' @ itoa ?n @ ''/'' @ itoa q @ '')'')), ?s2)"
      using assms(4-8) q2 by (simp add: admit_def Let_def)
    with assms(2) t None q2 n show ?thesis
      by (auto simp: GetWorker_def before_admission_def)
  qed
qed

text \<open>C7. Backpressure: with a positive limit below \<open>2 ^ 31\<close>, once as many counted requests wait as the limit
  allows, a further request never joins them: whatever it is answered is an available worker or the
  queue-full error that names the length and the limit, and the counter is as before. While no worker in
  a slot executes a request it is answered without a wait. But the answer is not immediate when workers
  are busy: the request first walks the slots to prune them, so that with an empty queue it waits, not
  counted and not refused, while any worker in a slot executes.\<close>

theorem backpressure_bounds_queue:
  assumes "reachable z"
    and "int (length (sys_held z)) + int (length (sys_waiting z)) < 2147483646"
    and "GetBackpressureEnabled (p_runtime (sys_pool z))"
    and "GetBackpressureMaxQueue (p_runtime (sys_pool z)) = q" and "0 < q" "q < 2147483648"
    and "q \<le> int (length (filter (\<lambda>counted. counted) (sys_waiting z)))"
  shows "(case GetWorker_locked executing takeDone ctx (sys_pool z) of
       Some ((r, counted), s') \<Rightarrow>
         ((\<exists>a. r = Got a) \<or>
          r = Refused (Msg (''service unavailable: queue full ('' @
            itoa (int (length (filter (\<lambda>counted. counted) (sys_waiting z)))) @ ''/'' @ itoa q @ '')''))) \<and>
         p_queuedRequests s' = p_queuedRequests (sys_pool z)
     | None \<Rightarrow> set (p_workers (sys_pool z)) \<inter> set executing \<noteq> {}) \<and>
     (buf (p_available (sys_pool z)) = [] \<and> set (p_workers (sys_pool z)) \<inter> set executing \<noteq> {} \<longrightarrow>
        GetWorker_locked executing takeDone ctx (sys_pool z) = None)"
proof (intro conjI impI)
  show "case GetWorker_locked executing takeDone ctx (sys_pool z) of
       Some ((r, counted), s') \<Rightarrow>
         ((\<exists>a. r = Got a) \<or>
          r = Refused (Msg (''service unavailable: queue full ('' @
            itoa (int (length (filter (\<lambda>counted. counted) (sys_waiting z)))) @ ''/'' @ itoa q @ '')''))) \<and>
         p_queuedRequests s' = p_queuedRequests (sys_pool z)
     | None \<Rightarrow> set (p_workers (sys_pool z)) \<inter> set executing \<noteq> {}"
    using full_queue_answers [OF assms(1) GetWorker_locked_Some assms(2-)]
      GetWorker_locked_free [of "sys_pool z" executing takeDone ctx]
    by (auto split: option.split)
qed (use GetWorker_locked_waits in blast)

theorem backpressure_bounds_queue_witness:
  "GetWorker_locked [0] (\<lambda>_. False) CtxActive (sys_pool demo_waiting) = None \<and>
   (case GetWorker_locked [] (\<lambda>_. False) CtxActive (sys_pool demo_waiting) of None \<Rightarrow> False
    | Some ((r, counted), s') \<Rightarrow> (\<exists>a. r = Got a) \<or>
        r = Refused (Msg (''service unavailable: queue full ('' @ itoa 1 @ ''/'' @ itoa 1 @ '')'')))"
  using backpressure_bounds_queue [OF demo_waiting_reachable, of 1 "[0]" "\<lambda>_. False" CtxActive]
    backpressure_bounds_queue [OF demo_waiting_reachable, of 1 "[]" "\<lambda>_. False" CtxActive]
  by (simp add: demo_waiting_def demo_busy_fields demo_fields GetBackpressureEnabled_def GetBackpressureMaxQueue_def
      split: option.splits prod.splits)

end
