(* ===== verification/Pool_Properties.thy ===== *)
theory Pool_Properties
  imports Runtime_Properties
begin

text \<open>
  Properties of the operations of the pool: the queue of available workers, slots, spawning, the
  circuit, respawning, scaling, and giving workers back. The witnesses use pools built from the run
  of Runtime_Properties.
\<close>

section \<open>The queue\<close>

text \<open>C15. Compaction of the queue is a filter: it counts every entry it drains and leaves, in their order,
  the first \<open>max_workers\<close> of the entries that are idle with a living process; those workers are the same
  as before.\<close>

theorem compact_filters_queue:
  assumes "buf (p_available s) = map Some q" and "distinct q" and "own_process s (set q)"
    and "length q \<le> cap (p_available s)" and "0 \<le> GetMaxWorkers (p_runtime s)"
  shows "let kept = take (nat (GetMaxWorkers (p_runtime s))) (filter (serviceable s) q);
             s' = snd (compactAvailableQueue s)
         in fst (compactAvailableQueue s) = int (length q) \<and> buf (p_available s') = map Some kept \<and>
            (\<forall>a \<in> set kept. worker s' a = worker s a \<and> serviceable s' a)"
proof -
  have mx: "0 \<le> rc_MaxWorkers (p_runtime s)" using assms(5) by (simp add: GetMaxWorkers_def)
  note c = compact_spec [OF assms(1-3) subset_refl assms(4) mx]
  let ?kept = "take (nat (rc_MaxWorkers (p_runtime s))) (filter (serviceable s) q)"
  have "a \<in> set q \<and> serviceable s a" if "a \<in> set ?kept" for a using in_set_takeD [OF that] by simp
  then have "\<forall>a \<in> set ?kept. worker (snd (compactAvailableQueue s)) a = worker s a \<and>
      serviceable (snd (compactAvailableQueue s)) a"
    using c(3) unfolding same_on_def by blast
  with c(1,2) show ?thesis by (simp add: Let_def GetMaxWorkers_def)
qed

text \<open>A queue of two workers: one idle with a living process, one dead.\<close>

definition two_workers :: pool where
  "two_workers = demo_start\<lparr>p_available := \<lparr>buf = [Some 0, Some 1], cap = 2\<rparr>, p_workers := [0, 1], p_nextAddr := 2,
     p_heap := (\<lambda>_. unallocated)(0 := demo_worker WorkerStateIdle,
        1 := (demo_worker WorkerStateDead)\<lparr>w_ID := 1, w_cmd := CmdProcess 8\<rparr>), p_os := demo_alive\<rparr>"

lemma two_workers_serviceable: "filter (serviceable two_workers) [0, 1] = [0]"
  by (simp add: serviceable_def two_workers_def demo_worker_def new_worker_def isProcessDead_def signal0_def demo_alive_def)

theorem compact_filters_queue_witness:
  "fst (compactAvailableQueue two_workers) = 2 \<and> buf (p_available (snd (compactAvailableQueue two_workers))) = [Some 0]"
  using compact_filters_queue [of two_workers "[0, 1]"] two_workers_serviceable
  by (simp add: two_workers_def own_process_def demo_worker_def new_worker_def demo_fields GetMaxWorkers_def Let_def)

text \<open>C34. Raising \<open>max_workers\<close> at run time above the capacity the queue was made with makes the release
  of a worker block: once the queue is full of serviceable workers, a further one is neither queued nor
  destroyed, and its goroutine waits for a place.\<close>

theorem raised_maximum_blocks_release:
  assumes "releasable s a" and "buf (p_available s) = map Some q" and "distinct q"
    and "length q = cap (p_available s)" and "q \<noteq> []" and "a \<notin> set q"
    and "own_process s (set q)" and "\<forall>b \<in> set q. serviceable s b"
    and "int (cap (p_available s)) < GetMaxWorkers (p_runtime s)" and "\<not> p_ctxDone s"
  shows "fst (releaseWorkerToAvailable (Some a) s) = Blocked \<and>
     buf (p_available (snd (releaseWorkerToAvailable (Some a) s))) = map Some q"
  using release_blocks [OF assms(1-7) subset_refl assms(8)] assms(9,10) by (simp add: GetMaxWorkers_def)

text \<open>One place, taken by worker 0; the maximum has been raised to two while worker 1 was busy.\<close>

definition raised_pool :: pool where
  "raised_pool = demo_start\<lparr>p_available := \<lparr>buf = [Some 0], cap = 1\<rparr>, p_workers := [0, 1], p_nextAddr := 2,
     p_runtime := (p_runtime demo_start)\<lparr>rc_MaxWorkers := 2\<rparr>,
     p_heap := (\<lambda>_. unallocated)(0 := demo_worker WorkerStateIdle,
        1 := (demo_worker WorkerStateBusy)\<lparr>w_ID := 1, w_cmd := NilCmd\<rparr>), p_os := demo_alive\<rparr>"

theorem raised_maximum_blocks_release_witness:
  "fst (releaseWorkerToAvailable (Some 1) raised_pool) = Blocked"
  using raised_maximum_blocks_release [of raised_pool 1 "[0]"]
  by (simp add: raised_pool_def releasable_def serviceable_def own_process_def demo_worker_def new_worker_def
      isProcessDead_def signal0_def demo_alive_def demo_fields GetMaxWorkers_def)

section \<open>Processes and slots\<close>

text \<open>C22. \<open>terminateWorker\<close> leaves no process behind: unless the process ignores both signals it is gone,
  and the connection and the listener are closed in any case. An exit that is already buffered in
  \<open>exitCh\<close> would end the wait early, hence the hypothesis on the channel.\<close>

theorem terminate_kills_and_closes:
  assumes "w_cmd (worker s a) = CmdProcess pid" and "buf (w_exitCh (worker s a)) = []"
    and "os_obeysTerm (p_os s) pid \<or> os_obeysKill (p_os s) pid"
  shows "\<not> os_alive (p_os (terminateWorker a s)) pid \<and>
     w_conn (worker (terminateWorker a s) a) \<noteq> OpenHandle \<and> w_listener (worker (terminateWorker a s) a) \<noteq> OpenHandle"
proof -
  have "close_handle h \<noteq> OpenHandle" for h by (cases h) simp_all
  then show ?thesis using terminateWorker_kills [OF assms] by (simp add: terminateWorker_closed)
qed

theorem terminate_kills_and_closes_witness:
  "os_alive (p_os demo_busy) 7 \<and> \<not> os_alive (p_os (terminateWorker 0 demo_busy)) 7"
  using terminate_kills_and_closes [of demo_busy 0 7]
  by (simp add: demo_busy_fields demo_worker_def new_worker_def demo_busy_def demo_spawned_def demo_alive_def demo_os_def
      make_chan_def)

text \<open>C35. Eviction goes by id: evicting an old struct whose id another worker has taken over removes that
  worker's slot, while the process that is terminated is the old one's; the new worker is then in no
  slot although nothing was wrong with it.\<close>

theorem eviction_by_id_hits_replacement:
  assumes "distinct (map (\<lambda>x. w_ID (worker s x)) (p_workers s))" and "b \<in> set (p_workers s)"
    and "w_ID (worker s a) = w_ID (worker s b)" and "a \<notin> set (p_workers s)"
  shows "p_workers (forceEvictWorker a s) = filter (\<lambda>x. x \<noteq> b) (p_workers s) \<and>
     worker (forceEvictWorker a s) b = worker s b"
proof
  let ?P = "\<lambda>x. w_ID (worker s x) = w_ID (worker s a)"
  have "x = b" if "x \<in> set (p_workers s)" "?P x" for x
    using assms(1,2) that assms(3) by (auto simp: distinct_map dest: inj_onD)
  then have "filter (\<lambda>x. \<not> ?P x) (p_workers s) = filter (\<lambda>x. x \<noteq> b) (p_workers s)"
    using assms(3) by (intro filter_cong) auto
  with remove_first_unique [OF assms(1), of "w_ID (worker s a)"]
  have "remove_first ?P (p_workers s) = filter (\<lambda>x. x \<noteq> b) (p_workers s)" by simp
  moreover have "\<exists>x \<in> set (p_workers s). ?P x" using assms(2,3) by force
  ultimately show "p_workers (forceEvictWorker a s) = filter (\<lambda>x. x \<noteq> b) (p_workers s)"
    by (simp add: forceEvictWorker_def removeWorkerFromSliceIfPresent_def Let_def)
  show "worker (forceEvictWorker a s) b = worker s b"
    using local_evict [of a s] assms(2,4) by (auto simp: local_op_def)
qed

text \<open>Worker 0 holds the slot of id 0; struct 1 is the one it has replaced.\<close>

definition replaced_pool :: pool where
  "replaced_pool = demo_busy\<lparr>p_heap := (\<lambda>_. unallocated)(0 := demo_worker WorkerStateBusy,
     1 := (demo_worker WorkerStateRespawning)\<lparr>w_cmd := CmdProcess 6\<rparr>), p_nextAddr := 2\<rparr>"

theorem eviction_by_id_hits_replacement_witness:
  "p_workers replaced_pool = [0] \<and> p_workers (forceEvictWorker 1 replaced_pool) = [] \<and>
   state_of (forceEvictWorker 1 replaced_pool) 0 = WorkerStateBusy"
  using eviction_by_id_hits_replacement [of replaced_pool 0 1]
  by (simp add: replaced_pool_def demo_busy_fields demo_worker_def new_worker_def)

section \<open>The circuit\<close>

definition at_time :: "int \<Rightarrow> pool \<Rightarrow> pool" where
  "at_time t s = s\<lparr>p_os := (p_os s)\<lparr>os_now := t\<rparr>\<rparr>"

text \<open>C21. The spawn circuit: after \<open>n\<close> failures in a row from a closed circuit, looked at at any later instant
  \<open>t\<close>, it is open exactly when \<open>n\<close> is at least eight and \<open>t\<close> is less than 30 seconds (in nanoseconds) after
  the failures; all that time \<open>addWorker\<close> starts nothing, and the first look at it after the 30 seconds
  closes it and clears the count.\<close>

theorem circuit_opens_and_closes:
  assumes "p_consecutiveSpawnFailures s = 0" and "p_spawnCircuitOpenUntil s = None" and "n < 2147483648"
  shows "let s' = at_time t ((noteSpawnFailure ^^ n) s) in
     (fst (spawnCircuitOpen s') \<longleftrightarrow> 8 \<le> n \<and> t < now s + 30000000000) \<and>
     (8 \<le> n \<and> t < now s + 30000000000 \<longrightarrow> addWorker s' = Some s') \<and>
     (8 \<le> n \<and> now s + 30000000000 < t \<longrightarrow>
        spawnCircuitOpen s' = (False, s'\<lparr>p_spawnCircuitOpenUntil := None, p_consecutiveSpawnFailures := 0\<rparr>))"
proof -
  let ?s = "at_time t ((noteSpawnFailure ^^ n) s)"
  have u: "p_spawnCircuitOpenUntil ?s = (if n < 8 then None else Some (now s + 30000000000))" "now ?s = t"
    using failures_open [OF assms] by (simp_all add: at_time_def spawnCircuitOpenDuration_def Second_def now_def)
  then have o: "fst (spawnCircuitOpen ?s) \<longleftrightarrow> 8 \<le> n \<and> t < now s + 30000000000"
    by (simp add: spawnCircuitOpen_def)
  moreover have "spawnCircuitOpen ?s = (True, ?s)" if "8 \<le> n \<and> t < now s + 30000000000"
    using u that by (simp add: spawnCircuitOpen_def)
  then have "8 \<le> n \<and> t < now s + 30000000000 \<longrightarrow> addWorker ?s = Some ?s" by (simp add: addWorker_def)
  moreover have "8 \<le> n \<and> now s + 30000000000 < t \<longrightarrow>
      spawnCircuitOpen ?s = (False, ?s\<lparr>p_spawnCircuitOpenUntil := None, p_consecutiveSpawnFailures := 0\<rparr>)"
    using u by (simp add: spawnCircuitOpen_def)
  ultimately show ?thesis by (simp add: Let_def)
qed

theorem circuit_opens_and_closes_witness:
  "fst (spawnCircuitOpen (at_time 29999999999 ((noteSpawnFailure ^^ 8) demo_start))) \<and>
   \<not> fst (spawnCircuitOpen (at_time 30000000000 ((noteSpawnFailure ^^ 8) demo_start)))"
  using circuit_opens_and_closes [of demo_start 8 29999999999] circuit_opens_and_closes [of demo_start 8 30000000000]
  by (simp add: demo_fields Let_def now_def demo_os_def)

section \<open>Respawning\<close>

text \<open>Scheduling a respawn twice is scheduling it once: the second call changes nothing, so a worker has
  at most one respawn under way from it.\<close>

lemma respawn_scheduled_once: "scheduleRespawn a (scheduleRespawn a s) = scheduleRespawn a s"
proof (cases "respawn_accepted a s")
  case True
  then have "\<not> respawn_accepted a (scheduleRespawn a s)"
    by (simp add: respawn_accepted_def scheduleRespawn_heap)
  then show ?thesis by (rule scheduleRespawn_declined)
qed (simp add: scheduleRespawn_declined)

text \<open>C32. A worker that is to be recycled, because its response asks for it or because it has served
  \<open>max_requests\<close> requests, is never replaced by its release: \<open>ReleaseWorker\<close> marks it as respawning before
  it calls \<open>scheduleRespawn\<close>, which therefore declines. The worker stays in its slot, is not queued, no
  goroutine is started, and its state is respawning with no start of a respawn noted.\<close>

theorem recycled_worker_stranded:
  assumes "state_of s a \<noteq> WorkerStateDead"
    and "(\<exists>r. resp = Some r \<and> rm_Recycle (resp_Meta r)) \<or>
      (0 < ps_maxRequests (p_settings s) \<and> ps_maxRequests (p_settings s) \<le> wrap64 (w_requestCount (worker s a) + 1))"
  shows "p_tasks (ReleaseWorker a resp s) = p_tasks s \<and> p_available (ReleaseWorker a resp s) = p_available s \<and>
     p_workers (ReleaseWorker a resp s) = p_workers s \<and>
     state_of (ReleaseWorker a resp s) a = WorkerStateRespawning \<and>
     w_respawnStartedAt (worker (ReleaseWorker a resp s) a) = w_respawnStartedAt (worker s a)"
proof -
  let ?s2 = "upd_worker a (\<lambda>w. w\<lparr>w_requestCount := wrap64 (w_requestCount w + 1)\<rparr>)
     (s\<lparr>p_busyWorkers := busy_after_release s\<rparr>)"
  have "\<not> respawn_accepted a (set_state WorkerStateRespawning a ?s2)" by (simp add: respawn_accepted_def)
  then have "scheduleRespawn a (set_state WorkerStateRespawning a ?s2) = set_state WorkerStateRespawning a ?s2"
    by (rule scheduleRespawn_declined)
  moreover have "recycles (case resp of Some r \<Rightarrow> rm_Recycle (resp_Meta r) | None \<Rightarrow> False) a ?s2"
    using assms(2) by (auto simp: recycles_def)
  then have "ReleaseWorker a resp s = scheduleRespawn a (set_state WorkerStateRespawning a ?s2)"
    using assms(1) by (simp add: ReleaseWorker_def busy_after_release_def Let_def)
  ultimately show ?thesis by simp
qed

text \<open>The worker of the run has served one request of at most one.\<close>

theorem recycled_worker_stranded_witness:
  "state_of (ReleaseWorker 0 None (demo_busy\<lparr>p_settings := (p_settings demo_busy)\<lparr>ps_maxRequests := 1\<rparr>\<rparr>)) 0 =
     WorkerStateRespawning"
  using recycled_worker_stranded [of "demo_busy\<lparr>p_settings := (p_settings demo_busy)\<lparr>ps_maxRequests := 1\<rparr>\<rparr>" 0 None]
  by (simp add: demo_busy_fields demo_worker_def new_worker_def)

section \<open>Adding workers\<close>

lemma counts_circuit [simp]:
  "livingWorkerCount (snd (spawnCircuitOpen s)) = livingWorkerCount s"
  "countOccupyingSlots (snd (spawnCircuitOpen s)) = countOccupyingSlots s"
  "countReadyWorkers (snd (spawnCircuitOpen s)) = countReadyWorkers s"
  by (simp_all add: livingWorkerCount_def countOccupyingSlots_def count_defs count_if_def)

lemma in_range_circuit [simp]: "in_range (snd (spawnCircuitOpen s)) = in_range s"
  by (simp add: in_range_def)

text \<open>C16. \<open>addWorker\<close> always returns when the maximum fits into 32 bits, and it starts a spawn, with the next
  worker id, exactly when the circuit is closed, fewer workers live than the maximum, and a slot can
  be reserved; the reservation never leaves \<open>activeWorkers\<close> above the maximum.\<close>

theorem add_worker_outcome:
  assumes "in_range s" and "0 \<le> GetMaxWorkers (p_runtime s)" "GetMaxWorkers (p_runtime s) < 2147483648"
    and "0 \<le> p_nextWorkerID s" "p_nextWorkerID s < 2147483647"
  shows "\<exists>s'. addWorker s = Some s' \<and>
     (if \<not> fst (spawnCircuitOpen s) \<and> livingWorkerCount s < GetMaxWorkers (p_runtime s) \<and>
         (p_activeWorkers s < GetMaxWorkers (p_runtime s) \<or> countOccupyingSlots s < GetMaxWorkers (p_runtime s))
      then p_tasks s' = p_tasks s @ [GoSpawnWorker (p_nextWorkerID s)] \<and> p_nextWorkerID s' = p_nextWorkerID s + 1 \<and>
           p_activeWorkers s' \<le> GetMaxWorkers (p_runtime s)
      else p_tasks s' = p_tasks s \<and> p_nextWorkerID s' = p_nextWorkerID s \<and> p_activeWorkers s' = p_activeWorkers s)"
proof -
  obtain opened s1 where c: "spawnCircuitOpen s = (opened, s1)" by fastforce
  let ?max = "GetMaxWorkers (p_runtime s)"
  have s1: "p_runtime s1 = p_runtime s" "p_tasks s1 = p_tasks s" "p_nextWorkerID s1 = p_nextWorkerID s"
    "p_activeWorkers s1 = p_activeWorkers s" "livingWorkerCount s1 = livingWorkerCount s"
    "countOccupyingSlots s1 = countOccupyingSlots s" "in_range s1"
    using circuit_workers [of s] counts_circuit [of s] in_range_circuit [of s] c assms(1) by simp_all
  have res: "reserve_slot s1 =
     (if p_activeWorkers s < ?max then Some (True, add_active 1 s1)
      else if countOccupyingSlots s < ?max then Some (True, add_active 1 (syncActiveWorkersCount s1)) else Some (False, s1))"
    using reserve_slot_total [of s1] s1 assms(2,3) by simp
  have started: "map_option (\<lambda>(reserved, s2).
      if reserved then (case nextWorkerID s2 of (i, s3) \<Rightarrow> go (GoSpawnWorker i) s3) else s2) (Some (True, add_active 1 r)) =
      Some ((add_active 1 r)\<lparr>p_nextWorkerID := p_nextWorkerID s + 1, p_tasks := p_tasks s @ [GoSpawnWorker (p_nextWorkerID s)]\<rparr>)"
    if "p_nextWorkerID r = p_nextWorkerID s" "p_tasks r = p_tasks s" for r
    using that assms(4,5) by (simp add: nextWorkerID_def Let_def go_def)
  have sync: "p_activeWorkers (syncActiveWorkersCount s1) < ?max" if "countOccupyingSlots s < ?max"
    using sync_active_bounds(2) [of s1] occupying_living [of s1] s1 that by (simp add: in_range_def)
  have sync0: "0 \<le> p_activeWorkers (syncActiveWorkersCount s1)"
    using sync_active_bounds(1) [of s1] s1 by (simp add: in_range_def)
  have sync_tasks: "p_tasks (syncActiveWorkersCount s1) = p_tasks s" "p_nextWorkerID (syncActiveWorkersCount s1) = p_nextWorkerID s"
    using s1 by (simp_all add: syncActiveWorkersCount_def)
  have a0: "0 \<le> p_activeWorkers s1" using s1(7) by (simp add: in_range_def)
  consider "opened \<or> ?max \<le> livingWorkerCount s" | "\<not> opened" "livingWorkerCount s < ?max" by linarith
  then show ?thesis
  proof cases
    case 1
    with c s1 have "addWorker s = Some s1" by (auto simp: addWorker_def split: bool.split)
    with 1 c s1 show ?thesis by auto
  next
    case 2
    with c s1 have a: "addWorker s = map_option (\<lambda>(reserved, s2).
        if reserved then (case nextWorkerID s2 of (i, s3) \<Rightarrow> go (GoSpawnWorker i) s3) else s2) (reserve_slot s1)"
      by (simp add: addWorker_def)
    show ?thesis
      using a res started [of s1] started [of "syncActiveWorkersCount s1"] s1 2 c sync sync0 sync_tasks a0 assms(3)
      by (cases "p_activeWorkers s < ?max"; cases "countOccupyingSlots s < ?max") simp_all
  qed
qed

theorem add_worker_outcome_witness:
  "\<exists>s'. addWorker demo_start = Some s' \<and> p_tasks s' = [GoSpawnWorker 0] \<and> p_nextWorkerID s' = 1"
  using add_worker_outcome [of demo_start]
  by (simp add: demo_fields GetMaxWorkers_def in_range_def spawnCircuitOpen_def livingWorkerCount_def
      countLivingWorkersLocked_def count_if_def) blast

text \<open>C33. With \<open>max_workers\<close> from \<open>2 ^ 31\<close> to \<open>2 ^ 32 - 1\<close>, which the configuration accepts, the 32-bit
  comparison in \<open>addWorker\<close> is with a negative number: as long as slots are free it never returns.\<close>

theorem add_worker_never_returns:
  assumes "in_range s" and "2147483648 \<le> GetMaxWorkers (p_runtime s)" "GetMaxWorkers (p_runtime s) < 4294967296"
    and "\<not> fst (spawnCircuitOpen s)" and "countOccupyingSlots s < GetMaxWorkers (p_runtime s)"
  shows "addWorker s = None"
proof -
  obtain s1 where c: "spawnCircuitOpen s = (False, s1)" using assms(4) by (metis prod.collapse)
  have s1: "p_runtime s1 = p_runtime s" "livingWorkerCount s1 = livingWorkerCount s"
    "countOccupyingSlots s1 = countOccupyingSlots s" "in_range s1"
    using circuit_workers [of s] counts_circuit [of s] in_range_circuit [of s] c assms(1) by simp_all
  have "wrap32 m < 0" if "2147483648 \<le> m" "m < 4294967296" for m :: int
  proof -
    have "(m + 2147483648) mod 4294967296 = (m - 2147483648 + 4294967296) mod 4294967296" by (simp add: add.commute)
    also have "\<dots> = m - 2147483648" using that by (subst mod_add_self2) (simp add: mod_pos_pos_trivial)
    finally show ?thesis using that by (simp add: wrap32_def)
  qed
  then have "wrap32 (GetMaxWorkers (p_runtime s1)) < 0" using assms(2,3) s1(1) by simp
  then have "spins s1" using s1 assms(5) by (simp add: spins_def)
  moreover have "livingWorkerCount s1 < GetMaxWorkers (p_runtime s1)"
    using occupying_living [of s1] s1 assms(5) by (simp add: in_range_def)
  ultimately show ?thesis using c by (simp add: addWorker_def reserve_slot_spins)
qed

theorem add_worker_never_returns_witness:
  "addWorker (demo_start\<lparr>p_runtime := \<lparr>rc_MinWorkers = 1, rc_MaxWorkers = 2147483648, rc_BackpressureEnabled = True,
     rc_BackpressureMaxQueue = 1, rc_KeepWarm = False\<rparr>\<rparr>) = None"
  by (rule add_worker_never_returns)
     (simp_all add: demo_fields GetMaxWorkers_def in_range_def spawnCircuitOpen_def countOccupyingSlots_def count_if_def)


text \<open>C17. \<open>ensureMinWorkers\<close> starts as many goroutines as are missing to the minimum, counting spawns in
  flight, but never so many that living workers, spawns in flight and new ones exceed the maximum; with
  the circuit open or within the debounce time it starts none.\<close>

theorem ensure_min_starts_missing:
  "let s2 = snd (pruneDeadWorkers (snd (spawnCircuitOpen s)));
       debounced = (p_ensureMinLast s2 \<noteq> None \<and> since s2 (p_ensureMinLast s2) < ps_ensureMinDebounce (p_settings s2));
       n = (if fst (spawnCircuitOpen s) \<or> debounced then 0 else nat (min_need s2))
   in p_tasks (ensureMinWorkers s) = p_tasks s @ replicate n GoAddWorker \<and>
      (n = 0 \<or> livingWorkerCount s2 + p_spawnInFlight s2 + int n \<le> GetMaxWorkers (p_runtime s2))"
proof -
  obtain opened s1 where c: "spawnCircuitOpen s = (opened, s1)" by fastforce
  let ?s2 = "snd (pruneDeadWorkers s1)"
  have t: "p_tasks s1 = p_tasks s" using circuit_workers(5) [of s] c by simp
  have t2: "p_tasks ?s2 = p_tasks s1"
    by (simp add: pruneDeadWorkers_def pruneDeadWorkersLocked_filter syncActiveWorkersCount_def)
  have n: "n = 0 \<or> livingWorkerCount ?s2 + p_spawnInFlight ?s2 + int n \<le> GetMaxWorkers (p_runtime ?s2)"
    if "n = nat (min_need ?s2)" for n
    using that by (auto simp: min_need_def)
  show ?thesis
  proof (cases opened)
    case True
    with c t show ?thesis by (simp add: ensureMinWorkers_def Let_def)
  next
    case False
    with c have "spawnCircuitOpen s = (False, s1)" by simp
    from ensureMinWorkers_eq [OF this] c t t2 False n show ?thesis by (auto simp: Let_def)
  qed
qed

section \<open>Spawning\<close>

text \<open>C23. Binding the socket: if attempt \<open>k\<close> is the first that does not find the address in use, it decides
  the result and exactly \<open>k\<close> bind errors are counted; if all ten find it in use, \<open>listenUnix\<close> gives up
  with the last error, and eleven bind errors have been counted for ten attempts.\<close>

theorem listen_attempts:
  assumes "k \<le> unixBindRetries" and "\<forall>i < k. in_use (env i)" and "k < unixBindRetries \<longrightarrow> \<not> in_use (env k)"
    and "0 \<le> p_spawnBindErrorsTotal s" "p_spawnBindErrorsTotal s < 9223372036854775797"
  shows "fst (listenUnix env s) =
      (if k = unixBindRetries then Some (listen_error_value (the (la_listen (env (k - 1)))))
       else case la_listen (env k) of None \<Rightarrow> la_chmod (env k) | Some e \<Rightarrow> Some (listen_error_value e)) \<and>
     p_spawnBindErrorsTotal (snd (listenUnix env s)) =
      p_spawnBindErrorsTotal s + (if k = unixBindRetries then 11 else int k)"
proof (cases "k = unixBindRetries")
  case True
  with listenUnix_all_used [of env s] assms(2) bind_errors_pow [of s 11] assms(4,5) show ?thesis
    by (simp add: unixBindRetries_def)
next
  case False
  with assms(1) have "k < unixBindRetries" by simp
  with listenUnix_first_free [of k env s] assms bind_errors_pow [of s k] False show ?thesis
    by (simp add: unixBindRetries_def)
qed

theorem listen_attempts_witness:
  "p_spawnBindErrorsTotal (snd (listenUnix (\<lambda>_. \<lparr>la_listen = Some (ListenError (Some 98) (Msg ''in use'')), la_chmod = None\<rparr>)
     (demo_start\<lparr>p_spawnBindErrorsTotal := 0\<rparr>))) = 11"
  using listen_attempts [of 10 "\<lambda>_. \<lparr>la_listen = Some (ListenError (Some 98) (Msg ''in use'')), la_chmod = None\<rparr>"
      "demo_start\<lparr>p_spawnBindErrorsTotal := 0\<rparr>"]
  by (simp add: unixBindRetries_def in_use_def EADDRINUSE_def)

text \<open>C18. A spawn succeeds only if the socket directory could be made, the process was started and the peer
  answered the handshake; the new worker is then a new struct with the id that was asked for, for the
  started process, idle and connected. A spawn that fails leaves no process of its own running: one that
  it started does not run any more, unless it ignores SIGKILL.\<close>

theorem spawn_outcome:
  assumes "spawnWorker i env s = (r, s')"
  shows "case r of
     Inr a \<Rightarrow> se_mkdir env = None \<and> fst (listenUnix (se_listen env) s) = None \<and>
       (\<exists>pid. se_start env = Inr pid \<and> w_cmd (worker s' a) = CmdProcess pid) \<and>
       a = p_nextAddr s \<and> w_ID (worker s' a) = i \<and>
       state_of s' a = WorkerStateIdle \<and> w_conn (worker s' a) = OpenHandle \<and>
       (\<exists>rd e. se_event env = Connected rd None e \<and> take 2 (rd_data rd) = bytes_of HandshakeOK)
   | Inl e \<Rightarrow> \<forall>pid. se_start env = Inr pid \<longrightarrow> \<not> os_alive (p_os s) pid \<longrightarrow> os_obeysKill (p_os s) pid \<longrightarrow>
       \<not> os_alive (p_os s') pid"
proof (cases r)
  case (Inl e)
  with assms spawnWorker_error [of i env s e s'] show ?thesis by simp
next
  case (Inr a)
  with assms(1) have sp: "spawnWorker i env s = (Inr a, s')" by simp
  note ok = spawnWorker_ok [OF this]
  have "se_mkdir env = None \<and> fst (listenUnix (se_listen env) s) = None"
    using sp by (auto simp: spawnWorker_def split: option.splits prod.splits)
  with ok(1-4,6,7) Inr show ?thesis by auto
qed

theorem spawn_outcome_witness:
  "fst (spawnWorker 0 demo_spawn demo_entered) = Inr 0 \<and>
   w_conn (worker (snd (spawnWorker 0 demo_spawn demo_entered)) 0) = OpenHandle"
  using spawn_outcome [OF demo_spawnWorker] demo_spawnWorker by simp

end
