(* ===== verification/Transport_Properties.thy ===== *)
theory Transport_Properties
  imports Server
begin

text \<open>
  Properties of the transport: framing over writers that may write short and readers that may end
  early, the buffers and request structs that are reused, the handshake, and the way an HTTP request
  becomes a request of the pool. \<open>one_byte_writer\<close> is the writer of the examples: a connection that
  accepts a single byte per call.
\<close>

definition one_byte_writer :: "byte list writer" where
  "one_byte_writer data w = ((if data = [] then 0 else 1, None), w @ take 1 data)"

lemma one_byte_writer_ok: "writer_ok one_byte_writer (\<lambda>w. w)" "writer_progress one_byte_writer"
  by (auto simp: writer_ok_def writer_progress_def one_byte_writer_def Suc_le_eq)

lemma one_byte_frame:
  assumes "length payload \<le> MaxPayloadSize"
  shows "WriteFrame one_byte_writer payload [] =
     (WriteOk, put_uint32 (of_nat (length payload)) @ payload)"
proof -
  have "fst (WriteFrame one_byte_writer payload []) = WriteOk"
    by (rule WriteFrame_completes [OF one_byte_writer_ok assms])
  then obtain w' where w: "WriteFrame one_byte_writer payload [] = (WriteOk, w')"
    by (metis prod.collapse)
  from WriteFrame_out(1) [OF one_byte_writer_ok(1) w] w show ?thesis by simp
qed

section \<open>Framing\<close>

text \<open>C10. Frame round trip: what one side writes as a frame, through any writer that keeps the
  contract of \<open>io.Writer\<close> however short its writes are, is what \<open>ReadFrame\<close> returns on the other side,
  leaving exactly the bytes that follow; and the buffer taken from the pool is accounted for.\<close>

theorem frame_roundtrip:
  assumes "writer_ok wr out" and "WriteFrame wr payload w = (WriteOk, w')" and "payload \<noteq> []"
    and "out w' @ rest = out w @ rd_data r"
  shows "\<exists>rel pool. ReadFrame r bufferPool = (Inr (payload, rel), r\<lparr>rd_data := rest\<rparr>, pool) \<and>
           run_release rel pool = pool_after_get bufferPool"
proof (rule ReadFrame_frame)
  show "rd_data r = put_uint32 (of_nat (length payload)) @ payload @ rest"
    using WriteFrame_out(1) [OF assms(1,2)] assms(4) by simp
  show "length payload \<le> MaxPayloadSize" by (rule WriteFrame_out(2) [OF assms(1,2)])
qed (rule assms(3))

theorem frame_roundtrip_witness:
  "\<exists>rel pool. ReadFrame \<lparr>rd_data = put_uint32 2 @ [7, 8, 9], rd_end = EOF\<rparr> [] =
     (Inr ([7, 8], rel), \<lparr>rd_data = [9], rd_end = EOF\<rparr>, pool) \<and> run_release rel pool = [65536]"
  using frame_roundtrip [OF one_byte_writer_ok(1) one_byte_frame [of "[7, 8]"], of "[9]"
      "\<lparr>rd_data = put_uint32 2 @ [7, 8, 9], rd_end = EOF\<rparr>" "[]"]
  by (simp add: MaxPayloadSize_def pool_after_get_def get_buffer_def defaultBufferSize_def)

text \<open>C11. \<open>ReadFrame\<close> accepts a payload exactly when the stream starts with a well-formed frame: a
  big-endian length that is neither zero nor above \<open>MaxPayloadSize\<close>, followed by that many bytes.\<close>

theorem read_frame_accepts_iff:
  "(\<exists>rel r' pool. ReadFrame r bufferPool = (Inr (payload, rel), r', pool)) \<longleftrightarrow>
     (\<exists>rest. rd_data r = put_uint32 (of_nat (length payload)) @ payload @ rest) \<and>
     0 < length payload \<and> length payload \<le> MaxPayloadSize"
proof
  assume "\<exists>rel r' pool. ReadFrame r bufferPool = (Inr (payload, rel), r', pool)"
  with ReadFrame_payload(1-3) show "(\<exists>rest. rd_data r = put_uint32 (of_nat (length payload)) @ payload @ rest) \<and>
     0 < length payload \<and> length payload \<le> MaxPayloadSize" by blast
next
  assume "(\<exists>rest. rd_data r = put_uint32 (of_nat (length payload)) @ payload @ rest) \<and>
     0 < length payload \<and> length payload \<le> MaxPayloadSize"
  with ReadFrame_frame [of r payload _ bufferPool]
  show "\<exists>rel r' pool. ReadFrame r bufferPool = (Inr (payload, rel), r', pool)" by blast
qed

text \<open>C12. \<open>writeFull\<close> over any writer that keeps its contract never panics, has written a prefix of the
  data when it returns, the whole of it when it reports success, and it does report success when
  the writer makes progress without an error.\<close>

theorem write_full_delivers:
  assumes "writer_ok wr out"
  shows "fst (writeFull wr data w) \<noteq> WritePanic \<and>
     (\<exists>k \<le> length data. out (snd (writeFull wr data w)) = out w @ take k data \<and>
        (fst (writeFull wr data w) = WriteOk \<longrightarrow> k = length data)) \<and>
     (writer_progress wr \<longrightarrow> fst (writeFull wr data w) = WriteOk)"
  using writeFull_out [OF assms, of data w "fst (writeFull wr data w)" "snd (writeFull wr data w)"]
    writeFull_completes [OF assms] by auto

theorem write_full_delivers_witness:
  "fst (writeFull one_byte_writer [1, 2, 3] []) = WriteOk \<and> snd (writeFull one_byte_writer [1, 2, 3] []) = [1, 2, 3]"
  using write_full_delivers [OF one_byte_writer_ok(1), of "[1, 2, 3]" "[]"] one_byte_writer_ok(2) by auto

text \<open>No read buffer is lost and none is returned twice: whatever \<open>ReadFrame\<close> returns, after the
  release function has run the buffer pool is what it was, with at most the one buffer made that an
  empty pool lacks.\<close>

lemma read_frame_buffers:
  "case ReadFrame r bufferPool of
     (Inl e, r', pool) \<Rightarrow> pool = bufferPool \<or> pool = pool_after_get bufferPool
   | (Inr (payload, rel), r', pool) \<Rightarrow> run_release rel pool = pool_after_get bufferPool"
proof (cases "ReadFrame r bufferPool")
  case (fields res r' pool)
  show ?thesis
  proof (cases res)
    case (Inl e)
    with fields ReadFrame_pool show ?thesis by auto
  next
    case (Inr pr)
    with fields ReadFrame_payload(4) show ?thesis by (cases pr) auto
  qed
qed

text \<open>C13. Message round trip: through any writer that keeps the contract of \<open>io.Writer\<close> and makes progress,
  \<open>SendRequest\<close> sends every request whose encoding fits a frame, and what has been sent, followed by
  anything, is read back by \<open>ReceiveRequest\<close> as the same request, for any codec that decodes what it
  encodes; the rest of the stream is untouched.\<close>

theorem request_roundtrip:
  assumes "writer_ok wr out" and "writer_progress wr" and "encode req = (payload, None)"
    and "decode payload = Inr req" and "payload \<noteq> []" and "length payload \<le> MaxPayloadSize"
  shows "\<exists>w' caps' sent. SendRequest encode grow wr req w caps = (WriteOk, w', caps') \<and> out w' = out w @ sent \<and>
     ReceiveRequest decode \<lparr>rd_data = sent @ rest, rd_end = e\<rparr> bufferPool =
       (Inr req, \<lparr>rd_data = rest, rd_end = e\<rparr>, pool_after_get bufferPool)"
proof -
  let ?sent = "put_uint32 (of_nat (length payload)) @ payload"
  have "ReceiveRequest decode \<lparr>rd_data = ?sent @ rest, rd_end = e\<rparr> bufferPool =
       (Inr req, \<lparr>rd_data = rest, rd_end = e\<rparr>, pool_after_get bufferPool)"
    using receive_frame(1) [of "\<lparr>rd_data = ?sent @ rest, rd_end = e\<rparr>" payload rest decode req] assms(4-6) by simp
  with SendRequest_completes [OF assms(1,2), of encode req, OF assms(3,6), of grow w caps] show ?thesis by blast
qed

theorem request_roundtrip_witness:
  "\<exists>w' caps' sent. SendRequest (\<lambda>n. ([n], None)) (\<lambda>_ _. 64) one_byte_writer 5 [] [] = (WriteOk, w', caps') \<and>
     w' = [] @ sent \<and>
     ReceiveRequest (\<lambda>bs. Inr (hd bs)) \<lparr>rd_data = sent @ [9], rd_end = EOF\<rparr> [] =
       (Inr 5, \<lparr>rd_data = [9], rd_end = EOF\<rparr>, pool_after_get [])"
  by (rule request_roundtrip [OF one_byte_writer_ok, where payload = "[5]"]) (simp_all add: MaxPayloadSize_def)

text \<open>The pool of encode buffers never keeps one above \<open>MaxReusableMsgpackCap\<close>, whatever
  \<open>SendRequest\<close> returns.\<close>

lemma msgpack_pool_bounded:
  assumes "list_all (\<lambda>c. c \<le> MaxReusableMsgpackCap) caps"
  shows "list_all (\<lambda>c. c \<le> MaxReusableMsgpackCap) (snd (snd (SendRequest encode grow wr req w caps)))"
  using SendRequest_pool [OF assms, of encode grow wr req w "fst (SendRequest encode grow wr req w caps)"
      "fst (snd (SendRequest encode grow wr req w caps))" "snd (snd (SendRequest encode grow wr req w caps))"]
  by simp

section \<open>Handshake\<close>

text \<open>C14. The handshake succeeds exactly when the magic was written without an error and the first two
  bytes of the answer are \<open>OK\<close>.\<close>

theorem handshake_iff:
  "fst (Handshake wr w r) = None \<longleftrightarrow>
     snd (fst (wr (bytes_of MagicHandshake) w)) = None \<and> take 2 (rd_data r) = bytes_of HandshakeOK"
proof -
  have len: "length HandshakeOK = 2" by (simp add: HandshakeOK_def)
  have two: "take 2 (rd_data r) = bytes_of HandshakeOK \<Longrightarrow> 2 \<le> length (rd_data r)"
    by (drule arg_cong [of _ _ length]) (simp add: bytes_of_def HandshakeOK_def)
  have eq: "string_of (take 2 (rd_data r)) = HandshakeOK \<longleftrightarrow> take 2 (rd_data r) = bytes_of HandshakeOK"
    by (metis bytes_of_string_of string_of_bytes_of)
  obtain n err w1 where "wr (bytes_of MagicHandshake) w = ((n, err), w1)" by (metis surj_pair)
  then show ?thesis
    using two eq by (cases err) (auto simp: Handshake_def ReadFull_def len)
qed

section \<open>Ids and reused requests\<close>

text \<open>C24. Request ids are unique: any run of fewer than \<open>2 ^ 64\<close> calls of \<open>NextRequestID\<close> that does not
  pass the end of the counter returns different ids.\<close>

theorem request_ids_distinct:
  "unat counter + n < 2 ^ 64 \<Longrightarrow> distinct (request_ids n counter)"
  unfolding request_ids_source by (rule request_source.ids_distinct) simp

theorem request_ids_distinct_witness: "distinct (request_ids 3 (41 :: 64 word))"
  using request_ids_distinct [of 41 3] by simp

end
