(* ===== verification/Engine.thy ===== *)
theory Engine
  imports Server
begin

text \<open>
  \<open>main.go\<close>, the command: \<open>configClientAddress\<close>, \<open>runConfigCLI\<close> and \<open>main\<close>. What the command does to
  the outside is a list of actions with an exit code; the texts it prints are left out.
\<close>

section \<open>The config client\<close>

definition configClientAddress :: "Config \<Rightarrow> string" where
  "configClientAddress c =
     (let h = sc_Host (c_Server c);
          host = (if h = ''0.0.0.0'' \<or> h = '''' then ''127.0.0.1'' else h)
      in host @ '':'' @ itoa (sc_Port (c_Server c)))"

text \<open>One \<open>key=value\<close> argument of \<open>config set\<close>: \<open>None\<close> is an invalid pair, number or key.\<close>

definition parse_pair :: "string \<Rightarrow> (string \<times> goval) option" where
  "parse_pair pair =
     (case cut pair (CHR ''='') of
        (key0, val0, ok) \<Rightarrow>
          if \<not> ok \<or> key0 = '''' then None
          else
            let key = trim_space key0; val = trim_space val0 in
            if key = ''min_workers'' \<or> key = ''max_workers'' \<or> key = ''backpressure_max_queue'' then
              map_option (\<lambda>n. (key, GInt n)) (atoi val)
            else if key = ''backpressure_enabled'' \<or> key = ''keep_warm'' then
              Some (key, GBool (val = ''true'' \<or> val = ''1''))
            else None)"

fun parse_pairs :: "string list \<Rightarrow> (string, goval) gomap \<Rightarrow> (string, goval) gomap option" where
  "parse_pairs [] updates = Some updates"
| "parse_pairs (p # ps) updates =
     (case parse_pair p of
        None \<Rightarrow> None
      | Some (k, v) \<Rightarrow> parse_pairs ps (AList.update k v updates))"

text \<open>
  The reply of the running engine to the client: the status code with the body, or the error of the
  connection or of reading the body.
\<close>

datatype client_result = ClientError error | ClientReply int "error option"

datatype cli_request = GetConfig string | PatchConfig string "(string, goval) gomap"

definition get_exit_code :: "client_result \<Rightarrow> int" where
  "get_exit_code r =
     (case r of
        ClientError e \<Rightarrow> 1
      | ClientReply st bodyErr \<Rightarrow> if st \<noteq> 200 then 1 else if bodyErr \<noteq> None then 1 else 0)"

definition set_exit_code :: "client_result \<Rightarrow> int" where
  "set_exit_code r =
     (case r of ClientError e \<Rightarrow> 1 | ClientReply st bodyErr \<Rightarrow> if st \<noteq> 200 then 1 else 0)"

definition runConfigCLI :: "(cli_request \<Rightarrow> client_result) \<Rightarrow> Config \<Rightarrow> string list \<Rightarrow> cli_request option \<times> int" where
  "runConfigCLI send cfg subArgs =
     (let url = ''http://'' @ configClientAddress cfg @ ''/narya/config'' in
      if subArgs = [] \<or> hd subArgs = ''get'' then
        (Some (GetConfig url), get_exit_code (send (GetConfig url)))
      else if hd subArgs = ''set'' then
        (case parse_pairs (tl subArgs) [] of
           None \<Rightarrow> (None, 1)
         | Some updates \<Rightarrow>
             if updates = [] then (None, 1)
             else (Some (PatchConfig url updates), set_exit_code (send (PatchConfig url updates))))
      else if hd subArgs = ''help'' \<or> hd subArgs = ''-h'' \<or> hd subArgs = ''--help'' then (None, 0)
      else (None, 1))"

section \<open>main\<close>

record flags =
  fl_host :: string
  fl_port :: int
  fl_workers :: int
  fl_version :: bool
  fl_args :: "string list"

datatype action =
    PrintVersion
  | PrintBanner
  | ConfigCommand "cli_request option"
  | StartServer Config
  | WaitForSignal
  | StopServer

definition override_address :: "flags \<Rightarrow> Config \<Rightarrow> Config" where
  "override_address fl c =
     (let c1 = (if fl_host fl \<noteq> '''' then c\<lparr>c_Server := (c_Server c)\<lparr>sc_Host := fl_host fl\<rparr>\<rparr> else c)
      in if fl_port fl > 0 then c1\<lparr>c_Server := (c_Server c1)\<lparr>sc_Port := fl_port fl\<rparr>\<rparr> else c1)"

definition override_workers :: "flags \<Rightarrow> Config \<Rightarrow> Config" where
  "override_workers fl c =
     (if fl_workers fl > 0 then c\<lparr>c_Workers := (c_Workers c)\<lparr>wc_Count := fl_workers fl\<rparr>\<rparr> else c)"

text \<open>
  \<open>server.Start\<close> fails if it cannot listen, and otherwise returns what \<open>http.Server.Serve\<close> returns,
  which blocks while the listener serves: \<open>Serving\<close> is a call that has not returned. \<open>None\<close> as exit
  code is a command that is still running.
\<close>

datatype serve_result = Serving | ServeReturned "error option"

record server_env =
  sv_listenErr :: "Config \<Rightarrow> error option"
  sv_serve :: "Config \<Rightarrow> serve_result"

definition server_Start :: "server_env \<Rightarrow> Config \<Rightarrow> serve_result" where
  "server_Start env cfg =
     (case sv_listenErr env cfg of
        Some e \<Rightarrow> ServeReturned (Some (Wrap ''failed to create listener'' e))
      | None \<Rightarrow> sv_serve env cfg)"

definition main :: "(string \<Rightarrow> Config \<Rightarrow> error + Config) \<Rightarrow> file_result \<Rightarrow> (cli_request \<Rightarrow> client_result) \<Rightarrow>
    server_env \<Rightarrow> flags \<Rightarrow> action list \<times> int option" where
  "main unmarshal file send env fl =
     (if fl_version fl then ([PrintVersion], Some 0)
      else if fl_args fl \<noteq> [] \<and> hd (fl_args fl) = ''config'' then
        (case LoadConfig unmarshal file of
           Inl e \<Rightarrow> ([], Some 1)
         | Inr cfg \<Rightarrow>
             (case runConfigCLI send (override_address fl cfg) (tl (fl_args fl)) of
                (req, code) \<Rightarrow> ([ConfigCommand req], Some code)))
      else
        (case LoadConfig unmarshal file of
           Inl e \<Rightarrow> ([PrintBanner], Some 1)
         | Inr cfg0 \<Rightarrow>
             let cfg = override_workers fl (override_address fl cfg0) in
             (case Validate cfg of
                Some e \<Rightarrow> ([PrintBanner], Some 1)
              | None \<Rightarrow>
                  (case server_Start env cfg of
                     ServeReturned (Some e) \<Rightarrow> ([PrintBanner, StartServer cfg], Some 1)
                   | ServeReturned None \<Rightarrow>
                       ([PrintBanner, StartServer cfg, WaitForSignal, StopServer], Some 0)
                   | Serving \<Rightarrow> ([PrintBanner, StartServer cfg], None)))))"

end
