(* ===== verification/Settings_Properties.thy ===== *)
theory Settings_Properties
  imports Engine
begin

text \<open>
  Properties of configuration: loading and validating the file, updating the settings of a running
  engine, the way the command-line client sends an update, and the logger.
\<close>

section \<open>The configuration file\<close>

text \<open>C28. Whatever a file contains, a configuration that loads has positive spawn settings, a positive
  backlog and exact timeouts; its minimum and maximum are the given ones, or the count where the
  file sets them to zero or less. Without a file the defaults load, and they are valid.\<close>

theorem load_config_normalised:
  "(case LoadConfig unmarshal (FileData d) of
      Inl e \<Rightarrow> (\<exists>e'. unmarshal d DefaultConfig = Inl e')
    | Inr c \<Rightarrow>
        (\<exists>c0. unmarshal d DefaultConfig = Inr c0 \<and>
          (let w0 = c_Workers c0; w = c_Workers c in
           wc_MinWorkers w = (if 0 < wc_MinWorkers w0 then wc_MinWorkers w0 else wc_Count w0) \<and>
           wc_MaxWorkers w = (if 0 < wc_MaxWorkers w0 then wc_MaxWorkers w0 else wc_Count w0) \<and>
           (wc_TimeoutSecs w0 \<in> {1..9223372036} \<longrightarrow> wc_Timeout w = wc_TimeoutSecs w0 * Second) \<and>
           0 < wc_SpawnTimeoutSecs w \<and> 0 < wc_HandshakeTimeoutSecs w \<and> 0 < wc_MaxParallelSpawns w \<and>
           0 < wc_EnsureMinDebounceMs w \<and> 0 < wc_RespawnBackoffMs w \<and> 0 < wc_RespawnTimeoutSecs w \<and>
           0 < sc_Backlog (c_Server c)))) \<and>
   LoadConfig unmarshal FileMissing = Inr DefaultConfig \<and> config_valid DefaultConfig"
proof -
  have "config_valid DefaultConfig"
    by (simp add: config_valid_def DefaultConfig_def Second_def)
  then show ?thesis
    by (auto simp: LoadConfig_def normalize_workers_def normalize_server_def default_to_cases
        secs_to_duration_exact Let_def split: sum.split)
qed

theorem load_config_normalised_witness:
  "case LoadConfig (\<lambda>d c. Inr (c\<lparr>c_Workers := (c_Workers c)\<lparr>wc_TimeoutSecs := 5, wc_MinWorkers := 0\<rparr>\<rparr>))
      (FileData ''workers'') of Inl e \<Rightarrow> False | Inr c \<Rightarrow> wc_Timeout (c_Workers c) = 5 * Second"
  using load_config_normalised [of "\<lambda>d c. Inr (c\<lparr>c_Workers := (c_Workers c)\<lparr>wc_TimeoutSecs := 5, wc_MinWorkers := 0\<rparr>\<rparr>)" "''workers''"]
  by (auto simp: Let_def split: sum.splits)

text \<open>C38. A file that sets nothing but the number of workers is rejected unless the number is four: the
  defaults already carry a minimum and a maximum of four, so that the documented fallback to the
  count never applies.\<close>

theorem count_alone_rejected:
  assumes "unmarshal d DefaultConfig =
      Inr (DefaultConfig\<lparr>c_Workers := (c_Workers DefaultConfig)\<lparr>wc_Count := n\<rparr>\<rparr>)"
    and "1 \<le> n" "n \<noteq> 4"
  shows "\<exists>c. LoadConfig unmarshal (FileData d) = Inr c \<and> Validate c = Some (BadOrder 4 n 4)"
  using assms
  by (auto simp: LoadConfig_def Validate_def Let_def normalize_workers_def normalize_server_def
      default_to_def secs_to_duration_def DefaultConfig_def)

theorem count_alone_rejected_witness:
  "\<exists>c. LoadConfig (\<lambda>d c. Inr (c\<lparr>c_Workers := (c_Workers c)\<lparr>wc_Count := 8\<rparr>\<rparr>)) (FileData ''count: 8'') = Inr c \<and>
       Validate c = Some (BadOrder 4 8 4)"
  by (rule count_alone_rejected) simp_all

section \<open>The settings of a running engine\<close>

text \<open>C29. \<open>Update\<close> succeeds exactly when the three numbers that are given convert and are in range; then
  every given field has its new value, every other field its old one, the maximum is raised to the
  minimum if need be, and \<open>1 \<le> min \<le> max\<close> is kept.\<close>

theorem update_outcome:
  assumes "rc_ok r"
  shows "(fst (Update oob u r) = None \<longleftrightarrow>
            good_int oob 1 (u ''min_workers'') \<and> good_int oob 1 (u ''max_workers'') \<and>
            good_int oob 0 (u ''backpressure_max_queue'')) \<and>
         fst (Update oob u r) \<in> {None, Some errInvalidConfig} \<and>
         (fst (Update oob u r) = None \<longrightarrow>
            rc_ok (snd (Update oob u r)) \<and>
            snd (Update oob u r) =
              \<lparr>rc_MinWorkers = new_int oob (u ''min_workers'') (rc_MinWorkers r),
               rc_MaxWorkers = max (new_int oob (u ''min_workers'') (rc_MinWorkers r))
                                   (new_int oob (u ''max_workers'') (rc_MaxWorkers r)),
               rc_BackpressureEnabled = new_bool (u ''backpressure_enabled'') (rc_BackpressureEnabled r),
               rc_BackpressureMaxQueue = new_int oob (u ''backpressure_max_queue'') (rc_BackpressureMaxQueue r),
               rc_KeepWarm = new_bool (u ''keep_warm'') (rc_KeepWarm r)\<rparr>)"
proof -
  have "1 \<le> new_int oob (u ''min_workers'') (rc_MinWorkers r)" if "fst (Update oob u r) = None"
    using that assms by (intro new_int_bound) (auto simp: Update_error_iff rc_ok_def)
  moreover have "fst (Update oob u r) \<in> {None, Some errInvalidConfig}"
    using Update_error_value [of oob u] unfolding only_invalid_def by blast
  ultimately show ?thesis
    using Update_error_iff [of oob u r] Update_result [of oob u r] by (simp add: Let_def rc_ok_def)
qed

theorem update_outcome_witness:
  "snd (Update (\<lambda>x. x) [''min_workers'' \<mapsto> GInt 9] \<lparr>rc_MinWorkers = 2, rc_MaxWorkers = 4,
      rc_BackpressureEnabled = True, rc_BackpressureMaxQueue = 7, rc_KeepWarm = False\<rparr>) =
   \<lparr>rc_MinWorkers = 9, rc_MaxWorkers = 9, rc_BackpressureEnabled = True,
    rc_BackpressureMaxQueue = 7, rc_KeepWarm = False\<rparr>"
  using update_outcome [of "\<lparr>rc_MinWorkers = 2, rc_MaxWorkers = 4,
      rc_BackpressureEnabled = True, rc_BackpressureMaxQueue = 7, rc_KeepWarm = False\<rparr>" "\<lambda>x. x"
      "[''min_workers'' \<mapsto> GInt 9]"]
  by (simp add: rc_ok_def good_int_def new_int_def new_bool_def)

text \<open>The settings that an update which fails has written: those before the first number that is bad.\<close>

definition written_before_failure :: "(int \<Rightarrow> int) \<Rightarrow> (string \<rightharpoonup> goval) \<Rightarrow> RuntimeConfig \<Rightarrow> RuntimeConfig" where
  "written_before_failure oob u r =
     (let r1 = r\<lparr>rc_MinWorkers := new_int oob (u ''min_workers'') (rc_MinWorkers r)\<rparr>;
          r2 = r1\<lparr>rc_MaxWorkers := new_int oob (u ''max_workers'') (rc_MaxWorkers r),
                 rc_BackpressureEnabled := new_bool (u ''backpressure_enabled'') (rc_BackpressureEnabled r)\<rparr>
      in if \<not> good_int oob 1 (u ''min_workers'') then r
         else if \<not> good_int oob 1 (u ''max_workers'') then r1 else r2)"

lemma update_int_bad: "\<not> good_int oob lo v \<Longrightarrow> update_int oob v lo f r = (Some errInvalidConfig, r)"
  by (auto simp: update_int_def good_int_def split: option.splits sum.splits)

lemma update_int_good: "good_int oob lo v \<Longrightarrow>
    update_int oob v lo f r = (None, case v of None \<Rightarrow> r | Some x \<Rightarrow> f (projr (toInt oob x)) r)"
  by (auto simp: update_int_def good_int_def split: option.splits sum.splits)

lemma Update_failed_result:
  assumes "fst (Update oob u r) \<noteq> None"
  shows "snd (Update oob u r) = written_before_failure oob u r"
proof (cases "good_int oob 1 (u ''min_workers'')")
  case False
  then show ?thesis by (simp add: Update_def and_then_def written_before_failure_def update_int_bad Let_def)
next
  case g1: True
  show ?thesis
  proof (cases "good_int oob 1 (u ''max_workers'')")
    case False
    with g1 show ?thesis
      by (simp add: Update_def and_then_def written_before_failure_def update_int_good update_int_bad written_fields Let_def)
  next
    case True
    with g1 assms have "\<not> good_int oob 0 (u ''backpressure_max_queue'')" by (simp add: Update_error_iff)
    with g1 True show ?thesis
      by (simp add: Update_def and_then_def written_before_failure_def update_int_good update_int_bad written_fields
          update_bool_def Let_def)
  qed
qed

text \<open>C39. A failing \<open>Update\<close> is not undone. For every update map, a PATCH that is answered with the error has
  all the same written the values that come before the first bad number in the order of the code:
  none for a bad minimum, the minimum for a bad maximum, and minimum, maximum and the backpressure
  flag for a bad queue limit; \<open>keep_warm\<close> is not written and the maximum is not raised to the minimum,
  so that a given minimum above the maximum that is then in force is left above it.\<close>

theorem failed_update_tears:
  assumes "fst (Update oob u r) \<noteq> None" and "rc_ok r"
  shows "handleConfig oob ''PATCH'' (Some u) r =
      (ConfigError 400 ''{\"error\":\"invalid config value\"}'', written_before_failure oob u r) \<and>
    (rc_ok (written_before_failure oob u r) \<longleftrightarrow>
       \<not> good_int oob 1 (u ''min_workers'') \<or>
       new_int oob (u ''min_workers'') (rc_MinWorkers r) \<le>
         (if good_int oob 1 (u ''max_workers'') then new_int oob (u ''max_workers'') (rc_MaxWorkers r)
          else rc_MaxWorkers r))"
proof -
  obtain e where "Update oob u r = (Some e, written_before_failure oob u r)"
    using assms(1) Update_failed_result [OF assms(1)] by (cases "Update oob u r") auto
  then have "handleConfig oob ''PATCH'' (Some u) r =
      (ConfigError 400 ''{\"error\":\"invalid config value\"}'', written_before_failure oob u r)"
    by (simp add: handleConfig_def)
  moreover have "1 \<le> new_int oob (u ''min_workers'') (rc_MinWorkers r)" if "good_int oob 1 (u ''min_workers'')"
    using that assms(2) by (intro new_int_bound) (auto simp: rc_ok_def)
  ultimately show ?thesis using assms(2) by (auto simp: written_before_failure_def rc_ok_def Let_def)
qed

text \<open>The two numbers of the body are float64 values, as the JSON decoder gives them.\<close>

theorem failed_update_tears_witness:
  "rc_MinWorkers (snd (handleConfig (\<lambda>x. x) ''PATCH''
      (Some [''min_workers'' \<mapsto> GFloat 50 0, ''max_workers'' \<mapsto> GFloat 0 0])
      (NewRuntimeConfig 2 4 False 0 False))) = 50 \<and>
   \<not> rc_ok (snd (handleConfig (\<lambda>x. x) ''PATCH''
      (Some [''min_workers'' \<mapsto> GFloat 50 0, ''max_workers'' \<mapsto> GFloat 0 0])
      (NewRuntimeConfig 2 4 False 0 False)))"
  using failed_update_tears [of "\<lambda>x. x" "[''min_workers'' \<mapsto> GFloat 50 0, ''max_workers'' \<mapsto> GFloat 0 0]"
      "NewRuntimeConfig 2 4 False 0 False"]
  by (simp add: NewRuntimeConfig_def Update_error_iff rc_ok_def written_before_failure_def good_int_def new_int_def
      float_to_int_def truncate_float_def Let_def)

section \<open>The command-line client\<close>




















section \<open>Logging\<close>

text \<open>A logger made for a level name prints a message exactly when its level is at least the
  configured one, with the time, the level and the text in this order; names are read in any case, an
  unknown one means \<open>info\<close>, and the prefix given to \<open>WithPrefix\<close> never shows.\<close>

lemma log_filter:
  "log_line l lvl name t msg =
     (if level l \<le> lvl then Some (''['' @ t @ ''] '' @ name @ '': '' @ msg) else None) \<and>
   log_line (WithPrefix l p) lvl name t msg = log_line l lvl name t msg \<and>
   IsDebugEnabled l = (Debug l t msg \<noteq> None) \<and>
   level (NewLogger (to_upper s)) = level (NewLogger (to_lower s)) \<and>
   LogError (NewLogger ''silent'') t msg = None"
proof -
  have up: "to_lower (to_upper s) = to_lower (to_lower s)"
    unfolding to_lower_def to_upper_def by (simp add: lower_upper_char)
  show ?thesis
    unfolding NewLogger_def parseLogLevel_def up Let_def
    by (auto simp: log_line_def WithPrefix_def IsDebugEnabled_def log_defs not_less to_lower_def lower_char_def Let_def
        less_LogLevel_def less_eq_LogLevel_def)
qed

end
