(* ===== verification/Service_Properties.thy ===== *)
theory Service_Properties
  imports Pool_Properties Transport_Properties Settings_Properties
begin

text \<open>
  Properties of the server around the pool: request structs are reused without carrying anything over,
  what a client is answered when no worker can be had, the metrics, an execution from end to end, and
  the life of the command.
\<close>

section \<open>Requests\<close>

text \<open>C8. No request sees anything of an earlier one. With a pool of blank request structs, the request
  built for an HTTP request is the one a new struct would give, but for the capacity of its body, and a
  read error is the same; the structs left in the pool are blank, and so is the pool once the handler
  has put the request back, after a read error already.\<close>

theorem requests_isolated:
  assumes "list_all request_blank requestPool"
    and "httpToRequest readCap timeoutMs unixSecs timeFloat r requestPool counter = (res, pool', counter')"
  shows "list_all request_blank pool' \<and>
     (case res of
        Inl e \<Rightarrow> fst (httpToRequest readCap timeoutMs unixSecs timeFloat r [] counter) = Inl e
      | Inr req \<Rightarrow>
          (\<exists>fresh_body. fst (httpToRequest readCap timeoutMs unixSecs timeFloat r [] counter) =
             Inr (req\<lparr>req_Body := fresh_body\<rparr>) \<and> slice_bytes fresh_body = slice_bytes (req_Body req)) \<and>
          list_all request_blank (ReleaseRequest (stamp_request a s req) pool'))"
proof -
  obtain req0 pool1 where acq: "AcquireRequest requestPool = (req0, pool1)" by fastforce
  with acquire_blank [OF assms(1)] have "request_blank req0" and p1: "list_all request_blank pool1" by simp_all
  then have req0: "req0 = new_request\<lparr>req_Body := req_Body req0\<rparr>" "slice_bytes (req_Body req0) = []"
    by (simp_all add: request_blank_def)
  define built where "built b = fill_request timeoutMs unixSecs timeFloat r (fst (NextRequestID counter)) (new_request\<lparr>req_Body := b\<rparr>)" for b
  have built: "built b = (built b')\<lparr>req_Body := b\<rparr>" "req_Body (built b) = b" for b b'
    by (simp_all add: built_def fill_request_def Let_def)
  have from_pool: "fill_request timeoutMs unixSecs timeFloat r (fst (NextRequestID counter)) (req0\<lparr>req_Body := b\<rparr>) = built b" for b
    by (subst req0(1)) (simp add: built_def)
  have reused: "list_all request_blank (ReleaseRequest q pool1)" for q by (rule release_blank [OF p1])
  have new: "AcquireRequest [] = (new_request, [])" "slice_bytes (req_Body new_request) = []"
    "new_request = new_request\<lparr>req_Body := req_Body new_request\<rparr>"
    by (simp_all add: AcquireRequest_def new_request_def)
  define ok where "ok b b' \<longleftrightarrow> pool' = pool1 \<and> res = Inr (built b) \<and>
      fst (httpToRequest readCap timeoutMs unixSecs timeFloat r [] counter) = Inr (built b') \<and> slice_bytes b' = slice_bytes b" for b b'
  have enough: ?thesis if "ok b b'" for b b'
    using that built(1) [of b' b] built(2) [of b] p1 reused by (auto simp: ok_def)
  show ?thesis
  proof (cases "hr_Body r")
    case None
    have "ok (req_Body req0) (req_Body new_request)"
      using assms(2) acq None new req0(2) from_pool [of "req_Body req0"]
      by (auto simp: ok_def httpToRequest_def built_def split: prod.splits)
    then show ?thesis by (rule enough)
  next
    case (Some b)
    show ?thesis
    proof (cases "read_limited b")
      case (Inl e)
      with assms(2) acq Some reused new show ?thesis by (auto simp: httpToRequest_def)
    next
      case (Inr data)
      have "ok (Slice data (readCap (length data))) (Slice data (readCap (length data)))"
        using assms(2) acq Some Inr new from_pool
        by (auto simp: ok_def httpToRequest_def built_def split: prod.splits)
      then show ?thesis by (rule enough)
    qed
  qed
qed

text \<open>A struct that served a request with a cookie and a body serves one with neither.\<close>

definition served_request :: Request where
  "served_request = new_request\<lparr>req_Headers := [(''Cookie'', [''session''])], req_Body := Slice [1, 2, 3] 8\<rparr>"

definition plain_request :: http_request where
  "plain_request = \<lparr>hr_Method = ''GET'', hr_Host = ''localhost'', hr_TLS = False, hr_RemoteAddr = '''', hr_Proto = ''HTTP/1.1'',
     hr_Path = ''/'', hr_RawQuery = '''', hr_RequestURI = ''/'', hr_Header = [], hr_Body = None\<rparr>"

theorem requests_isolated_witness:
  "\<exists>req pool' counter'. httpToRequest (\<lambda>n. n) 30000 0 '''' plain_request (ReleaseRequest served_request []) 0 =
     (Inr req, pool', counter') \<and> req_Headers req = [] \<and> slice_bytes (req_Body req) = []"
proof -
  let ?pool = "ReleaseRequest served_request []"
  have blank: "list_all request_blank ?pool" by (rule release_blank) simp
  obtain res pool' counter' where h: "httpToRequest (\<lambda>n. n) 30000 0 '''' plain_request ?pool 0 = (res, pool', counter')"
    by (metis prod_cases3)
  then obtain req where res: "res = Inr req"
    by (auto simp: httpToRequest_def plain_request_def split: prod.splits)
  have "\<exists>fresh_body. fst (httpToRequest (\<lambda>n. n) 30000 0 '''' plain_request [] 0) = Inr (req\<lparr>req_Body := fresh_body\<rparr>) \<and>
      slice_bytes fresh_body = slice_bytes (req_Body req)"
    using requests_isolated [OF blank h] res by simp
  then obtain b where b: "fst (httpToRequest (\<lambda>n. n) 30000 0 '''' plain_request [] 0) = Inr (req\<lparr>req_Body := b\<rparr>)"
    "slice_bytes b = slice_bytes (req_Body req)" by blast
  have "case fst (httpToRequest (\<lambda>n. n) 30000 0 '''' plain_request [] 0) of Inl e \<Rightarrow> True
    | Inr q \<Rightarrow> req_Headers q = [] \<and> slice_bytes (req_Body q) = []"
    by (simp add: httpToRequest_def plain_request_def AcquireRequest_def fill_request_def new_request_def put_all_def
        Let_def split: prod.split)
  with h res b show ?thesis by auto
qed

section \<open>Answers\<close>

lemma get_wait_refused:
  "get_wait takeDone ctx s = (Refused e, s') \<Longrightarrow> e = Msg ''pool stopped'' \<or> (\<exists>s1. ctx_result ctx s1 = Refused e)"
proof (induction takeDone ctx s rule: get_wait.induct)
  case (1 takeDone ctx s)
  from "1.prems" "1.IH" show ?case
    by (subst (asm) get_wait.simps) (auto split: option.splits prod.splits if_splits bool.splits)
qed

lemma context_replies:
  "error_reply ''failed to get worker: context canceled'' = (NoReply, False)"
  "error_reply ''failed to get worker: context deadline exceeded'' = (HttpError 503 ''timeout waiting for worker'', True)"
  "error_reply ''failed to get worker: pool stopped'' = (HttpError 500 ''Internal Server Error'', True)"
  by code_simp+

text \<open>C26. What a client is answered when \<open>GetWorker\<close> refuses: a full queue and a queue timeout are 503, a
  cancelled client gets no reply and is not counted as an error, a deadline that passes without a queue
  timeout is 503 with its own text, and only the nil worker of a stopped pool is a 500. The contexts of
  the standard library end with one of two errors, which is the hypothesis.\<close>

theorem refusal_replies:
  assumes "GetWorker takeDone ctx s = ((Refused e, counted), s')"
    and "\<forall>e. ctx = CtxDone e \<longrightarrow> e = Canceled \<or> e = DeadlineExceeded"
  shows "error_reply (Error (Wrap ''failed to get worker'' e)) =
     (if e = Canceled then (NoReply, False)
      else if e = DeadlineExceeded then (HttpError 503 ''timeout waiting for worker'', True)
      else if e = Msg ''pool stopped'' then (HttpError 500 ''Internal Server Error'', True)
      else (HttpError 503 ''Service Unavailable'', True))"
proof -
  have unavailable: ?thesis if "e = Msg (''service unavailable: '' @ m)" for m
  proof -
    have "contains (Error (Wrap ''failed to get worker'' e)) ''service unavailable''"
      using contains_append [of "''failed to get worker: ''" "''service unavailable''" "'': '' @ m"] that by simp
    then show ?thesis using that by (simp add: error_reply_def)
  qed
  have result: "e = Canceled \<or> e = DeadlineExceeded \<or> e = queue_timeout_error s1" if "ctx_result ctx s1 = Refused e" for s1
    using that assms(2) by (cases ctx) (auto split: if_splits)
  obtain s1 where t: "tryGetWorker s = (None, s1)"
    using assms(1) by (cases "tryGetWorker s"; cases "fst (tryGetWorker s)") (auto simp: GetWorker_def)
  let ?s2 = "snd (pruneDeadWorkers (snd (compactAvailableQueue s1)))"
  obtain ok s3 where a: "admit ?s2 = (ok, s3)" by fastforce
  show ?thesis
  proof (cases ok)
    case (Inl e')
    with assms(1) t a have "admit ?s2 = (Inl e, s3)" by (auto simp: GetWorker_def)
    then have "\<exists>m. e = Msg (''service unavailable: '' @ m)" by (auto simp: admit_def Let_def split: if_splits)
    with unavailable show ?thesis by blast
  next
    case (Inr c)
    obtain r s4 where w: "get_wait takeDone ctx (scale_on_demand s3) = (r, s4)" by fastforce
    with assms(1) t a Inr have "r = Refused e"
      by (cases r) (auto simp: GetWorker_def get_resume_def leave_queue_def split: prod.splits)
    with get_wait_refused [of takeDone ctx "scale_on_demand s3" e s4] result w consider "e = Canceled" | "e = DeadlineExceeded" | "e = Msg ''pool stopped''" | s1 where "e = queue_timeout_error s1"
      by blast
    then show ?thesis
    proof cases
      case 4
      then have "\<exists>m. e = Msg (''service unavailable: '' @ m)" by (simp add: queue_timeout_error_def)
      with unavailable show ?thesis by blast
    qed (simp_all add: context_replies)
  qed
qed

lemma demo_cancelled: "fst (GetWorker (\<lambda>_. False) (CtxDone Canceled) demo_busy) = (Refused Canceled, True)"
  by (simp add: GetWorker_def tryGetWorker_def try_recv_def demo_busy_fields compactAvailableQueue_def Let_def
      drain_loop_nil pruneDeadWorkers_def pruneDeadWorkersLocked_filter admit_def GetBackpressureEnabled_def
      GetBackpressureMaxQueue_def demo_fields demo_worker_def scale_on_demand_def spawnCircuitOpen_def
      livingWorkerCount_def countLivingWorkersLocked_def count_if_def GetMaxWorkers_def get_resume_def get_wait.simps leave_queue_def)

theorem refusal_replies_witness:
  "\<exists>s'. GetWorker (\<lambda>_. False) (CtxDone Canceled) demo_busy = ((Refused Canceled, True), s') \<and>
     error_reply (Error (Wrap ''failed to get worker'' Canceled)) = (NoReply, False)"
proof -
  obtain s' where g: "GetWorker (\<lambda>_. False) (CtxDone Canceled) demo_busy = ((Refused Canceled, True), s')"
    using demo_cancelled by (metis prod.collapse)
  from g refusal_replies [OF g] show ?thesis by simp
qed

lemma reply_flags:
  "error_reply msg = (reply, is_error) \<Longrightarrow>
     is_error = (\<exists>st txt. reply = HttpError st txt) \<and> \<not> (\<exists>st hs body. reply = HttpResponse st hs body)"
  "response_reply resp = (reply, is_error) \<Longrightarrow> is_error = (\<exists>st txt. reply = HttpError st txt)"
  by (auto simp: error_reply_def response_reply_def split: if_splits)

lemma handle_result_metrics:
  assumes "handle_result durMs res m = (reply, m')"
  shows "m' = add_active_request (- 1) (case reply of HttpError st txt \<Rightarrow> add_error m
     | HttpResponse st hs body \<Rightarrow> add_success durMs m | _ \<Rightarrow> m)"
proof (cases res)
  case (Inl e)
  then show ?thesis
    using assms reply_flags(1) [of "Error e" reply] by (cases reply) (auto simp: handle_result_def split: prod.splits if_splits)
next
  case (Inr resp)
  then show ?thesis
    using assms reply_flags(2) [of resp reply] by (cases reply) (auto simp: handle_result_def split: prod.splits if_splits)
qed

text \<open>C25. The metrics add up: each request counts once in the total, the number of active requests is
  restored on every path, and at most one of the two outcomes is counted: an error exactly when an
  error status is sent, a success exactly when a response is.\<close>

theorem metrics_add_up:
  assumes "handleRequest execute readCap timeoutMs unixSecs timeFloat durMs r (requestPool, counter, m, p) =
      (reply, requestPool', counter', m', p')"
    and "0 \<le> m_RequestsTotal m" "m_RequestsTotal m < 9223372036854775807"
    and "0 \<le> m_RequestsActive m" "m_RequestsActive m < 2147483647"
    and "0 \<le> m_RequestsError m" "m_RequestsError m < 9223372036854775807"
    and "0 \<le> m_RequestsSuccess m" "m_RequestsSuccess m < 9223372036854775807"
  shows "m_RequestsTotal m' = m_RequestsTotal m + 1 \<and> m_RequestsActive m' = m_RequestsActive m \<and>
     m_RequestsError m' = m_RequestsError m + (case reply of HttpError st txt \<Rightarrow> 1 | _ \<Rightarrow> 0) \<and>
     m_RequestsSuccess m' = m_RequestsSuccess m + (case reply of HttpResponse st hs body \<Rightarrow> 1 | _ \<Rightarrow> 0)"
proof (cases "fst (httpToRequest readCap timeoutMs unixSecs timeFloat r requestPool counter)")
  case (Inl e)
  with assms show ?thesis
    by (auto simp: handleRequest_def add_total_def add_active_request_def add_error_def Let_def split: prod.splits)
next
  case (Inr req)
  with assms(1) have "handle_result durMs (fst (execute req p)) (add_active_request 1 (add_total m)) = (reply, m')"
    by (auto simp: handleRequest_def Let_def split: prod.splits)
  from handle_result_metrics [OF this] assms(2-) show ?thesis
    by (auto simp: add_total_def add_active_request_def add_error_def add_success_def split: http_reply.split)
qed

lemma cancelled_reply: "error_reply ''context canceled'' = (NoReply, False)"
  by code_simp

definition zero_metrics :: Metrics where
  "zero_metrics = \<lparr>m_RequestsTotal = 0, m_RequestsSuccess = 0, m_RequestsError = 0, m_RequestsActive = 0, m_LastRequestDurMs = 0\<rparr>"

theorem metrics_add_up_witness:
  "\<exists>requestPool' counter' m'.
     handleRequest (\<lambda>req p. (Inl Canceled, p)) (\<lambda>n. n) 30000 0 '''' 5 plain_request ([], 0, zero_metrics, ()) =
       (NoReply, requestPool', counter', m', ()) \<and>
     m_RequestsTotal m' = 1 \<and> m_RequestsActive m' = 0 \<and> m_RequestsError m' = 0"
proof -
  obtain reply requestPool' counter' m' where
    h: "handleRequest (\<lambda>req p. (Inl Canceled, p)) (\<lambda>n. n) 30000 0 '''' 5 plain_request ([], 0, zero_metrics, ()) =
      (reply, requestPool', counter', m', ())"
    by (cases "handleRequest (\<lambda>req p. (Inl Canceled, p)) (\<lambda>n. n) 30000 0 '''' 5 plain_request ([], 0, zero_metrics, ())") auto
  then have "handle_result 5 (Inl Canceled) (add_active_request 1 (add_total zero_metrics)) = (reply, m')"
    by (auto simp: handleRequest_def httpToRequest_def plain_request_def Let_def split: prod.splits)
  then have "reply = NoReply" using cancelled_reply by (auto simp: handle_result_def)
  with h metrics_add_up [OF h] show ?thesis by (simp add: zero_metrics_def)
qed

section \<open>Executing\<close>

text \<open>C9. An execution from end to end: when a worker is granted and connected, over any connection that
  makes progress, the request that is written is the caller's, stamped with the worker's id and the
  runtime's version, as one frame, and the answer the worker frames is what the caller gets; the
  worker is then released with that answer.\<close>

theorem execute_end_to_end:
  assumes "GetWorker takeDone ctx s = ((Got a, counted), s1)" and "w_conn (worker s1 a) \<noteq> NilHandle"
    and "xe_deadlineErr env = None" and "writer_ok (xe_writer env) out" "writer_progress (xe_writer env)"
    and "xe_encode env (req\<lparr>req_WorkerID := itoa (w_ID (worker s1 a)), req_RuntimeVersion := ''2.0.0''\<rparr>) = (payload, None)"
    and "length payload \<le> MaxPayloadSize"
    and "rd_data (xe_reader env) = put_uint32 (of_nat (length answer)) @ answer @ rest"
    and "answer \<noteq> []" "length answer \<le> MaxPayloadSize" and "xe_decode env answer = Inr resp"
  shows "pool_Execute takeDone ctx env req w msgpackPool bufferPool s = (Some (Inr resp), ReleaseWorker a (Some resp) s1) \<and>
     out (fst (snd (worker_Execute env (w_conn (worker s1 a)) (stamp_request a s1 req) w msgpackPool bufferPool))) =
       out w @ put_uint32 (of_nat (length payload)) @ payload"
proof -
  have "xe_encode env (stamp_request a s1 req) = (payload, None)"
    using assms(6) by (simp add: stamp_request_def RuntimeVersion_def)
  from SendRequest_completes [OF assms(4,5), of "xe_encode env", OF this assms(7), of "xe_grow env" w msgpackPool]
  obtain w' mp where send: "SendRequest (xe_encode env) (xe_grow env) (xe_writer env) (stamp_request a s1 req) w msgpackPool = (WriteOk, w', mp)"
    and out: "out w' = out w @ put_uint32 (of_nat (length payload)) @ payload" by blast
  have "worker_Execute env (w_conn (worker s1 a)) (stamp_request a s1 req) w msgpackPool bufferPool =
      (ExecOk resp, w', mp, pool_after_get bufferPool)"
    using send receive_frame(2) [OF assms(8-10), of "xe_decode env" resp bufferPool] assms(2,3,11)
    by (simp add: worker_Execute_def)
  with assms(1) out show ?thesis by (simp add: pool_Execute_def finishExecute_def)
qed

text \<open>The only worker of the run answers with the request's id.\<close>

definition demo_answer :: Response where
  "demo_answer = \<lparr>resp_ID = 1, resp_Status = 200, resp_Headers = [], resp_Body = [104, 105], resp_Error = '''',
     resp_Meta = \<lparr>rm_ReqCount = 1, rm_MemUsage = 0, rm_MemPeak = 0, rm_Recycle = False\<rparr>\<rparr>"

definition demo_exec :: "byte list exec_env" where
  "demo_exec = \<lparr>xe_deadlineErr = None, xe_encode = (\<lambda>req. ([1], None)), xe_grow = (\<lambda>_ _. 64), xe_decode = (\<lambda>_. Inr demo_answer),
     xe_writer = one_byte_writer, xe_reader = \<lparr>rd_data = put_uint32 1 @ [2], rd_end = EOF\<rparr>, xe_ctxErr = None\<rparr>"

theorem execute_end_to_end_witness:
  "pool_Execute (\<lambda>_. False) CtxActive demo_exec new_request [] [] [] (sys_pool demo_idle) =
     (Some (Inr demo_answer), ReleaseWorker 0 (Some demo_answer) demo_busy) \<and>
   fst (snd (worker_Execute demo_exec (w_conn (worker demo_busy 0)) (stamp_request 0 demo_busy new_request) [] [] [])) =
     put_uint32 1 @ [1]"
  using execute_end_to_end [OF demo_idle_get, of demo_exec "\<lambda>w. w" new_request "[1]" "[2]" "[]" demo_answer "[]" "[]" "[]"]
    one_byte_writer_ok
  by (simp add: demo_exec_def demo_busy_fields demo_worker_def MaxPayloadSize_def)

section \<open>The command\<close>

text \<open>C36. \<open>main\<close> never reaches its own shutdown: as documented, \<open>http.Server.Serve\<close> returns no nil error, and
  then the engine neither waits for a signal nor stops the server, so that the pool is never stopped;
  the command ends with code 1 or goes on serving.\<close>

theorem shutdown_unreachable:
  assumes "\<forall>cfg. sv_serve env cfg \<noteq> ServeReturned None"
    and "main unmarshal file send env fl = (actions, code)" and "StartServer cfg \<in> set actions"
  shows "StopServer \<notin> set actions \<and> WaitForSignal \<notin> set actions \<and> (code = None \<or> code = Some 1)"
proof -
  have "server_Start env c \<noteq> ServeReturned None" for c
    using assms(1) by (auto simp: server_Start_def split: option.split)
  with assms(2,3) show ?thesis
    by (auto simp: main_def Let_def split: if_splits sum.splits option.splits serve_result.splits prod.splits)
qed

definition demo_flags :: flags where
  "demo_flags = \<lparr>fl_host = '''', fl_port = 0, fl_workers = 0, fl_version = False, fl_args = []\<rparr>"

definition demo_server :: server_env where
  "demo_server = \<lparr>sv_listenErr = (\<lambda>_. None), sv_serve = (\<lambda>_. Serving)\<rparr>"

lemma default_valid: "Validate DefaultConfig = None"
  by (simp add: Validate_None_iff config_valid_def DefaultConfig_def Second_def)

theorem shutdown_unreachable_witness:
  "\<exists>actions. main (\<lambda>_ c. Inr c) FileMissing (\<lambda>_. ClientReply 200 None) demo_server demo_flags = (actions, None) \<and>
     StartServer DefaultConfig \<in> set actions \<and> StopServer \<notin> set actions"
proof -
  have m: "main (\<lambda>_ c. Inr c) FileMissing (\<lambda>_. ClientReply 200 None) demo_server demo_flags =
      ([PrintBanner, StartServer DefaultConfig], None)"
    using default_valid
    by (simp add: main_def LoadConfig_def demo_flags_def demo_server_def server_Start_def override_workers_def
        override_address_def Let_def)
  show ?thesis
    using shutdown_unreachable [OF _ m, of DefaultConfig] m by (simp add: demo_server_def)
qed

section \<open>From the file to the running pool\<close>

lemma main_serves:
  assumes "main unmarshal file send env fl = (actions, code)" and "StartServer cfg \<in> set actions"
  obtains cfg0 where "LoadConfig unmarshal file = Inr cfg0" and
    "cfg = override_workers fl (override_address fl cfg0)" and "config_valid cfg"
proof -
  from assms have "\<exists>cfg0. LoadConfig unmarshal file = Inr cfg0 \<and>
      cfg = override_workers fl (override_address fl cfg0) \<and> Validate cfg = None"
    by (auto simp: main_def Let_def split: if_splits sum.splits option.splits serve_result.splits prod.splits)
  with that show thesis by (auto simp: Validate_None_iff)
qed

text \<open>The spawn settings of a loaded configuration are positive, and the flags do not touch them.\<close>

lemma loaded_spawn_settings:
  assumes "LoadConfig unmarshal file = Inr cfg"
  shows "0 < wc_SpawnTimeoutSecs (c_Workers cfg)" "0 < wc_HandshakeTimeoutSecs (c_Workers cfg)"
    "0 < wc_MaxParallelSpawns (c_Workers cfg)" "0 < wc_RespawnTimeoutSecs (c_Workers cfg)"
  using assms
  by (auto simp: LoadConfig_def DefaultConfig_def normalize_workers_def default_to_pos
      split: file_result.splits sum.splits)

lemma overridden_spawn_settings:
  "wc_SpawnTimeoutSecs (c_Workers (override_workers fl (override_address fl c))) = wc_SpawnTimeoutSecs (c_Workers c)"
  "wc_HandshakeTimeoutSecs (c_Workers (override_workers fl (override_address fl c))) = wc_HandshakeTimeoutSecs (c_Workers c)"
  "wc_MaxParallelSpawns (c_Workers (override_workers fl (override_address fl c))) = wc_MaxParallelSpawns (c_Workers c)"
  "wc_RespawnTimeoutSecs (c_Workers (override_workers fl (override_address fl c))) = wc_RespawnTimeoutSecs (c_Workers c)"
  by (simp_all add: override_workers_def override_address_def Let_def)

lemma timeout_exact: "0 < n \<Longrightarrow> n \<le> 9223372036 \<Longrightarrow> pos_or d (wrap64 (n * Second)) = n * Second"
  by (simp add: pos_or_def Second_def)

lemma go_pow_boot:
  "p_running (go t s) = p_running s" "p_bootTime (go t s) = p_bootTime s"
  "p_bootTime ((go t ^^ n) s) = p_bootTime s"
proof -
  show boot: "p_bootTime (go t s) = p_bootTime s" for s by (simp add: go_def)
  show "p_running (go t s) = p_running s" by (simp add: go_def)
  show "p_bootTime ((go t ^^ n) s) = p_bootTime s" by (induction n) (simp_all add: boot)
qed

text \<open>C27. What the command does with a configuration it serves, from the file and the flags to the goroutines
  of the pool. The port is a port; the pool that \<open>NewServer\<close> builds has a minimum of at least one worker
  that is at most the maximum, a queue and a respawn semaphore of the size of the maximum, at least one
  place for spawns, a request timeout of at least a second, and the timeouts of the configuration in
  nanoseconds where they fit. Its \<open>Start\<close> succeeds once the socket directory is there, and starts one
  \<open>addWorker\<close> for each worker of the minimum, the warm-up if there is more to warm up, the scaler and the
  health monitor, and nothing else.\<close>

theorem served_config_starts_pool:
  assumes "main unmarshal file send env fl = (actions, code)" and "StartServer cfg \<in> set actions"
    and "NewServer tempDir os cfg = (p, metrics, logger)"
  shows "1 \<le> sc_Port (c_Server cfg) \<and> sc_Port (c_Server cfg) \<le> 65535 \<and>
    1 \<le> GetMinWorkers (p_runtime p) \<and> GetMinWorkers (p_runtime p) \<le> GetMaxWorkers (p_runtime p) \<and>
    cap (p_available p) = nat (GetMaxWorkers (p_runtime p)) \<and>
    cap (p_respawnSemaphore p) = nat (GetMaxWorkers (p_runtime p)) \<and>
    0 < cap (p_spawnSemaphore p) \<and> Second \<le> ps_workerTimeout (p_settings p) \<and>
    (wc_SpawnTimeoutSecs (c_Workers cfg) \<le> 9223372036 \<longrightarrow>
       ps_spawnTimeout (p_settings p) = wc_SpawnTimeoutSecs (c_Workers cfg) * Second) \<and>
    (wc_HandshakeTimeoutSecs (c_Workers cfg) \<le> 9223372036 \<longrightarrow>
       ps_handshakeTimeout (p_settings p) = wc_HandshakeTimeoutSecs (c_Workers cfg) * Second) \<and>
    (wc_RespawnTimeoutSecs (c_Workers cfg) \<le> 9223372036 \<longrightarrow>
       ps_respawnTimeout (p_settings p) = wc_RespawnTimeoutSecs (c_Workers cfg) * Second) \<and>
    (\<exists>p'. Start None p = (None, p') \<and> p_running p' \<and> p_bootTime p' = Some (os_now os) \<and>
       p_workers p' = [] \<and>
       p_tasks p' = replicate (nat (GetMinWorkers (p_runtime p))) GoAddWorker @
         (if wc_FastWarmup (c_Workers cfg) \<and> GetMinWorkers (p_runtime p) < GetMaxWorkers (p_runtime p)
          then [GoFastWarmup] else []) @ [GoScalerLoop, GoHealthMonitor])"
proof -
  from assms(1,2) obtain cfg0 where loaded: "LoadConfig unmarshal file = Inr cfg0"
    and cfg: "cfg = override_workers fl (override_address fl cfg0)" and valid: "config_valid cfg"
    by (rule main_serves)
  have spawning: "0 < wc_SpawnTimeoutSecs (c_Workers cfg)" "0 < wc_HandshakeTimeoutSecs (c_Workers cfg)"
    "0 < wc_MaxParallelSpawns (c_Workers cfg)" "0 < wc_RespawnTimeoutSecs (c_Workers cfg)"
    by (simp_all add: cfg overridden_spawn_settings loaded_spawn_settings [OF loaded])
  from assms(3) have p: "p = NewWorkerPool tempDir os (pool_config cfg (new_runtime_config cfg))"
    by (simp add: NewServer_def)
  from valid have order: "1 \<le> wc_MinWorkers (c_Workers cfg)"
    "wc_MinWorkers (c_Workers cfg) \<le> wc_MaxWorkers (c_Workers cfg)" "1 \<le> sc_Port (c_Server cfg)"
    "sc_Port (c_Server cfg) \<le> 65535" "Second \<le> wc_Timeout (c_Workers cfg)"
    by (simp_all add: config_valid_def)
  then have runtime: "GetMinWorkers (p_runtime p) = wc_MinWorkers (c_Workers cfg)"
    "GetMaxWorkers (p_runtime p) = wc_MaxWorkers (c_Workers cfg)"
    by (simp_all add: p NewWorkerPool_def pool_config_def new_runtime_config_def NewRuntimeConfig_def
        GetMinWorkers_def GetMaxWorkers_def Let_def)
  have built: "cap (p_available p) = nat (wc_MaxWorkers (c_Workers cfg))"
    "cap (p_respawnSemaphore p) = nat (wc_MaxWorkers (c_Workers cfg))" "0 < cap (p_spawnSemaphore p)"
    "ps_workerTimeout (p_settings p) = wc_Timeout (c_Workers cfg)"
    "ps_spawnTimeout (p_settings p) = pos_or (120 * Second) (wrap64 (wc_SpawnTimeoutSecs (c_Workers cfg) * Second))"
    "ps_handshakeTimeout (p_settings p) = pos_or (15 * Second) (wrap64 (wc_HandshakeTimeoutSecs (c_Workers cfg) * Second))"
    "ps_respawnTimeout (p_settings p) = pos_or defaultRespawnTimeout (wrap64 (wc_RespawnTimeoutSecs (c_Workers cfg) * Second))"
    "ps_fastWarmup (p_settings p) = wc_FastWarmup (c_Workers cfg)"
    "\<not> p_running p" "p_os p = os" "p_tasks p = []" "p_workers p = []"
    using order spawning by (simp_all add: p NewWorkerPool_def pool_config_def pos_or_def make_chan_def Let_def)
  then have "\<exists>p'. Start None p = (None, p') \<and> p_running p' \<and> p_bootTime p' = Some (os_now os) \<and>
       p_workers p' = [] \<and>
       p_tasks p' = replicate (nat (wc_MinWorkers (c_Workers cfg))) GoAddWorker @
         (if wc_FastWarmup (c_Workers cfg) \<and> wc_MinWorkers (c_Workers cfg) < wc_MaxWorkers (c_Workers cfg)
          then [GoFastWarmup] else []) @ [GoScalerLoop, GoHealthMonitor]"
    by (simp add: Start_def runtime Let_def go_pow_boot now_def)
  with order spawning built show ?thesis by (simp add: runtime timeout_exact)
qed

theorem served_config_starts_pool_witness:
  "\<exists>p'. Start None (fst (NewServer ''/tmp'' demo_os DefaultConfig)) = (None, p') \<and> p_running p' \<and>
     p_tasks p' = [GoAddWorker, GoAddWorker, GoAddWorker, GoAddWorker, GoScalerLoop, GoHealthMonitor]"
proof -
  have m: "main (\<lambda>_ c. Inr c) FileMissing (\<lambda>_. ClientReply 200 None) demo_server demo_flags =
      ([PrintBanner, StartServer DefaultConfig], None)"
    using default_valid
    by (simp add: main_def LoadConfig_def demo_flags_def demo_server_def server_Start_def override_workers_def
        override_address_def Let_def)
  obtain p metrics logger where n: "NewServer ''/tmp'' demo_os DefaultConfig = (p, metrics, logger)" by (metis prod_cases3)
  then have "GetMinWorkers (p_runtime p) = 4" "GetMaxWorkers (p_runtime p) = 4"
    by (auto simp: NewServer_def NewWorkerPool_def pool_config_def new_runtime_config_def NewRuntimeConfig_def
        GetMinWorkers_def GetMaxWorkers_def Let_def DefaultConfig_def)
  with served_config_starts_pool [OF m _ n] n show ?thesis by (auto simp: numeral_eq_Suc)
qed

text \<open>C37. The flag \<open>-workers\<close> does not set the number of workers: with it, a valid configuration is accepted
  exactly when the number lies between its minimum and maximum, and then the pool that is built is the
  one without the flag, but for a field that nothing reads.\<close>

theorem workers_flag_without_effect:
  assumes "config_valid cfg" and "0 < fl_workers fl"
  shows "(Validate (override_workers fl cfg) = None \<longleftrightarrow>
        wc_MinWorkers (c_Workers cfg) \<le> fl_workers fl \<and> fl_workers fl \<le> wc_MaxWorkers (c_Workers cfg)) \<and>
     (let with_flag = fst (NewServer tempDir os (override_workers fl cfg)); without = fst (NewServer tempDir os cfg)
      in with_flag = without\<lparr>p_settings := (p_settings without)\<lparr>ps_initialWorkers := fl_workers fl\<rparr>\<rparr>)"
proof -
  from assms(1) have pos: "0 < wc_MinWorkers (c_Workers cfg)" "0 < wc_MaxWorkers (c_Workers cfg)"
    by (auto simp: config_valid_def)
  from assms have "Validate (override_workers fl cfg) = None \<longleftrightarrow>
      wc_MinWorkers (c_Workers cfg) \<le> fl_workers fl \<and> fl_workers fl \<le> wc_MaxWorkers (c_Workers cfg)"
    unfolding Validate_None_iff by (auto simp: config_valid_def override_workers_def)
  moreover from pos have "pos_or d (wc_MinWorkers (c_Workers cfg)) = wc_MinWorkers (c_Workers cfg)"
    "pos_or d (wc_MaxWorkers (c_Workers cfg)) = wc_MaxWorkers (c_Workers cfg)" for d
    by (simp_all add: pos_or_def)
  ultimately show ?thesis using assms(2)
    by (simp add: NewServer_def pool_config_def new_runtime_config_def override_workers_def NewWorkerPool_def Let_def)
qed

theorem workers_flag_without_effect_witness:
  "Validate (override_workers (demo_flags\<lparr>fl_workers := 8\<rparr>) DefaultConfig) \<noteq> None"
  using workers_flag_without_effect [of DefaultConfig "demo_flags\<lparr>fl_workers := 8\<rparr>"] default_valid
  by (simp add: Validate_None_iff demo_flags_def) (simp add: DefaultConfig_def)

end
