(* ===== verification/Scaling_Properties.thy ===== *)
theory Scaling_Properties
  imports Pool_Properties
begin

text \<open>
  Properties of shrinking the pool and of replacing its workers: what the scaler removes, where it
  stops, and how a respawn keeps the slots.
\<close>

section \<open>Removing idle workers\<close>

text \<open>What the scaler needs of the pool, with the queue as a list of workers.\<close>

definition shrinkable :: "addr list \<Rightarrow> int \<Rightarrow> pool \<Rightarrow> bool" where
  "shrinkable q minW s \<longleftrightarrow>
     buf (p_available s) = map Some q \<and> distinct q \<and> (\<forall>a \<in> set q. state_of s a = WorkerStateIdle) \<and>
     distinct (map (\<lambda>a. w_ID (worker s a)) (p_workers s)) \<and> 30 * Second \<le> since s (p_bootTime s) \<and>
     minW = GetMinWorkers (p_runtime s)"

lemma filter_remove_first: "length (filter Q xs) \<le> Suc (length (filter Q (remove_first P xs)))"
  by (induction xs) auto

lemma removeWorker_shrinks:
  assumes "shrinkable (a # q) minW s" and "minW < livingWorkerCount s"
  defines "s0 \<equiv> s\<lparr>p_available := (p_available s)\<lparr>buf := map Some q\<rparr>\<rparr>"
  shows "shrinkable q minW (removeWorker a s0) \<and> livingWorkerCount s - 1 \<le> livingWorkerCount (removeWorker a s0)"
proof -
  let ?s1 = "removeWorkerFromSlice (w_ID (worker s0 a)) s0"
  define s2 where s2: "s2 = add_active (- 1) (destroyWorker a ?s1)"
  let ?s3 = "removeWorker a s0"
  have s0: "p_heap s0 = p_heap s" "p_workers s0 = p_workers s" "p_runtime s0 = p_runtime s" "p_bootTime s0 = p_bootTime s"
    "now s0 = now s" by (simp_all add: s0_def now_def)
  have since: "since s0 t = since s t" for t by (simp add: since_def s0 split: option.split)
  have s3: "?s3 = (if p_activeWorkers s2 < wrap32 (GetMinWorkers (p_runtime ?s1))
      then s2\<lparr>p_activeWorkers := wrap32 (GetMinWorkers (p_runtime ?s1))\<rparr> else s2)"
    using assms(1,2) by (simp add: s2 removeWorker_def Let_def since s0 shrinkable_def livingWorkerCount_def
        countLivingWorkersLocked_def count_if_def)
  have t: "tidy s0 s2" unfolding s2 destroyWorker_def
    by (rule tidy_trans [OF tidy_trans [OF tidy_remove tidy_only_worker [OF only_worker_terminate]] tidy_add_active])
  have "local_op a ?s1 (terminateWorker a ?s1)" by (rule local_only_worker [OF only_worker_terminate])
  then have others: "worker s2 b = worker s b" if "b \<noteq> a" for b
    using that s0 by (simp add: s2 local_op_def destroyWorker_def removeWorkerFromSlice_def)
  have ids: "w_ID (worker s2 b) = w_ID (worker s b)" for b using t s0 by (simp add: tidy_def)
  have ws: "p_workers s2 = remove_first (\<lambda>b. w_ID (worker s b) = w_ID (worker s a)) (p_workers s)"
    using only_worker_frame(1) [OF only_worker_terminate [of a ?s1]] s0
    by (simp add: s2 destroyWorker_def removeWorkerFromSlice_def)
  let ?P = "\<lambda>b. w_ID (worker s b) = w_ID (worker s a)"
  have d: "distinct (map (\<lambda>b. w_ID (worker s b)) (p_workers s))" "a \<notin> set q" using assms(1) by (auto simp: shrinkable_def)
  have gone: "a \<notin> set (remove_first ?P (p_workers s))"
    using remove_first_unique [OF d(1), of "w_ID (worker s a)"] by simp
  have states: "state_of s2 b = state_of s b" if "b \<in> set (remove_first ?P (p_workers s)) \<union> set q" for b
  proof -
    have "b \<noteq> a" using that gone d(2) by blast
    from others [OF this] show ?thesis by (rule arg_cong)
  qed
  then have "livingWorkerCount s2 = int (length (filter (\<lambda>b. state_of s b \<noteq> WorkerStateDead) (remove_first ?P (p_workers s))))"
    by (simp add: livingWorkerCount_def countLivingWorkersLocked_def count_if_def ws cong: filter_cong)
  moreover have "livingWorkerCount s \<le> 1 + int (length (filter (\<lambda>b. state_of s b \<noteq> WorkerStateDead) (remove_first ?P (p_workers s))))"
    using filter_remove_first [of "\<lambda>b. state_of s b \<noteq> WorkerStateDead" "p_workers s" ?P]
    by (simp add: livingWorkerCount_def countLivingWorkersLocked_def count_if_def)
  ultimately have living: "livingWorkerCount s - 1 \<le> livingWorkerCount s2" by simp
  have "distinct (map (\<lambda>b. w_ID (worker s2 b)) (p_workers s2))"
    unfolding ws ids by (rule map_remove_first_distinct [OF d(1)])
  moreover have "buf (p_available s2) = map Some q" "p_runtime s2 = p_runtime s" "since s2 (p_bootTime s2) = since s (p_bootTime s)"
    using t s0 since by (simp_all add: tidy_def s0_def since_def split: option.split)
  ultimately have "shrinkable q minW s2"
    using assms(1) states by (simp add: shrinkable_def)
  then have "shrinkable q minW (s2\<lparr>p_activeWorkers := n\<rparr>)" for n
    by (simp add: shrinkable_def since_def now_def split: option.splits)
  moreover have "livingWorkerCount (s2\<lparr>p_activeWorkers := n\<rparr>) = livingWorkerCount s2" for n
    by (simp add: livingWorkerCount_def countLivingWorkersLocked_def count_if_def)
  ultimately show ?thesis using \<open>shrinkable q minW s2\<close> living s3 by simp
qed

lemma recv_head: "buf (p_available s) = w # q \<Longrightarrow> try_recv (p_available s) = Some (w, (p_available s)\<lparr>buf := q\<rparr>)"
  by (simp add: try_recv_def)

lemma aggressive_loop_shrinks:
  assumes "shrinkable q minW s" and "minW \<le> livingWorkerCount s"
  shows "\<exists>s'. aggressive_loop minW s = Some (False, s') \<and> minW \<le> livingWorkerCount s' \<and>
     (livingWorkerCount s' = minW \<or> buf (p_available s') = [])"
  using assms
proof (induction q arbitrary: s)
  case Nil
  then have "buf (p_available s) = []" by (simp add: shrinkable_def)
  with Nil show ?case by (subst aggressive_loop.simps) (auto simp: try_recv_def)
next
  case (Cons a q)
  show ?case
  proof (cases "livingWorkerCount s \<le> minW")
    case True
    with Cons.prems show ?thesis by (subst aggressive_loop.simps) auto
  next
    case False
    let ?s0 = "s\<lparr>p_available := (p_available s)\<lparr>buf := map Some q\<rparr>\<rparr>"
    have q: "buf (p_available s) = Some a # map Some q" "state_of s a = WorkerStateIdle"
      using Cons.prems by (auto simp: shrinkable_def)
    then have "take_idle (Some a) ?s0 = Some (removeWorker a ?s0)" by (simp add: take_idle_def)
    with False recv_head [OF q(1)] have "aggressive_loop minW s = aggressive_loop minW (removeWorker a ?s0)"
      by (subst aggressive_loop.simps) simp
    with removeWorker_shrinks [OF Cons.prems(1)] Cons.IH False show ?thesis by fastforce
  qed
qed

text \<open>C20. The aggressive scale-down ends and stops at the minimum: with a queue of idle workers, the loop
  removes queued workers one after another until exactly the minimum of workers lives or the queue is
  empty, never going below the minimum, and its goroutine goes on.\<close>

theorem scale_down_stops_at_minimum:
  assumes "buf (p_available s) = map Some q" and "distinct q" and "\<forall>a \<in> set q. state_of s a = WorkerStateIdle"
    and "distinct (map (\<lambda>a. w_ID (worker s a)) (p_workers s))"
    and "30 * Second \<le> since s (p_bootTime s)" and "GetMinWorkers (p_runtime s) \<le> livingWorkerCount s"
  shows "\<exists>s'. aggressive_loop (GetMinWorkers (p_runtime s)) s = Some (False, s') \<and>
     GetMinWorkers (p_runtime s) \<le> livingWorkerCount s' \<and>
     (livingWorkerCount s' = GetMinWorkers (p_runtime s) \<or> buf (p_available s') = [])"
  using aggressive_loop_shrinks [of q "GetMinWorkers (p_runtime s)" s] assms by (simp add: shrinkable_def)

text \<open>Two idle workers, a minimum of one, a minute after the start.\<close>

definition idle_pool :: pool where
  "idle_pool = demo_start\<lparr>p_available := \<lparr>buf = [Some 0, Some 1], cap = 2\<rparr>, p_workers := [0, 1], p_nextAddr := 2,
     p_heap := (\<lambda>_. unallocated)(0 := demo_worker WorkerStateIdle, 1 := (demo_worker WorkerStateIdle)\<lparr>w_ID := 1, w_cmd := NilCmd\<rparr>),
     p_os := demo_alive\<lparr>os_now := 60 * Second\<rparr>\<rparr>"

lemma idle_pool_fields:
  "since idle_pool (p_bootTime idle_pool) = 60 * Second" "livingWorkerCount idle_pool = 2"
  "GetMinWorkers (p_runtime idle_pool) = 1" "buf (p_available idle_pool) = map Some [0, 1]" "p_workers idle_pool = [0, 1]"
  "w_ID (worker idle_pool 0) = 0" "w_ID (worker idle_pool 1) = 1" "state_of idle_pool 0 = WorkerStateIdle"
  "state_of idle_pool 1 = WorkerStateIdle"
  by (simp_all add: idle_pool_def since_def now_def demo_start_def livingWorkerCount_def countLivingWorkersLocked_def
      count_if_def demo_worker_def new_worker_def NewWorkerPool_def demo_config_def pool_config_def DefaultConfig_def
      pos_or_def NewRuntimeConfig_def GetMinWorkers_def Let_def)

theorem scale_down_stops_at_minimum_witness:
  "\<exists>s'. aggressive_loop 1 idle_pool = Some (False, s') \<and> 1 \<le> livingWorkerCount s'"
  using scale_down_stops_at_minimum [of idle_pool "[0, 1]", OF idle_pool_fields(4)] idle_pool_fields
  by (auto simp: Second_def)

section \<open>Replacing a worker\<close>

lemma replace_first_other:
  "distinct (map f xs) \<Longrightarrow> x \<in> set (replace_first (\<lambda>z. f z = k) y xs) \<Longrightarrow> x = y \<or> (x \<in> set xs \<and> f x \<noteq> k) \<or> (\<forall>z \<in> set xs. f z \<noteq> k)"
proof (induction xs)
  case (Cons z zs)
  show ?case
  proof (cases "f z = k")
    case True
    with Cons.prems(1) have "\<forall>w \<in> set zs. f w \<noteq> k" by (metis distinct.simps(2) image_eqI list.set_map list.simps(9))
    with Cons.prems(2) True show ?thesis by auto
  next
    case False
    with Cons.prems have "x = z \<or> x \<in> set (replace_first (\<lambda>z. f z = k) y zs)" by auto
    with Cons.IH Cons.prems(1) False show ?thesis by auto
  qed
qed simp

text \<open>Starting the new process touches neither the slots nor the workers in them.\<close>

lemma respawn_spawned:
  assumes "respawnWorker old env s = Some (r, s')" and "se_hook env = None" and "slots_ok s"
  obtains s1 where "s' = respawn_end (w_ID (worker s old)) r s1" "p_workers s1 = p_workers s"
    "\<And>a. a \<in> set (p_workers s) \<Longrightarrow> w_ID (worker s1 a) = w_ID (worker s a)"
    "\<And>b. r = Inr b \<Longrightarrow> w_ID (worker s1 b) = w_ID (worker s old)"
    "p_slotLocks s1 (w_ID (worker s old)) = Some False"
proof -
  let ?s0 = "respawn_begin old s" and ?i = "w_ID (worker s old)"
  have start: "flow {#} {#} s ?s0"
    unfolding respawn_begin_def by (rule flow_tidy [OF tidy_trans [OF tidy_only_worker [OF only_worker_terminate] tidy_add_active]])
  have s0: "p_workers ?s0 = p_workers s" "p_nextAddr ?s0 = p_nextAddr s" "w_ID (worker ?s0 a) = w_ID (worker s a)" for a
    using only_worker_frame(2) [OF only_worker_terminate [of old s]] flow_frame_simps(1,10) [OF start]
    by (simp_all add: respawn_begin_def)
  with assms(1) obtain s3 where d: "doSpawnWorker ?i env ?s0 = Some (r, s3)" and s': "s' = respawn_end ?i r s3"
    by (auto simp: respawnWorker_def Let_def)
  then obtain s2 where e: "spawn_enter ?i ?s0 = Some s2"
    and s3: "s3 = spawn_leave ?i (snd (spawnWorker ?i env s2))" "r = fst (spawnWorker ?i env s2)"
    using assms(2) by (auto simp: doSpawnWorker_def case_prod_unfold)
  note en = spawn_enter_frame [OF e]
  have ids: "w_ID (worker s3 a) = w_ID (worker s a)" if "a \<in> set (p_workers s)" for a
  proof -
    have "a \<noteq> p_nextAddr s2" using that assms(3) en(4) s0(2) by (auto simp: slots_ok_def)
    then show ?thesis using spawnWorker_frame(6) [of a s2 ?i env] s3(1) en(2) s0(3) by simp
  qed
  have new: "w_ID (worker s3 b) = ?i" if "r = Inr b" for b
    using spawnWorker_ok(2) [of ?i env s2 b "snd (spawnWorker ?i env s2)"] s3 that by (metis prod.collapse spawn_leave_frame(2))
  have "p_slotLocks s3 ?i = Some False" by (simp add: s3(1) spawn_leave_def unlockWorkerSlot_def Let_def)
  moreover have "p_workers s3 = p_workers s" using s3(1) spawnWorker_frame(1) [of ?i env s2] en(1) s0(1) by simp
  ultimately show ?thesis using s' ids new by (intro that [of s3]) simp_all
qed

text \<open>C19. A respawn keeps the slots: if it succeeds, the slots hold the same ids in the same order, with the
  new worker in the place of the old one (at the end, if the old one had lost its slot meanwhile), and no
  other worker with the old id; if it fails, exactly the old slot is given up. In both cases the lock of
  the id is free again.\<close>

theorem respawn_keeps_slots:
  assumes "respawnWorker old env s = Some (r, s')" and "se_hook env = None" and "slots_ok s"
  shows "p_slotLocks s' (w_ID (worker s old)) = Some False \<and>
     (case r of
        Inr b \<Rightarrow> slot_ids s' = (if w_ID (worker s old) \<in> set (slot_ids s) then slot_ids s else slot_ids s @ [w_ID (worker s old)]) \<and>
          b \<in> set (p_workers s') \<and> (\<forall>a \<in> set (p_workers s'). w_ID (worker s' a) = w_ID (worker s old) \<longrightarrow> a = b)
      | Inl e \<Rightarrow> p_workers s' = filter (\<lambda>a. w_ID (worker s a) \<noteq> w_ID (worker s old)) (p_workers s))"
proof (rule respawn_spawned [OF assms])
  fix s1
  let ?i = "w_ID (worker s old)"
  assume s': "s' = respawn_end ?i r s1" and ws: "p_workers s1 = p_workers s"
    and ids: "\<And>a. a \<in> set (p_workers s) \<Longrightarrow> w_ID (worker s1 a) = w_ID (worker s a)"
    and new: "\<And>b. r = Inr b \<Longrightarrow> w_ID (worker s1 b) = ?i" and unlocked: "p_slotLocks s1 ?i = Some False"
  have d: "distinct (map (\<lambda>a. w_ID (worker s1 a)) (p_workers s))"
    using assms(3) ids by (simp add: slots_ok_def slot_ids_def cong: map_cong)
  have slots: "slot_ids s = map (\<lambda>a. w_ID (worker s1 a)) (p_workers s)" using ids by (simp add: slot_ids_def)
  show ?thesis
  proof (cases r)
    case (Inl e)
    have "p_workers s' = remove_first (\<lambda>a. w_ID (worker s1 a) = ?i) (p_workers s)"
      using Inl s' ws by (auto simp: respawn_end_def removeWorkerFromSliceIfPresent_def)
    then have "p_workers s' = filter (\<lambda>a. w_ID (worker s a) \<noteq> ?i) (p_workers s)"
      using remove_first_unique [OF d] ids by (simp cong: filter_cong)
    moreover have "p_slotLocks s' = p_slotLocks s1"
      using Inl s' by (auto simp: respawn_end_def removeWorkerFromSliceIfPresent_def)
    ultimately show ?thesis using Inl unlocked by simp
  next
    case (Inr b)
    let ?ws = "replace_first (\<lambda>a. w_ID (worker s1 a) = ?i) b (p_workers s)"
    have has_slot: "(\<exists>a \<in> set (p_workers s). w_ID (worker s1 a) = ?i) \<longleftrightarrow> ?i \<in> set (slot_ids s)"
      unfolding slots by force
    have p: "p_workers s' = (if ?i \<in> set (slot_ids s) then ?ws else p_workers s @ [b])" "p_heap s' = p_heap s1"
      "p_slotLocks s' = p_slotLocks s1"
      using Inr s' ws has_slot by (auto simp: respawn_end_def put_in_slot_def add_active_def)
    have "map (\<lambda>a. w_ID (worker s1 a)) ?ws = slot_ids s"
      unfolding slots using new [OF Inr] by (intro map_replace_first_same) simp
    moreover have "b \<in> set ?ws" if "?i \<in> set (slot_ids s)"
      using that slots by (intro replace_first_member) auto
    moreover have "a = b" if "a \<in> set ?ws" "w_ID (worker s1 a) = ?i" "?i \<in> set (slot_ids s)" for a
      using replace_first_other [OF d that(1)] that(2,3) slots by auto
    moreover have "a \<notin> set (p_workers s)" if "w_ID (worker s1 a) = ?i" "?i \<notin> set (slot_ids s)" for a
      using that has_slot by blast
    ultimately show ?thesis using Inr p new [OF Inr] unlocked slots
      by (cases "?i \<in> set (slot_ids s)") (auto simp: slot_ids_def)
  qed
qed

lemma demo_respawns: "\<exists>r s'. respawnWorker 0 demo_spawn demo_busy = Some (r, s')"
proof -
  let ?s0 = "respawn_begin 0 demo_busy"
  have "flow {#} {#} demo_busy ?s0"
    unfolding respawn_begin_def by (rule flow_tidy [OF tidy_trans [OF tidy_only_worker [OF only_worker_terminate] tidy_add_active]])
  note f = flow_frame_simps(4,5,7,10) [OF this]
  have "p_slotLocks demo_busy 0 = Some False" "p_spawnSemaphore demo_busy = make_chan 4" "p_ctxDone demo_busy = False"
    "w_ID (worker demo_busy 0) = 0"
    by (simp_all add: demo_busy_fields demo_worker_def new_worker_def)
       (simp_all add: demo_busy_def demo_spawned_def demo_reserved_def demo_fields)
  with f show ?thesis
    by (simp add: respawnWorker_def Let_def doSpawnWorker_def spawn_enter_def spawn_lock_def lockWorkerSlot_def acquireSpawnSlot_def
        sem_acquire_def try_send_def make_chan_def demo_spawn_def case_prod_unfold)
qed

theorem respawn_keeps_slots_witness:
  "\<exists>r s'. respawnWorker 0 demo_spawn demo_busy = Some (r, s') \<and> p_slotLocks s' 0 = Some False"
proof -
  obtain r s' where r: "respawnWorker 0 demo_spawn demo_busy = Some (r, s')" using demo_respawns by blast
  have "slots_ok (sys_pool demo)" using reachable_inv [OF demo_reachable] by (simp add: inv_def)
  then have "slots_ok demo_busy" by (simp add: demo_def)
  from respawn_keeps_slots [OF r _ this] r show ?thesis
    by (auto simp: demo_spawn_def demo_busy_fields demo_worker_def new_worker_def)
qed

end
