(* ===== verification/Growth_Properties.thy ===== *)
theory Growth_Properties
  imports Runtime_Properties
begin

text \<open>
  How far the pool can grow. \<open>addWorker\<close> bounds the pool by \<open>activeWorkers\<close>, which counts the reserved
  workers too; but every check of the health monitor, every pruning and every compaction sets that
  counter to the workers in the slots, and with this forgets the workers that are still being
  started. The property is a run of the engine that passes the maximum in this way; it takes one
  check of the health monitor and one request while the first worker boots.
\<close>

section \<open>Small facts for the run\<close>

lemma demo_more_fields:
  "p_queuedRequests demo_start = 0" "p_ensureMinLast demo_start = None" "os_now demo_os = 0"
  by (simp_all add: demo_start_def NewWorkerPool_def Let_def demo_os_def)

lemma no_drain: "buf (p_available s) = [] \<Longrightarrow> compactAvailableQueue s = (0, s)"
  by (simp add: compactAvailableQueue_def Let_def drain_loop.simps try_recv_def)

lemma no_prune: "p_workers s = [] \<Longrightarrow> pruneDeadWorkers s = (0, s)"
  by (cases s) (simp add: pruneDeadWorkers_def pruneDeadWorkersLocked_filter)

lemma take_go: "GoAddWorker \<notin> set (p_tasks s) \<Longrightarrow> take_task GoAddWorker (go GoAddWorker s) = s"
  by (cases s) (simp add: take_task_def go_def remove1_append)

section \<open>Past the maximum\<close>

text \<open>The states of the run, from the health check during the first boot to two workers in the pool.\<close>

definition over_checked :: pool where
  "over_checked = demo_entered\<lparr>p_activeWorkers := 0, p_ensureMinLast := Some 0\<rparr>"

definition over_reserved :: pool where
  "over_reserved = over_checked\<lparr>p_queuedRequests := 1, p_activeWorkers := 1, p_nextWorkerID := 2\<rparr>"

definition over_locked :: pool where
  "over_locked = over_reserved\<lparr>p_slotLocks := (\<lambda>_. None)(0 \<mapsto> True, 1 \<mapsto> True), p_spawnInFlight := 2\<rparr>"

definition over_spawning :: pool where
  "over_spawning = over_locked\<lparr>p_spawnSemaphore := \<lparr>buf = [(), ()], cap = 4\<rparr>\<rparr>"

lemma over_check: "checkAndRespawnDeadWorkers demo_entered = over_checked"
  using no_drain [of demo_entered] no_prune [of demo_entered] no_prune [of "demo_entered\<lparr>p_activeWorkers := 0\<rparr>"]
  by (simp add: checkAndRespawnDeadWorkers_def Let_def reconcileStuckWorkers_def syncActiveWorkersCount_def count_defs
      ensureMinWorkers_def spawnCircuitOpen_def demo_entered_def demo_reserved_def demo_fields demo_more_fields
      make_chan_def GetMinWorkers_def over_checked_def now_def)

lemma over_request:
  "GetWorker (\<lambda>_. False) CtxActive over_checked = ((Waiting, True), go GoAddWorker (over_checked\<lparr>p_queuedRequests := 1\<rparr>))"
  using no_drain [of over_checked] no_prune [of over_checked]
  by (simp add: GetWorker_def tryGetWorker_def try_recv_def Let_def admit_def GetBackpressureEnabled_def
      GetBackpressureMaxQueue_def demo_fields demo_more_fields scale_on_demand_def spawnCircuitOpen_def count_defs
      GetMaxWorkers_def get_resume_def get_wait.simps leave_queue_def countAvailableQueued_def go_def
      over_checked_def demo_entered_def demo_reserved_def make_chan_def)

lemma over_add:
  "addWorker (over_checked\<lparr>p_queuedRequests := 1\<rparr>) = Some (go (GoSpawnWorker 1) over_reserved)"
  by (simp add: addWorker_def spawnCircuitOpen_def count_defs GetMaxWorkers_def demo_fields reserve_slot_now
      nextWorkerID_def Let_def add_active_def over_checked_def over_reserved_def demo_entered_def demo_reserved_def go_def)

lemma over_lock: "spawn_lock 1 over_reserved = Some over_locked" "acquireSpawnSlot over_locked = Some over_spawning"
  by (simp_all add: spawn_lock_def lockWorkerSlot_def acquireSpawnSlot_def over_locked_def over_spawning_def
      over_reserved_def over_checked_def demo_entered_def demo_reserved_def demo_fields sem_acquire_def try_send_def
      make_chan_def fun_upd_twist)

definition over_first :: pool where
  "over_first = over_spawning\<lparr>p_heap := (\<lambda>_. unallocated)(0 := demo_worker WorkerStateIdle), p_nextAddr := 1,
     p_os := demo_alive, p_slotLocks := (\<lambda>_. None)(0 \<mapsto> False, 1 \<mapsto> True), p_spawnInFlight := 1,
     p_spawnSemaphore := \<lparr>buf = [()], cap = 4\<rparr>, p_workers := [0], p_available := \<lparr>buf = [Some 0], cap = 1\<rparr>\<rparr>"

definition over_taken :: pool where
  "over_taken = over_first\<lparr>p_heap := (\<lambda>_. unallocated)(0 := demo_worker WorkerStateBusy), p_busyWorkers := 1,
     p_queuedRequests := 0, p_available := \<lparr>buf = [], cap = 1\<rparr>\<rparr>"

definition over_worker :: Worker where
  "over_worker = (new_worker 1 8 demo_start)\<lparr>w_listener := NilHandle, w_conn := OpenHandle, w_waitOnce := True,
     w_reaping := True, w_state := WorkerStateIdle\<rparr>"

definition over_end :: pool where
  "over_end = over_taken\<lparr>p_heap := (\<lambda>_. unallocated)(0 := demo_worker WorkerStateBusy, 1 := over_worker), p_nextAddr := 2,
     p_os := demo_os\<lparr>os_alive := (\<lambda>_. False)(7 := True, 8 := True)\<rparr>, p_slotLocks := (\<lambda>_. None)(0 \<mapsto> False, 1 \<mapsto> False),
     p_spawnInFlight := 0, p_spawnSemaphore := \<lparr>buf = [], cap = 4\<rparr>, p_workers := [0, 1],
     p_available := \<lparr>buf = [Some 1], cap = 1\<rparr>\<rparr>"

lemmas over_defs = over_spawning_def over_locked_def over_reserved_def over_checked_def demo_entered_def
  demo_reserved_def demo_fields demo_more_fields

lemma demo_handshake: "handshake_with ps \<lparr>rd_data = bytes_of ''OK'', rd_end = EOF\<rparr> None None = None"
proof -
  have "length (bytes_of ''OK'') = 2" by (simp add: bytes_of_def)
  then show ?thesis
    by (simp add: handshake_with_def HandshakeWithTimeout_def Handshake_def ReadFull_def HandshakeOK_def)
qed

lemma over_spawn_first:
  "spawnWorker 0 demo_spawn over_spawning = (Inr 0, over_spawning\<lparr>
     p_heap := (\<lambda>_. unallocated)(0 := demo_worker WorkerStateIdle), p_nextAddr := 1, p_os := demo_alive\<rparr>)"
  by (simp add: spawnWorker_def demo_spawn_def listenUnix_def unixBindRetries_def numeral_eq_Suc Let_def allocate_def
      over_defs process_started_def startReaper_def upd_worker_def spawn_select_def demo_handshake
      set_state_def demo_worker_def new_worker_def demo_alive_def demo_os_def now_def)

lemma over_finish_first:
  "afterSpawn (Inr 0) (spawn_leave 0 (over_spawning\<lparr>p_heap := (\<lambda>_. unallocated)(0 := demo_worker WorkerStateIdle),
     p_nextAddr := 1, p_os := demo_alive\<rparr>)) = over_first"
  by (simp add: afterSpawn_def finishAddWorker_def spawn_leave_def releaseSpawnSlot_def unlockWorkerSlot_def Let_def
      noteSpawnSuccess_def pruneDeadWorkersLocked_filter over_defs over_first_def fun_upd_twist
      sem_release_def try_recv_def releaseWorkerToAvailable_def tryPushAvailable_def try_send_def make_chan_def
      demo_worker_def new_worker_def set_state_def upd_worker_def isProcessDead_def signal0_def demo_alive_def)

lemma over_take: "get_resume True (\<lambda>_. False) CtxActive over_first = (Got 0, over_taken)"
  by (simp add: get_resume_def get_wait.simps leave_queue_def try_recv_def validateAndPrepareWorker_def isWorkerDead_def
      over_first_def over_taken_def over_defs demo_worker_def new_worker_def demo_alive_def demo_os_def
      make_chan_def signal0_def upd_worker_def Let_def now_def)

lemma over_spawn_second:
  "spawnWorker 1 (demo_spawn\<lparr>se_start := Inr 8\<rparr>) over_taken = (Inr 1, over_taken\<lparr>
     p_heap := (\<lambda>_. unallocated)(0 := demo_worker WorkerStateBusy, 1 := over_worker), p_nextAddr := 2,
     p_os := demo_os\<lparr>os_alive := (\<lambda>_. False)(7 := True, 8 := True)\<rparr>\<rparr>)"
  by (simp add: spawnWorker_def demo_spawn_def listenUnix_def unixBindRetries_def numeral_eq_Suc Let_def allocate_def
      over_taken_def over_first_def over_defs process_started_def startReaper_def upd_worker_def spawn_select_def
      demo_handshake set_state_def over_worker_def new_worker_def demo_alive_def demo_os_def now_def)

lemma over_finish_second:
  "afterSpawn (Inr 1) (spawn_leave 1 (over_taken\<lparr>
     p_heap := (\<lambda>_. unallocated)(0 := demo_worker WorkerStateBusy, 1 := over_worker), p_nextAddr := 2,
     p_os := demo_os\<lparr>os_alive := (\<lambda>_. False)(7 := True, 8 := True)\<rparr>\<rparr>)) = over_end"
  by (simp add: afterSpawn_def finishAddWorker_def spawn_leave_def releaseSpawnSlot_def unlockWorkerSlot_def Let_def
      noteSpawnSuccess_def pruneDeadWorkersLocked_filter over_defs over_first_def over_taken_def over_end_def
      sem_release_def try_recv_def releaseWorkerToAvailable_def tryPushAvailable_def try_send_def make_chan_def
      demo_worker_def over_worker_def new_worker_def set_state_def upd_worker_def isProcessDead_def signal0_def)

definition over_at :: "pool \<Rightarrow> addr list \<Rightarrow> bool list \<Rightarrow> (int \<times> addr option) list \<Rightarrow> int list \<Rightarrow> system" where
  "over_at s held waiting sp sl =
     \<lparr>sys_pool = s, sys_held = held, sys_waiting = waiting, sys_spawning = sp, sys_slotted = sl, sys_locking = []\<rparr>"

text \<open>A second spawn begins while the first worker boots.\<close>

lemma over_second_spawn:
  "steady_step\<^sup>*\<^sup>* demo_spawning (over_at over_spawning [] [True] [(1, None), (0, None)] [1, 0])"
proof -
  let ?z1 = "over_at over_checked [] [] [(0, None)] [0]"
  let ?z2 = "over_at (go GoAddWorker (over_checked\<lparr>p_queuedRequests := 1\<rparr>)) [] [True] [(0, None)] [0]"
  let ?z3 = "over_at (go (GoSpawnWorker 1) over_reserved) [] [True] [(0, None)] [0]"
  let ?z4 = "over_at over_locked [] [True] [(1, None), (0, None)] [0]"
  let ?z5 = "over_at over_spawning [] [True] [(1, None), (0, None)] [1, 0]"
  have 1: "steady_step demo_spawning ?z1"
    using step.health [of demo_spawning] over_check
    by (intro steadyI) (simp_all add: demo_spawning_def demo_at_def over_at_def over_defs)
  have 2: "steady_step ?z1 ?z2"
    using step.request [of "\<lambda>_. False" CtxActive ?z1] over_request
    by (intro steadyI) (simp_all add: over_at_def settle_def go_def)
  have "take_task GoAddWorker (sys_pool ?z2) = over_checked\<lparr>p_queuedRequests := 1\<rparr>"
    unfolding over_at_def system.simps by (rule take_go) (simp add: over_defs)
  then have 3: "steady_step ?z2 ?z3"
    using step.add_worker [of ?z2 "go (GoSpawnWorker 1) over_reserved"] over_add
    by (intro steadyI) (simp_all add: over_at_def go_def over_defs)
  have "take_task (GoSpawnWorker 1) (sys_pool ?z3) = over_reserved"
    by (simp add: over_at_def go_def take_task_def over_defs)
  then have 4: "steady_step ?z3 ?z4"
    using step.spawn_begin [of 1 ?z3 over_locked] over_lock(1)
    by (intro steadyI) (simp_all add: over_at_def go_def over_locked_def)
  have 5: "steady_step ?z4 ?z5"
    using step.spawn_slot [of 1 None ?z4 over_spawning] over_lock(2)
    by (intro steadyI) (simp_all add: over_at_def over_spawning_def)
  show ?thesis using 1 2 3 4 5 by (simp add: rtranclp.rtrancl_into_rtrancl)
qed

text \<open>The first worker is ready, the waiting request takes it, and the second worker is ready.\<close>

lemma over_both_ready:
  "steady_step\<^sup>*\<^sup>* (over_at over_spawning [] [True] [(1, None), (0, None)] [1, 0]) (over_at over_end [0] [] [] [])"
proof -
  let ?z1 = "over_at over_first [] [True] [(1, None)] [1]"
  let ?z2 = "over_at over_taken [0] [] [(1, None)] [1]"
  have 1: "steady_step (over_at over_spawning [] [True] [(1, None), (0, None)] [1, 0]) ?z1"
    using step.spawn_end [of 0 "over_at over_spawning [] [True] [(1, None), (0, None)] [1, 0]" demo_spawn]
      over_spawn_first over_finish_first
    by (intro steadyI) (simp_all add: over_at_def over_first_def)
  have 2: "steady_step ?z1 ?z2"
    using step.resume [of True ?z1 "\<lambda>_. False" CtxActive] over_take
    by (intro steadyI) (simp_all add: over_at_def settle_def over_taken_def)
  have 3: "steady_step ?z2 (over_at over_end [0] [] [] [])"
    using step.spawn_end [of 1 ?z2 "demo_spawn\<lparr>se_start := Inr 8\<rparr>"] over_spawn_second over_finish_second
    by (intro steadyI) (simp_all add: over_at_def over_end_def)
  show ?thesis using 1 2 3 by (simp add: rtranclp.rtrancl_into_rtrancl)
qed

text \<open>C31. The pool can grow past \<open>max_workers\<close>: from the start of an engine with a maximum of one worker,
  without a change of its configuration and without any fault, a state is reached in which two workers
  live in its slots, one of them serving a request and the other one ready in the queue, both with a
  running process. The second was started because a check of the health monitor during the first boot
  had reset the counter that \<open>addWorker\<close> compares with the maximum.\<close>

theorem maximum_exceeded:
  "\<exists>z. steady_step\<^sup>*\<^sup>* (initial '''' demo_os demo_config) z \<and> GetMaxWorkers (p_runtime (sys_pool z)) = 1 \<and>
     livingWorkerCount (sys_pool z) = 2 \<and>
     map (state_of (sys_pool z)) (p_workers (sys_pool z)) = [WorkerStateBusy, WorkerStateIdle] \<and>
     map (\<lambda>a. isProcessDead a (sys_pool z)) (p_workers (sys_pool z)) = [False, False]"
proof (intro exI conjI)
  let ?z = "over_at over_end [0] [] [] []"
  show "steady_step\<^sup>*\<^sup>* (initial '''' demo_os demo_config) ?z"
    by (rule rtranclp_trans [OF demo_spawning_run rtranclp_trans [OF over_second_spawn over_both_ready]])
  show "GetMaxWorkers (p_runtime (sys_pool ?z)) = 1"
    by (simp add: over_at_def over_end_def over_taken_def over_first_def over_defs GetMaxWorkers_def)
  show "livingWorkerCount (sys_pool ?z) = 2"
    by (simp add: over_at_def over_end_def count_defs demo_worker_def over_worker_def)
  show "map (state_of (sys_pool ?z)) (p_workers (sys_pool ?z)) = [WorkerStateBusy, WorkerStateIdle]"
    by (simp add: over_at_def over_end_def demo_worker_def over_worker_def)
  show "map (\<lambda>a. isProcessDead a (sys_pool ?z)) (p_workers (sys_pool ?z)) = [False, False]"
    by (simp add: over_at_def over_end_def demo_worker_def over_worker_def new_worker_def isProcessDead_def signal0_def)
qed

end
