(* ===== verification/Allocation.thy ===== *)
theory Allocation
  imports Runtime_Properties
begin

text \<open>
  What the pool promises, without its machinery: an allocator of workers. It keeps the workers that
  are free, those that requests have, and those whose return is pending because the queue is full;
  workers are born with increasing addresses, and free ones may be lost at any time, because their
  process died or the pool shrinks. Every step of the engine is a step of the allocator.
\<close>

section \<open>The abstract allocator\<close>

record allocator =
  al_free :: "addr set"
  al_taken :: "addr set"
  al_pending :: "addr set"
  al_born :: addr

inductive alloc_step :: "allocator \<Rightarrow> allocator \<Rightarrow> bool" where
  lose: "Q \<subseteq> al_free A \<Longrightarrow> alloc_step A (A\<lparr>al_free := Q\<rparr>)"
| grant: "a \<in> al_free A \<Longrightarrow> Q \<subseteq> al_free A - {a} \<Longrightarrow>
    alloc_step A (A\<lparr>al_free := Q, al_taken := insert a (al_taken A)\<rparr>)"
| give_back: "a \<in> al_taken A \<Longrightarrow> Q \<subseteq> insert a (al_free A) \<Longrightarrow>
    alloc_step A (A\<lparr>al_free := Q, al_taken := al_taken A - {a}\<rparr>)"
| give_back_later: "a \<in> al_taken A \<Longrightarrow> Q \<subseteq> al_free A \<Longrightarrow>
    alloc_step A (A\<lparr>al_free := Q, al_taken := al_taken A - {a}, al_pending := insert a (al_pending A)\<rparr>)"
| settle_pending: "a \<in> al_pending A \<Longrightarrow> Q \<subseteq> insert a (al_free A) \<Longrightarrow>
    alloc_step A (A\<lparr>al_free := Q, al_pending := al_pending A - {a}\<rparr>)"
| bear: "Q \<subseteq> insert (al_born A) (al_free A) \<Longrightarrow>
    alloc_step A (A\<lparr>al_free := Q, al_born := Suc (al_born A)\<rparr>)"
| bear_later: "Q \<subseteq> al_free A \<Longrightarrow>
    alloc_step A (A\<lparr>al_free := Q, al_pending := insert (al_born A) (al_pending A), al_born := Suc (al_born A)\<rparr>)"

inductive alloc_reachable :: "allocator \<Rightarrow> bool" where
  none_born: "alloc_reachable \<lparr>al_free = {}, al_taken = {}, al_pending = {}, al_born = 0\<rparr>"
| alloc_steps: "alloc_reachable A \<Longrightarrow> alloc_step A B \<Longrightarrow> alloc_reachable B"

text \<open>The allocator never has a worker in two places, nor one that was not born.\<close>

definition alloc_ok :: "allocator \<Rightarrow> bool" where
  "alloc_ok A \<longleftrightarrow>
     al_free A \<inter> al_taken A = {} \<and> al_free A \<inter> al_pending A = {} \<and> al_taken A \<inter> al_pending A = {} \<and>
     (\<forall>a \<in> al_free A \<union> al_taken A \<union> al_pending A. a < al_born A)"

lemma alloc_step_ok: "alloc_step A B \<Longrightarrow> alloc_ok A \<Longrightarrow> alloc_ok B"
proof (induction rule: alloc_step.induct)
  case (bear Q A)
  then have "al_born A \<notin> al_taken A \<union> al_pending A" by (auto simp: alloc_ok_def)
  with bear show ?case by (auto simp: alloc_ok_def intro: less_SucI)
next
  case (bear_later Q A)
  then have "al_born A \<notin> al_free A \<union> al_taken A" by (auto simp: alloc_ok_def)
  with bear_later show ?case by (auto simp: alloc_ok_def intro: less_SucI)
qed (unfold alloc_ok_def, auto)

lemma alloc_reachable_ok: "alloc_reachable A \<Longrightarrow> alloc_ok A"
  by (induction rule: alloc_reachable.induct) (simp add: alloc_ok_def, rule alloc_step_ok)

section \<open>The abstraction\<close>

definition queue_set :: "pool \<Rightarrow> addr set" where
  "queue_set s = {a. Some a \<in> set (buf (p_available s))}"

definition parked_set :: "pool \<Rightarrow> addr set" where
  "parked_set s = fst ` set (p_parked s)"

definition abstract :: "system \<Rightarrow> allocator" where
  "abstract z =
     \<lparr>al_free = queue_set (sys_pool z), al_taken = set (sys_held z),
      al_pending = parked_set (sys_pool z), al_born = p_nextAddr (sys_pool z)\<rparr>"

lemma abstract_sel [simp]:
  "al_free (abstract z) = queue_set (sys_pool z)" "al_taken (abstract z) = set (sys_held z)"
  "al_pending (abstract z) = parked_set (sys_pool z)" "al_born (abstract z) = p_nextAddr (sys_pool z)"
  by (simp_all add: abstract_def)

text \<open>The steps of the allocator by the fields of the states.\<close>

lemma alloc_stepI:
  assumes "al_born B = al_born A"
  shows "al_free B \<subseteq> al_free A \<Longrightarrow> al_taken B = al_taken A \<Longrightarrow> al_pending B = al_pending A \<Longrightarrow> alloc_step A B"
    and "a \<in> al_free A \<Longrightarrow> al_free B \<subseteq> al_free A - {a} \<Longrightarrow> al_taken B = insert a (al_taken A) \<Longrightarrow>
      al_pending B = al_pending A \<Longrightarrow> alloc_step A B"
    and "a \<in> al_taken A \<Longrightarrow> al_free B \<subseteq> insert a (al_free A) \<Longrightarrow> al_taken B = al_taken A - {a} \<Longrightarrow>
      al_pending B = al_pending A \<Longrightarrow> alloc_step A B"
    and "a \<in> al_taken A \<Longrightarrow> al_free B \<subseteq> al_free A \<Longrightarrow> al_taken B = al_taken A - {a} \<Longrightarrow>
      al_pending B = insert a (al_pending A) \<Longrightarrow> alloc_step A B"
    and "a \<in> al_pending A \<Longrightarrow> al_free B \<subseteq> insert a (al_free A) \<Longrightarrow> al_taken B = al_taken A \<Longrightarrow>
      al_pending B = al_pending A - {a} \<Longrightarrow> alloc_step A B"
  using assms lose [of "al_free B" A] grant [of a A "al_free B"] give_back [of a A "al_free B"]
    give_back_later [of a A "al_free B"] settle_pending [of a A "al_free B"]
  by (cases A; cases B; simp)+

lemma alloc_bornI:
  assumes "al_born B = Suc (al_born A)" and "al_taken B = al_taken A"
  shows "al_free B \<subseteq> insert (al_born A) (al_free A) \<Longrightarrow> al_pending B = al_pending A \<Longrightarrow> alloc_step A B"
    and "al_free B \<subseteq> al_free A \<Longrightarrow> al_pending B = insert (al_born A) (al_pending A) \<Longrightarrow> alloc_step A B"
  using assms bear [of "al_free B" A] bear_later [of "al_free B" A]
  by (cases A; cases B; simp)+

section \<open>What flows do to the allocator\<close>

lemma flow_sets:
  assumes "flow out inn s s'"
  shows "queue_set s' \<subseteq> queue_set s \<union> {a. Some a \<in># inn}" and "parked_set s' = parked_set s"
    and "p_nextAddr s' = p_nextAddr s"
proof -
  have "mset (buf (p_available s')) \<subseteq># mset (buf (p_available s)) + inn"
    using flow_queue [OF assms] by (rule subset_mset.order_trans [rotated]) simp
  then have "x \<in># mset (buf (p_available s)) + inn" if "x \<in># mset (buf (p_available s'))" for x
    using that by (rule mset_subset_eqD)
  then show "queue_set s' \<subseteq> queue_set s \<union> {a. Some a \<in># inn}" by (auto simp: queue_set_def)
  show "parked_set s' = parked_set s" "p_nextAddr s' = p_nextAddr s"
    using flow_frame_simps(1,3) [OF assms] by (simp_all add: parked_set_def)
qed

lemma given_sets:
  assumes "given a from s s'"
  shows "(queue_set s' \<subseteq> insert a (queue_set s) \<and> parked_set s' = parked_set s) \<or>
     (queue_set s' \<subseteq> queue_set s \<and> parked_set s' = insert a (parked_set s))"
proof -
  have "queue_set (park a from s1) = queue_set s1" "parked_set (park a from s1) = insert a (parked_set s1)" for s1
    by (simp_all add: queue_set_def parked_set_def park_def)
  then show ?thesis using assms flow_sets unfolding given_def by fastforce
qed

lemma sets_cong:
  "p_available s' = p_available s \<Longrightarrow> queue_set s' = queue_set s"
  "p_parked s' = p_parked s \<Longrightarrow> parked_set s' = parked_set s"
  by (simp_all add: queue_set_def parked_set_def)

lemma alloc_flow:
  assumes "flow {#} {#} s s'" and "p_available s = p_available (sys_pool z)" "p_parked s = p_parked (sys_pool z)"
    "p_nextAddr s = p_nextAddr (sys_pool z)" and "sys_pool z' = s'" "sys_held z' = sys_held z"
  shows "alloc_step (abstract z) (abstract z')"
  using flow_sets [OF assms(1)] assms(2-) sets_cong [of s "sys_pool z"] by (intro alloc_stepI(1)) auto

lemma alloc_flow_self:
  "flow {#} {#} (sys_pool z) s' \<Longrightarrow> alloc_step (abstract z) (abstract (z\<lparr>sys_pool := s'\<rparr>))"
  by (rule alloc_flow) simp_all

lemma alloc_task_flow:
  "flow {#} {#} (take_task t (sys_pool z)) s' \<Longrightarrow> alloc_step (abstract z) (abstract (z\<lparr>sys_pool := s'\<rparr>))"
  by (rule alloc_flow [of "take_task t (sys_pool z)"]) simp_all

section \<open>Requests\<close>

lemma alloc_got:
  assumes g: "got (worker_got r) (queued_at q (sys_pool z)) s'" and own: "owners_ok z'"
    and "sys_pool z' = s'" "sys_held z' = (case r of Got a \<Rightarrow> a # sys_held z | _ \<Rightarrow> sys_held z)"
  shows "alloc_step (abstract z) (abstract z')"
proof (cases "worker_got r")
  case None
  then have r: "\<And>a. r \<noteq> Got a" by (cases r) simp_all
  from g None have "flow {#} {#} (queued_at q (sys_pool z)) s'" by (simp add: got_def)
  then show ?thesis by (rule alloc_flow) (use assms(3,4) r in \<open>simp_all add: queued_at_def split: get_result.split\<close>)
next
  case (Some a)
  then have r: "r = Got a" by (cases r) simp_all
  from g Some obtain s where f: "flow {#Some a#} {#} s s'"
    and s: "p_available s = p_available (sys_pool z)" "p_parked s = p_parked (sys_pool z)" "p_nextAddr s = p_nextAddr (sys_pool z)"
    by (auto simp: got_def queued_at_def busy_at_def)
  have "Some a \<in># mset (buf (p_available s))"
    using mset_subset_eqD [OF flow_queue [OF f], of "Some a"] by simp
  then have "a \<in> queue_set (sys_pool z)" using s by (simp add: queue_set_def)
  moreover have "a \<notin> queue_set (sys_pool z')"
    using owners_distinct [OF own] assms(4) r by (auto simp: queue_set_def)
  ultimately show ?thesis
    using flow_sets [OF f] sets_cong [of s "sys_pool z"] s assms(3,4) r by (intro alloc_stepI(2) [of _ _ a]) auto
qed

lemma alloc_finish:
  assumes "owners_ok z" and "a \<in> set (sys_held z)" and "finishExecute a r (sys_pool z) = (Some res, s')"
  shows "alloc_step (abstract z) (abstract (z\<lparr>sys_pool := s', sys_held := remove1 a (sys_held z)\<rparr>))"
proof -
  obtain s0 where f: "flow {#} {#} (sys_pool z) s0"
    and g: "given a FromRequest (busy_at (busy_after_release s0) s0) s'"
    by (rule finish_given [OF assms(3)])
  have "distinct (sys_held z)" using owners_distinct [OF assms(1)] by (simp add: distinct_map)
  then have held: "set (remove1 a (sys_held z)) = set (sys_held z) - {a}" by simp
  have s0: "queue_set (busy_at n s0) \<subseteq> queue_set (sys_pool z)" "parked_set (busy_at n s0) = parked_set (sys_pool z)" for n
    using flow_sets [OF f] by (auto simp: busy_at_def queue_set_def parked_set_def)
  have born: "p_nextAddr s' = p_nextAddr (sys_pool z)"
    using given_frame(3) [OF g] flow_sets(3) [OF f] by simp
  from given_sets [OF g] show ?thesis
  proof
    assume "queue_set s' \<subseteq> insert a (queue_set (busy_at (busy_after_release s0) s0)) \<and>
      parked_set s' = parked_set (busy_at (busy_after_release s0) s0)"
    with s0(1) [of "busy_after_release s0"] s0(2) born held assms(2)
    show ?thesis by (intro alloc_stepI(3) [of _ _ a]) auto
  next
    assume "queue_set s' \<subseteq> queue_set (busy_at (busy_after_release s0) s0) \<and>
      parked_set s' = insert a (parked_set (busy_at (busy_after_release s0) s0))"
    with s0(1) [of "busy_after_release s0"] s0(2) born held assms(2)
    show ?thesis by (intro alloc_stepI(4) [of _ _ a]) auto
  qed
qed

lemma alloc_unblock:
  assumes "owners_ok z" and r: "resume_sender (sys_pool z) = Some s'"
  shows "alloc_step (abstract z) (abstract (z\<lparr>sys_pool := s'\<rparr>))"
proof -
  obtain a "from" rest where p: "p_parked (sys_pool z) = (a, from) # rest"
    and f: "flow {#} {#Some a#} ((sys_pool z)\<lparr>p_parked := rest\<rparr>) s'"
    by (rule resume_sender_flow [OF r])
  let ?s0 = "(sys_pool z)\<lparr>p_parked := rest\<rparr>"
  have "distinct (map (Some \<circ> fst) (p_parked (sys_pool z)))" using owners_distinct [OF assms(1)] by simp
  then have "parked_set ?s0 = parked_set (sys_pool z) - {a}" "a \<in> parked_set (sys_pool z)"
    by (auto simp: p parked_set_def)
  moreover have "queue_set s' \<subseteq> insert a (queue_set (sys_pool z))"
    using flow_sets(1) [OF f] sets_cong(1) [of ?s0 "sys_pool z"] by auto
  ultimately show ?thesis using flow_sets(2,3) [OF f] by (intro alloc_stepI(5) [of _ _ a]) auto
qed

section \<open>Spawns\<close>

text \<open>A spawn that made no worker, and one that made one, with what its goroutine does afterwards.\<close>

lemma alloc_spawned:
  assumes "spawnWorker i env (sys_pool z) = (r, s1)" and "sys_held z' = sys_held z"
    and failed: "\<And>e. r = Inl e \<Longrightarrow> flow {#} {#} (spawn_leave i s1) (sys_pool z')"
    and made: "\<And>b. r = Inr b \<Longrightarrow> \<exists>s2 from. given b from s2 (sys_pool z') \<and>
      queue_set s2 \<subseteq> queue_set (spawn_leave i s1) \<and> parked_set s2 = parked_set (spawn_leave i s1) \<and>
      p_nextAddr s2 = p_nextAddr (spawn_leave i s1)"
  shows "alloc_step (abstract z) (abstract z')"
proof (cases rule: spawnWorker_flow [OF assms(1)])
  case (1 e)
  have s1: "queue_set (spawn_leave i s1) = queue_set s1" "parked_set (spawn_leave i s1) = parked_set s1"
    "p_nextAddr (spawn_leave i s1) = p_nextAddr s1"
    by (simp_all add: queue_set_def parked_set_def)
  from flow_sets [OF failed [OF 1(1)]] flow_sets [OF 1(2)] s1 assms(2) show ?thesis
    by (intro alloc_stepI(1)) auto
next
  case (2 w)
  let ?s0 = "snd (allocate w (sys_pool z))"
  have s0: "queue_set ?s0 = queue_set (sys_pool z)" "parked_set ?s0 = parked_set (sys_pool z)"
    "p_nextAddr ?s0 = Suc (p_nextAddr (sys_pool z))"
    by (simp_all add: queue_set_def parked_set_def)
  have s1: "queue_set (spawn_leave i s1) \<subseteq> queue_set (sys_pool z)"
    "parked_set (spawn_leave i s1) = parked_set (sys_pool z)"
    "p_nextAddr (spawn_leave i s1) = Suc (p_nextAddr (sys_pool z))"
    using flow_sets [OF 2(2)] s0 by (auto simp: queue_set_def parked_set_def)
  show ?thesis
  proof (cases r)
    case (Inl e)
    from flow_sets [OF failed [OF Inl]] s1 assms(2) show ?thesis by (intro alloc_bornI(1)) auto
  next
    case (Inr b)
    then have b: "b = p_nextAddr (sys_pool z)" by (rule 2(3))
    from made [OF Inr] obtain s2 "from" where g: "given b from s2 (sys_pool z')"
      and s2: "queue_set s2 \<subseteq> queue_set (sys_pool z)" "parked_set s2 = parked_set (sys_pool z)"
        "p_nextAddr s2 = Suc (p_nextAddr (sys_pool z))"
      using s1 by auto
    have born: "p_nextAddr (sys_pool z') = Suc (p_nextAddr (sys_pool z))" using given_frame(3) [OF g] s2(3) by simp
    from given_sets [OF g] show ?thesis
    proof
      assume "queue_set (sys_pool z') \<subseteq> insert b (queue_set s2) \<and> parked_set (sys_pool z') = parked_set s2"
      with s2 b born assms(2) show ?thesis by (intro alloc_bornI(1)) auto
    next
      assume "queue_set (sys_pool z') \<subseteq> queue_set s2 \<and> parked_set (sys_pool z') = insert b (parked_set s2)"
      with s2 b born assms(2) show ?thesis by (intro alloc_bornI(2)) auto
    qed
  qed
qed

lemma alloc_spawn_end:
  assumes "spawnWorker i env (sys_pool z) = (r, s1)"
  shows "alloc_step (abstract z) (abstract (z\<lparr>sys_pool := afterSpawn r (spawn_leave i s1), sys_spawning := sp, sys_slotted := sl\<rparr>))"
proof (rule alloc_spawned [OF assms])
  fix b assume r: "r = Inr b"
  let ?s = "spawn_leave i s1" and ?s1 = "snd (pruneDeadWorkersLocked (noteSpawnSuccess (spawn_leave i s1)))"
  let ?s2 = "?s1\<lparr>p_workers := p_workers ?s1 @ [b]\<rparr>"
  note f = finish_add_given [OF refl, where s = ?s]
  have "queue_set ?s2 = queue_set ?s1" "parked_set ?s2 = parked_set ?s1" "p_nextAddr ?s2 = p_nextAddr ?s1"
    by (simp_all add: queue_set_def parked_set_def)
  with flow_sets [OF f(1)] f(2) [where b = b] r
  show "\<exists>s2 from. given b from s2 (sys_pool (z\<lparr>sys_pool := afterSpawn r ?s, sys_spawning := sp, sys_slotted := sl\<rparr>)) \<and>
      queue_set s2 \<subseteq> queue_set ?s \<and> parked_set s2 = parked_set ?s \<and> p_nextAddr s2 = p_nextAddr ?s"
    by (intro exI [of _ ?s2] exI [of _ FromAddWorker]) (simp add: afterSpawn_def)
qed (simp_all add: flow_after_failure)

lemma alloc_respawn_end:
  assumes "spawnWorker i env (sys_pool z) = (r, s1)"
  shows "alloc_step (abstract z)
    (abstract (z\<lparr>sys_pool := afterRespawn a r (respawn_end i r (spawn_leave i s1)), sys_spawning := sp, sys_slotted := sl\<rparr>))"
proof (rule alloc_spawned [OF assms])
  fix b assume r: "r = Inr b"
  let ?s = "spawn_leave i s1"
  let ?s2 = "noteSpawnSuccess (add_active 1 (put_in_slot i b ?s))"
  have "queue_set ?s2 = queue_set ?s" "parked_set ?s2 = parked_set ?s" "p_nextAddr ?s2 = p_nextAddr ?s"
    by (simp_all add: queue_set_def parked_set_def noteSpawnSuccess_def add_active_def put_in_slot_def)
  with after_respawn_given [of b i ?s a] r
  show "\<exists>s2 from. given b from s2
        (sys_pool (z\<lparr>sys_pool := afterRespawn a r (respawn_end i r ?s), sys_spawning := sp, sys_slotted := sl\<rparr>)) \<and>
      queue_set s2 \<subseteq> queue_set ?s \<and> parked_set s2 = parked_set ?s \<and> p_nextAddr s2 = p_nextAddr ?s"
    by (intro exI [of _ ?s2] exI [of _ FromRespawn]) simp
qed (simp_all add: flow_after_failure)

section \<open>Every step\<close>

lemma alloc_stop: "alloc_step (abstract z) (abstract (z\<lparr>sys_pool := Stop (sys_pool z)\<rparr>))"
proof (cases "p_running (sys_pool z)")
  case True
  let ?s1 = "(sys_pool z)\<lparr>p_running := False, p_ctxDone := True\<rparr>"
  have "flow {#} {#} ?s1 (Stop (sys_pool z))"
    using True flow_fold_terminate [of ?s1 "p_workers ?s1"] by (simp add: Stop_def Let_def)
  then show ?thesis by (rule alloc_flow) simp_all
next
  case False
  then have "Stop (sys_pool z) = sys_pool z" by (simp add: Stop_def)
  with alloc_flow_self [OF flow_refl] show ?thesis by simp
qed

lemma queue_range: "counts_ok z \<Longrightarrow> int (length (sys_held z)) + int (length (sys_waiting z)) < 2147483646 \<Longrightarrow>
   - 2147483648 \<le> p_queuedRequests (sys_pool z) \<and> p_queuedRequests (sys_pool z) < 2147483647"
proof -
  assume c: "counts_ok z" and l: "int (length (sys_held z)) + int (length (sys_waiting z)) < 2147483646"
  have "length (filter (\<lambda>c. c) (sys_waiting z)) \<le> length (sys_waiting z)" by simp
  with c l show ?thesis unfolding counts_ok_def by linarith
qed

lemma held_settle_cases:
  "sys_held (settle r c z) = (case r of Got a \<Rightarrow> a # sys_held z | _ \<Rightarrow> sys_held z)"
  by (cases r) (simp_all add: settle_def)

lemma step_refines: "step z z' \<Longrightarrow> inv z \<Longrightarrow> owners_ok z' \<Longrightarrow> alloc_step (abstract z) (abstract z')"
proof (induction rule: step.cases)
  case (request takeDone ctx z r counted s')
  then have "counts_ok z" by (simp add: inv_def)
  with request have range: "- 2147483648 \<le> p_queuedRequests (sys_pool z)" "p_queuedRequests (sys_pool z) < 2147483647"
    using queue_range by auto
  have "owners_ok (settle r counted (z\<lparr>sys_pool := s'\<rparr>))" using request by simp
  then have "alloc_step (abstract z) (abstract (settle r counted (z\<lparr>sys_pool := s'\<rparr>)))"
    by (rule alloc_got [OF GetWorker_got [OF request(3) range]]) (simp_all add: held_settle_cases split: get_result.split)
  with request show ?case by simp
next
  case (resume counted z takeDone ctx r s')
  let ?z = "settle r counted (z\<lparr>sys_pool := s', sys_waiting := remove1 counted (sys_waiting z)\<rparr>)"
  from resume have "owners_ok ?z" by simp
  then have "alloc_step (abstract z) (abstract ?z)"
    by (rule alloc_got [OF get_resume_got [OF resume(4)]]) (simp_all add: held_settle_cases split: get_result.split)
  with resume show ?case by simp
next
  case (finish a z r res s')
  then show ?case by (simp add: alloc_finish inv_def)
next
  case (unblock z s')
  then show ?case by (simp add: alloc_unblock inv_def)
next
  case (add_worker z s')
  from add_worker(4) have "alloc_step (abstract z) (abstract (z\<lparr>sys_pool := s'\<rparr>))"
  proof (cases rule: addWorker_cases)
    case (2 s1 i s2)
    then have "p_available s' = p_available s1" "p_parked s' = p_parked s1" "p_nextAddr s' = p_nextAddr s1"
      by (auto simp: nextWorkerID_def go_def Let_def)
    with flow_sets [OF 2(1)] sets_cong [of s' s1] sets_cong [of "take_task GoAddWorker (sys_pool z)" "sys_pool z"]
    show ?thesis by (intro alloc_stepI(1)) auto
  qed (rule alloc_task_flow)
  with add_worker show ?case by simp
next
  case (spawn_begin i z s')
  note e = spawn_lock_frame [OF spawn_begin(4)]
  have "alloc_step (abstract z) (abstract (z\<lparr>sys_pool := s', sys_spawning := (i, None) # sys_spawning z\<rparr>))"
    using e sets_cong [of s' "sys_pool z"] by (intro alloc_stepI(1)) auto
  with spawn_begin show ?case by simp
next
  case (spawn_slot i x z s')
  then have "p_available s' = p_available (sys_pool z)" "p_parked s' = p_parked (sys_pool z)"
    "p_nextAddr s' = p_nextAddr (sys_pool z)" by (auto simp: acquireSpawnSlot_def)
  then have "alloc_step (abstract z) (abstract (z\<lparr>sys_pool := s', sys_slotted := i # sys_slotted z\<rparr>))"
    using sets_cong [of s' "sys_pool z"] by (intro alloc_stepI(1)) auto
  with spawn_slot show ?case by simp
next
  case (spawn_end i z env r s1)
  then show ?case by (simp add: alloc_spawn_end)
next
  case (respawn_begin a z s1)
  let ?s0 = "take_task (GoRespawn a) (sys_pool z)"
  have "flow {#} {#} ?s0 (respawn_begin a s1)" by (rule respawn_begin_flow [OF respawn_begin(4)])
  then have "alloc_step (abstract z) (abstract (z\<lparr>sys_pool := respawn_begin a s1, sys_locking := a # sys_locking z\<rparr>))"
    by (rule alloc_flow) simp_all
  with respawn_begin show ?case by simp
next
  case (respawn_lock a z i s')
  note e = spawn_lock_frame [OF respawn_lock(5)]
  have "alloc_step (abstract z) (abstract (z\<lparr>sys_pool := s', sys_spawning := (i, Some a) # sys_spawning z,
      sys_locking := remove1 a (sys_locking z)\<rparr>))"
    using e sets_cong [of s' "sys_pool z"] by (intro alloc_stepI(1)) auto
  with respawn_lock show ?case by simp
next
  case (respawn_end i a z env r s1)
  then show ?case by (simp add: alloc_respawn_end)
next
  case (process_exit a z)
  then show ?case by (simp add: alloc_task_flow [OF flow_onExit])
next
  case (fast_warmup z ready)
  then show ?case by (simp add: alloc_task_flow [OF flow_warmup])
next
  case (reaper z a)
  then show ?case by (simp add: alloc_flow_self [OF flow_reap])
next
  case (health z)
  then show ?case by (simp add: alloc_flow_self [OF flow_health_tick])
next
  case (scaler z returned s')
  then have "flow {#} {#} (sys_pool z) s'" by (intro flow_scaler_tick) (auto simp: inv_def owners_ok_def)
  from flow_sets [OF this] have "alloc_step (abstract z)
      (abstract (z\<lparr>sys_pool := (if returned then take_task GoScalerLoop s' else s')\<rparr>))"
    using sets_cong [of "take_task GoScalerLoop s'" s'] by (intro alloc_stepI(1)) auto
  with scaler show ?case by simp
next
  case (statistics z stats s')
  then show ?case by (simp add: alloc_flow_self [OF flow_stats])
next
  case (configure oob meth decoded z reply rc)
  then show ?case by (simp add: alloc_flow_self flow_field(9))
next
  case (environment z os')
  then show ?case by (simp add: alloc_flow_self flow_field(8))
next
  case (stop z)
  then show ?case by (simp add: alloc_stop)
qed

section \<open>Refinement\<close>

lemma abstract_initial: "abstract (initial tempDir os cfg) = \<lparr>al_free = {}, al_taken = {}, al_pending = {}, al_born = 0\<rparr>"
  using new_pool [of tempDir os cfg] started_pool [of "NewWorkerPool tempDir os cfg"]
  by (simp add: abstract_def initial_def queue_set_def parked_set_def)

lemma reachable_step_refines: "reachable z \<Longrightarrow> step z z' \<Longrightarrow> alloc_step (abstract z) (abstract z')"
  using step_refines reachable_inv reachable.steps by (metis inv_def)

text \<open>C3. The engine refines the allocator: every reachable state of the engine abstracts to a reachable
  state of the allocator, and every step of the engine, whatever operation it is, to one step of it:
  a worker is granted to a request only from the free ones and to one request only, comes back only from
  the request that has it, and new workers are new.\<close>

theorem engine_refines_allocator:
  assumes "reachable z"
  shows "alloc_reachable (abstract z) \<and> alloc_ok (abstract z) \<and> (\<forall>z'. step z z' \<longrightarrow> alloc_step (abstract z) (abstract z'))"
proof -
  from assms have "alloc_reachable (abstract z)"
  proof (induction rule: reachable.induct)
    case (start tempDir os cfg)
    then show ?case unfolding abstract_initial by (rule alloc_reachable.intros)
  next
    case (steps z z')
    from alloc_steps [OF steps.IH reachable_step_refines [OF steps(1,2)]] show ?case .
  qed
  with alloc_reachable_ok reachable_step_refines [OF assms] show ?thesis by blast
qed

theorem engine_refines_allocator_witness:
  "alloc_reachable \<lparr>al_free = {0}, al_taken = {}, al_pending = {}, al_born = 1\<rparr> \<and>
   alloc_step \<lparr>al_free = {0}, al_taken = {}, al_pending = {}, al_born = 1\<rparr>
     \<lparr>al_free = {}, al_taken = {0}, al_pending = {}, al_born = 1\<rparr>"
proof -
  have "abstract demo_idle = \<lparr>al_free = {0}, al_taken = {}, al_pending = {}, al_born = 1\<rparr>"
    "abstract demo = \<lparr>al_free = {}, al_taken = {0}, al_pending = {}, al_born = 1\<rparr>"
    by (simp_all add: abstract_def demo_idle_def demo_at_def demo_def queue_set_def parked_set_def
        demo_busy_def demo_spawned_def demo_entered_def demo_reserved_def demo_fields)
  moreover have "step demo_idle demo"
    using step.request [OF demo_idle_get]
    by (auto simp: demo_idle_def demo_at_def demo_def settle_def)
  ultimately show ?thesis using engine_refines_allocator [OF demo_idle_reachable] by metis
qed

end
