(* ===== verification/Spec2Isabelle.thy ===== *)
theory Spec2Isabelle
  imports Service_Properties Scaling_Properties Growth_Properties Allocation
begin

text \<open>
  A model of the Narya runtime engine (the Go package at the root of the repository) with its proofs.

  The program. The engine is an HTTP server (\<open>main.go\<close>) that hands each request to one of a pool of PHP
  worker processes (\<open>worker.go\<close> and the files \<open>worker_*.go\<close>) over a Unix socket with length-prefixed
  MessagePack frames (\<open>protocol.go\<close>). The pool grows and shrinks between a minimum and a maximum that
  can be changed while it runs (\<open>runtime_config.go\<close>); its other settings come from a YAML file
  (\<open>config.go\<close>).

  The theories, from the ground up, with the code they model:

    \<^item> Prelude: 32 and 64 bit wrap-around, errors, slices, maps; the locale \<open>frame_relation\<close>.
    \<^item> GoChan: buffered channels and semaphores; the locale \<open>bounded_fifo\<close>, interpreted on them.
    \<^item> GoText: the functions of \<open>strings\<close> and \<open>strconv\<close> that the engine uses.
    \<^item> Logger: \<open>logger.go\<close>.
    \<^item> RuntimeConfig: \<open>runtime_config.go\<close>; \<open>toInt\<close> of a JSON or YAML value, \<open>Update\<close>.
    \<^item> Config: \<open>config.go\<close>; defaults, normalisation and \<open>Validate\<close>.
    \<^item> Protocol: \<open>protocol.go\<close>, bytes; \<open>writeFull\<close>, \<open>WriteFrame\<close>, \<open>ReadFrame\<close>, the handshake.
    \<^item> Request: \<open>protocol.go\<close>, messages; pooled requests, request ids (locale \<open>id_source\<close>, interpreted on
      \<open>NextRequestID\<close> here and on \<open>nextWorkerID\<close> in Scale), sending and receiving.
    \<^item> WorkerPool: the structs \<open>Worker\<close> and \<open>WorkerPool\<close> and \<open>NewWorkerPool\<close> (\<open>worker.go\<close>).
    \<^item> Process: worker processes; \<open>isWorkerDead\<close>, \<open>startReaper\<close>, \<open>terminateWorker\<close>, \<open>markRespawning\<close>.
    \<^item> Reconcile: \<open>worker_reconcile.go\<close>; counting, pruning, eviction, stuck workers.
    \<^item> Resilience: \<open>worker_resilience.go\<close>; the spawn circuit.
    \<^item> Respawn: \<open>scheduleRespawn\<close> and its semaphore.
    \<^item> Available: \<open>worker_available.go\<close>; the queue of available workers.
    \<^item> Spawn: \<open>worker_spawn.go\<close> and \<open>spawnWorker\<close>, \<open>doSpawnWorker\<close>, \<open>abortSpawn\<close> of \<open>worker.go\<close>.
    \<^item> Scale: \<open>addWorker\<close>, \<open>removeWorker\<close>, \<open>respawnWorker\<close>, \<open>ensureMinWorkers\<close>, \<open>onWorkerProcessExit\<close>.
    \<^item> Dispatch: \<open>GetWorker\<close>, \<open>ReleaseWorker\<close>, \<open>Execute\<close>.
    \<^item> Monitor: the health monitor, the scaler, warm-up, \<open>Start\<close>, \<open>Stop\<close>, \<open>Stats\<close>.
    \<^item> Server: the HTTP handlers of \<open>main.go\<close>; Engine: its command line and \<open>main\<close>.
    \<^item> Flow, Runtime, Spawning: the engine as a transition system and its invariant.
    \<^item> Locks: \<open>GetWorker\<close> with the mutexes that executing workers hold.
    \<^item> Allocation: an abstract allocator of workers, and the proof that the engine refines it.
    \<^item> Runtime_Properties (every reachable state), Growth_Properties (a run that passes the
      maximum), Pool_Properties and Scaling_Properties (the operations of the pool), Transport_Properties
      (frames and messages), Service_Properties (the server and the command), Settings_Properties (configuration): the properties, each with its witness.

  How the state corresponds. The record \<open>pool\<close> has one field per field of \<open>WorkerPool\<close> (prefix \<open>p_\<close>).
  A pointer to a \<open>Worker\<close> is an address into \<open>p_heap\<close>, so that the queue, the slots (\<open>p_workers\<close>) and the
  goroutines share structs as the code does; allocation advances \<open>p_nextAddr\<close>. A started goroutine is
  a value of type \<open>task\<close> in \<open>p_tasks\<close>, a goroutine that blocks on the full queue is in \<open>p_parked\<close> with
  what it does afterwards (the scaler's own releases always find room, because they follow its own
  receive in the same step, so that its parked branch is never taken). Processes, signals and the
  clock are \<open>p_os\<close>. Every operation returns the updated pool; one that may not end returns an option (\<open>reserve_slot\<close> and \<open>aggressive_loop\<close> are
  \<open>partial_function\<close>s, \<open>None\<close> is a loop that does not end); panics are values. Machine integers are
  \<open>int\<close> with \<open>wrap32\<close> and \<open>wrap64\<close> written at every place where they can overflow; the length of a
  frame and the request counter are words.

  Concurrency. One operation between two blocking points is one \<open>step\<close> of the system in Runtime; steps
  of requests, goroutines, dying processes, the clock and configuration changes interleave in any
  order. A wait for a worker is a state of its own (\<open>sys_waiting\<close>), a spawn is three steps (the lock of its
  id, its slot, the rest), a respawn four.

  Time and mutexes. The critical sections of the code are short and are taken as part of the operation,
  with one exception: \<open>Worker.Execute\<close> keeps its worker's mutex for the whole request, and whoever walks
  the slots waits for it. Locks models this for \<open>GetWorker\<close>, given the workers that execute: \<open>None\<close> is a
  request that waits for a mutex. In the transition system such a request is one that has not made its
  step yet: what it did before the walk (looking for a queued worker, compacting the queue) is taken
  together with the rest, and nothing is said of how long a request waits.
  Likewise the waits inside \<open>terminateWorker\<close> (3 and 2 seconds) and the pause of the aggressive
  scale-down are not points at which other steps interleave, and the ticks of the health monitor and
  the scaler and the timers of a spawn are not tied to the clock: a step may come at any time. The
  invariants therefore hold for more schedules of ticks than the tickers allow; the run of
  Growth_Properties uses one tick of the health monitor during a boot.

  What the lemmas show. Reconcile has the frame relations \<open>tidy\<close> and \<open>tidyq\<close> (what an operation leaves
  alone), and Flow one lemma per operation of the pool that says what it can do to the queue, the
  slots and the ids; all three interpret \<open>frame_relation\<close>. Runtime and Spawning conclude that every
  reachable state satisfies the invariant \<open>inv\<close>: slots with different ids, fresh new ids, one spawn
  per id and no more spawns with a slot than places, every worker in at most one place, and exact counters.
  Allocation reads the same lemmas as a simulation of the abstract allocator. Each component's theory
  has the functional lemmas of its operations (named after them), and the properties are
  conclusions from both kinds.

  Bounds. The system admits a request only while fewer than \<open>2 ^ 31 - 2\<close> requests are inside, and
  \<open>addWorker\<close> runs as a step while the next id is below \<open>2 ^ 31 - 1\<close>; within these bounds no 32-bit
  counter of the pool wraps. There is no fuel: loops are structural, have a measure, or are
  \<open>partial_function\<close>s with their own termination lemmas.

  Parameters: the MessagePack codec, the YAML and JSON decoders, what the operating system answers to
  a spawn, the conversion of an out-of-range double to an integer, the HTTP client of the command
  line, \<open>http.Server.Serve\<close>.

  Not modelled: mutexes (but for Locks) and data races; log output except in Logger; socket files and directories;
  sleeps and the pauses of warm-up; \<open>createOptimizedListener\<close> and its \<open>Accept\<close>, which set socket
  options; the banner; the redirects of \<open>net/http\<close> for paths that are not clean; the elapsed time in
  the text of the spawn timeout error; the tests.
\<close>

end
